(* ===== verification/Prelude.thy ===== *)
theory Prelude
  imports Main "HOL-Library.Word" "HOL-Library.Char_ord" "HOL-Library.List_Lexorder"
    "HOL-Library.Multiset"
begin

text \<open>
  Shared vocabulary of the development: Rust's \<open>Result\<close> and \<open>Ordering\<close>, 64-bit saturating
  arithmetic, operations on UTF-8 text, enumerations of hash maps, \<open>sort_by\<close>, and the generic
  contract of a state machine with an invariant.

  Conventions used by every theory:
  \<^item> a Rust \<open>String\<close> is the list of its UTF-8 bytes (\<open>string\<close>); \<open>length\<close> is Rust's
    \<open>len()\<close>;
  \<^item> \<open>('a, 'e) result\<close> is Rust's \<open>Result\<close>; an outer \<open>option\<close> is used where the code can
    panic (\<open>None\<close>);
  \<^item> a \<open>HashMap\<close> is a map \<open>'k \<rightharpoonup> 'v\<close>. Rust leaves its iteration order open: an operation
    that iterates takes the order of that iteration as a list of keys, constrained only by
    \<open>enumerates\<close>.
\<close>

section \<open>Collections of facts\<close>

named_theorems result_simps \<open>unfolding the result combinators\<close>
named_theorems text_simps \<open>unfolding the text operations\<close>

section \<open>Rust's Result\<close>

datatype ('a, 'e) result = Ok 'a | Err 'e

fun is_ok :: "('a, 'e) result \<Rightarrow> bool" where
  "is_ok (Ok _) = True"
| "is_ok (Err _) = False"

text \<open>The \<open>?\<close> operator: an error returns early.\<close>

fun and_then :: "('a, 'e) result \<Rightarrow> ('a \<Rightarrow> ('b, 'e) result) \<Rightarrow> ('b, 'e) result" where
  "and_then (Ok x) f = f x"
| "and_then (Err e) f = Err e"

fun map_ok :: "('a \<Rightarrow> 'b) \<Rightarrow> ('a, 'e) result \<Rightarrow> ('b, 'e) result" where
  "map_ok f (Ok x) = Ok (f x)"
| "map_ok f (Err e) = Err e"

fun map_err :: "('e \<Rightarrow> 'f) \<Rightarrow> ('a, 'e) result \<Rightarrow> ('a, 'f) result" where
  "map_err f (Ok x) = Ok x"
| "map_err f (Err e) = Err (f e)"

definition ok_or :: "'e \<Rightarrow> 'a option \<Rightarrow> ('a, 'e) result" where
  "ok_or e x = (case x of Some y \<Rightarrow> Ok y | None \<Rightarrow> Err e)"

lemma ok_or_simps [simp, result_simps]:
  "ok_or e (Some y) = Ok y" "ok_or e None = Err e"
  by (simp_all add: ok_or_def)

lemma and_then_Ok_iff [result_simps]:
  "and_then r f = Ok y \<longleftrightarrow> (\<exists>x. r = Ok x \<and> f x = Ok y)"
  by (cases r) auto

lemma and_then_Err_iff [result_simps]:
  "and_then r f = Err e \<longleftrightarrow> r = Err e \<or> (\<exists>x. r = Ok x \<and> f x = Err e)"
  by (cases r) auto

lemma map_err_Ok_iff [simp]: "map_err f r = Ok x \<longleftrightarrow> r = Ok x"
  by (cases r) auto

lemma map_ok_iff [result_simps]:
  "map_ok f r = Ok y \<longleftrightarrow> (\<exists>x. r = Ok x \<and> y = f x)"
  "map_ok f r = Err e \<longleftrightarrow> r = Err e"
  by (cases r; auto)+

section \<open>Rust's Ordering\<close>

datatype ordering = Less | Equal | Greater

fun reverse_ordering :: "ordering \<Rightarrow> ordering" where
  "reverse_ordering Less = Greater"
| "reverse_ordering Equal = Equal"
| "reverse_ordering Greater = Less"

lemma reverse_reverse [simp]: "reverse_ordering (reverse_ordering c) = c"
  by (cases c) auto

lemma reverse_eq_iff [simp]:
  "reverse_ordering c = Less \<longleftrightarrow> c = Greater"
  "reverse_ordering c = Equal \<longleftrightarrow> c = Equal"
  "reverse_ordering c = Greater \<longleftrightarrow> c = Less"
  "Less = reverse_ordering c \<longleftrightarrow> c = Greater"
  "Equal = reverse_ordering c \<longleftrightarrow> c = Equal"
  "Greater = reverse_ordering c \<longleftrightarrow> c = Less"
  by (cases c; simp)+

text \<open>\<open>Ordering\<close> itself derives \<open>Ord\<close> with \<open>Less < Equal < Greater\<close>.\<close>

fun ordering_rank :: "ordering \<Rightarrow> nat" where
  "ordering_rank Less = 0"
| "ordering_rank Equal = 1"
| "ordering_rank Greater = 2"

lemma ordering_rank_inj: "ordering_rank a = ordering_rank b \<Longrightarrow> a = b"
  by (cases a; cases b) auto

instantiation ordering :: linorder
begin

definition less_eq_ordering :: "ordering \<Rightarrow> ordering \<Rightarrow> bool" where
  "less_eq_ordering a b \<longleftrightarrow> ordering_rank a \<le> ordering_rank b"

definition less_ordering :: "ordering \<Rightarrow> ordering \<Rightarrow> bool" where
  "less_ordering a b \<longleftrightarrow> ordering_rank a < ordering_rank b"

instance
  by standard (auto simp: less_eq_ordering_def less_ordering_def dest: ordering_rank_inj)

end

text \<open>\<open>Ord::cmp\<close> of a linearly ordered type.\<close>

definition cmp_ord :: "'a::linorder \<Rightarrow> 'a \<Rightarrow> ordering" where
  "cmp_ord x y = (if x < y then Less else if x = y then Equal else Greater)"

lemma cmp_ord_iff [simp]:
  "cmp_ord x y = Less \<longleftrightarrow> x < y"
  "cmp_ord x y = Equal \<longleftrightarrow> x = y"
  "cmp_ord x y = Greater \<longleftrightarrow> y < x"
  by (auto simp: cmp_ord_def)

lemma cmp_ord_dual: "cmp_ord y x = reverse_ordering (cmp_ord x y)"
  by (auto simp: cmp_ord_def)

section \<open>Machine integers\<close>

type_synonym u8 = "8 word"
type_synonym u16 = "16 word"
type_synonym u32 = "32 word"
type_synonym u64 = "64 word"
type_synonym usize = "64 word"
type_synonym i64 = "64 word"  \<comment> \<open>read as two's complement by \<open>sint\<close>\<close>

definition u64_max :: nat where
  "u64_max = 2 ^ 64 - 1"

definition saturating_add :: "u64 \<Rightarrow> u64 \<Rightarrow> u64" where
  "saturating_add a b = of_nat (min u64_max (unat a + unat b))"

definition saturating_mul :: "u64 \<Rightarrow> u64 \<Rightarrow> u64" where
  "saturating_mul a b = of_nat (min u64_max (unat a * unat b))"

definition saturating_pow :: "u64 \<Rightarrow> nat \<Rightarrow> u64" where
  "saturating_pow a n = of_nat (min u64_max (unat a ^ n))"

lemma unat_of_nat_saturated [simp]:
  "unat (of_nat (min u64_max n) :: u64) = min u64_max n"
  by (simp add: unsigned_of_nat take_bit_nat_eq_self_iff) (simp add: u64_max_def)

lemma unat_le_u64_max: "unat (x :: u64) \<le> u64_max"
  using unsigned_less [of x, where ?'a = nat] by (simp add: u64_max_def)

lemma unat_saturating [simp]:
  "unat (saturating_add a b) = min u64_max (unat a + unat b)"
  "unat (saturating_mul a b) = min u64_max (unat a * unat b)"
  "unat (saturating_pow a n) = min u64_max (unat a ^ n)"
  by (simp_all add: saturating_add_def saturating_mul_def saturating_pow_def)

section \<open>Text\<close>

definition starts_with :: "string \<Rightarrow> string \<Rightarrow> bool" where
  [text_simps]: "starts_with s p \<longleftrightarrow> take (length p) s = p"

definition strip_prefix :: "string \<Rightarrow> string \<Rightarrow> string option" where
  [text_simps]: "strip_prefix s p = (if starts_with s p then Some (drop (length p) s) else None)"

definition strip_suffix :: "string \<Rightarrow> string \<Rightarrow> string option" where
  [text_simps]: "strip_suffix s p =
     (if length p \<le> length s \<and> drop (length s - length p) s = p
      then Some (take (length s - length p) s) else None)"

fun find_sub :: "string \<Rightarrow> string \<Rightarrow> nat option" where
  "find_sub p s =
     (if starts_with s p then Some 0
      else case s of [] \<Rightarrow> None | _ # s' \<Rightarrow> map_option Suc (find_sub p s'))"

declare find_sub.simps [simp del]

definition contains_sub :: "string \<Rightarrow> string \<Rightarrow> bool" where
  "contains_sub s p \<longleftrightarrow> find_sub p s \<noteq> None"

definition trim_start_matches :: "char \<Rightarrow> string \<Rightarrow> string" where
  "trim_start_matches c s = dropWhile (\<lambda>x. x = c) s"

definition trim_end_matches :: "char \<Rightarrow> string \<Rightarrow> string" where
  "trim_end_matches c s = rev (dropWhile (\<lambda>x. x = c) (rev s))"

text \<open>
  \<open>str::to_lowercase\<close> on ASCII text: the bytes A to Z are mapped, every other byte is kept. For
  letters outside ASCII the Unicode tables are not modelled.
\<close>

definition char_lower :: "char \<Rightarrow> char" where
  "char_lower c =
     (let n = of_char c :: nat in if 65 \<le> n \<and> n \<le> 90 then char_of (n + 32) else c)"

definition to_lowercase :: "string \<Rightarrow> string" where
  "to_lowercase s = map char_lower s"

fun join_with :: "string \<Rightarrow> string list \<Rightarrow> string" where
  "join_with sep [] = ''''"
| "join_with sep [x] = x"
| "join_with sep (x # y # xs) = x @ sep @ join_with sep (y # xs)"

text \<open>Decimal rendering of integers, as \<open>format!("{}")\<close> prints them.\<close>

fun show_nat :: "nat \<Rightarrow> string" where
  "show_nat n =
     (if n < 10 then [char_of (48 + n)] else show_nat (n div 10) @ [char_of (48 + n mod 10)])"

declare show_nat.simps [simp del]

definition show_int :: "int \<Rightarrow> string" where
  "show_int i = (if i < 0 then ''-'' @ show_nat (nat (- i)) else show_nat (nat i))"

text \<open>
  A byte of the form 10xxxxxx continues a UTF-8 sequence. Slicing a \<open>str\<close> at such a byte
  panics, and so does slicing past its end: both are \<open>None\<close>.
\<close>

definition is_continuation :: "char \<Rightarrow> bool" where
  "is_continuation c \<longleftrightarrow> (let n = of_char c :: nat in 128 \<le> n \<and> n < 192)"

definition is_char_boundary :: "string \<Rightarrow> nat \<Rightarrow> bool" where
  "is_char_boundary s n \<longleftrightarrow>
     n = 0 \<or> n = length s \<or> (n < length s \<and> \<not> is_continuation (s ! n))"

definition slice_to :: "string \<Rightarrow> nat \<Rightarrow> string option" where
  "slice_to s n = (if is_char_boundary s n then Some (take n s) else None)"

lemma strip_suffix_append [simp]: "strip_suffix (s @ p) p = Some s"
  by (simp add: strip_suffix_def)

lemma strip_suffix_Some_iff: "strip_suffix s p = Some t \<longleftrightarrow> s = t @ p"
proof
  assume "strip_suffix s p = Some t"
  then show "s = t @ p"
    by (auto simp: strip_suffix_def split: if_splits) (metis append_take_drop_id)
qed simp

lemma starts_with_append [simp]: "starts_with (p @ s) p"
  by (simp add: starts_with_def)

lemma starts_with_iff: "starts_with s p \<longleftrightarrow> (\<exists>t. s = p @ t)"
  unfolding starts_with_def by (metis append_eq_conv_conj append_take_drop_id)

lemma strip_prefix_append [simp]: "strip_prefix (p @ s) p = Some s"
  by (simp add: strip_prefix_def)

lemma find_sub_Some: "find_sub p s = Some n \<Longrightarrow> take n s @ p @ drop (n + length p) s = s"
proof (induction p s arbitrary: n rule: find_sub.induct)
  case (1 p s)
  show ?case
  proof (cases "starts_with s p")
    case True
    with "1.prems" have "n = 0" by (simp add: find_sub.simps [of p s])
    with True show ?thesis by (simp add: starts_with_def) (metis append_take_drop_id)
  next
    case False
    with "1.prems" obtain c s' m where s: "s = c # s'" and m: "find_sub p s' = Some m" "n = Suc m"
      by (auto simp: find_sub.simps [of p s] split: list.splits)
    from "1.IH" [OF False s m(1)] s m(2) show ?thesis by simp
  qed
qed

lemma find_sub_append: "find_sub p (a @ p @ b) \<noteq> None"
proof (induction a)
  case Nil
  show ?case by (simp add: find_sub.simps [of p "p @ b"])
next
  case (Cons c a)
  then show ?case by (simp add: find_sub.simps [of p "c # a @ p @ b"])
qed

lemma contains_sub_iff: "contains_sub s p \<longleftrightarrow> (\<exists>a b. s = a @ p @ b)"
proof
  assume "contains_sub s p"
  then obtain n where "find_sub p s = Some n" by (auto simp: contains_sub_def)
  from find_sub_Some [OF this] show "\<exists>a b. s = a @ p @ b" by metis
next
  assume "\<exists>a b. s = a @ p @ b"
  then show "contains_sub s p" using find_sub_append by (auto simp: contains_sub_def)
qed

section \<open>Hash maps and their iteration order\<close>

text \<open>
  \<open>enumerates ks m\<close>: the keys \<open>ks\<close> are one possible order in which Rust iterates the hash map
  \<open>m\<close>, each entry once.
\<close>

definition enumerates :: "'k list \<Rightarrow> ('k \<rightharpoonup> 'v) \<Rightarrow> bool" where
  "enumerates ks m \<longleftrightarrow> distinct ks \<and> set ks = dom m"

definition values_in :: "'k list \<Rightarrow> ('k \<rightharpoonup> 'v) \<Rightarrow> 'v list" where
  "values_in ks m = List.map_filter m ks"

lemma values_in_simps [simp]:
  "values_in [] m = []"
  "values_in (k # ks) m =
     (case m k of None \<Rightarrow> values_in ks m | Some v \<Rightarrow> v # values_in ks m)"
  by (auto simp: values_in_def List.map_filter_def split: option.splits)

lemma set_values_in: "set (values_in ks m) = {v. \<exists>k \<in> set ks. m k = Some v}"
  by (induction ks) (auto split: option.splits)

lemma values_in_append: "values_in (ks @ ls) m = values_in ks m @ values_in ls m"
  by (induction ks) (auto split: option.splits)

lemma mset_values_in:
  "mset ks = mset ls \<Longrightarrow> mset (values_in ks m) = mset (values_in ls m)"
  by (simp add: values_in_def List.map_filter_def)

lemma enumerates_mset:
  "enumerates ks m \<Longrightarrow> enumerates ls m \<Longrightarrow> mset ks = mset ls"
  using set_eq_iff_mset_eq_distinct [of ks ls] by (simp add: enumerates_def)

lemma enumerates_values_mset:
  "enumerates ks m \<Longrightarrow> enumerates ls m \<Longrightarrow> mset (values_in ks m) = mset (values_in ls m)"
  by (rule mset_values_in) (rule enumerates_mset)

lemma values_in_cong:
  assumes "\<And>k. k \<in> set ks \<Longrightarrow> m k = m' k"
  shows "values_in ks m = values_in ks m'"
  using assms
proof (induction ks)
  case (Cons k ks)
  from Cons.prems have "m k = m' k" and "values_in ks m = values_in ks m'"
    by (auto intro: Cons.IH)
  then show ?case by (simp split: option.split)
qed simp

section \<open>The standard library's stable sort\<close>

text \<open>
  \<open>slice::sort_by\<close> promises the stable sorted permutation when the comparison is a total
  order on the elements; otherwise it leaves the result open and may panic. The model returns
  \<open>None\<close> in that case. \<open>total_on_list\<close> is the documented requirement, as a check.
\<close>

definition total_on_list :: "('a \<Rightarrow> 'a \<Rightarrow> ordering) \<Rightarrow> 'a list \<Rightarrow> bool" where
  "total_on_list c xs \<longleftrightarrow>
     list_all (\<lambda>x. list_all (\<lambda>y. c y x = reverse_ordering (c x y)) xs) xs \<and>
     list_all (\<lambda>x. list_all (\<lambda>y. list_all (\<lambda>z.
       c x y \<noteq> Greater \<longrightarrow> c y z \<noteq> Greater \<longrightarrow> c x z \<noteq> Greater) xs) xs) xs"

fun insert_by :: "('a \<Rightarrow> 'a \<Rightarrow> ordering) \<Rightarrow> 'a \<Rightarrow> 'a list \<Rightarrow> 'a list" where
  "insert_by c x [] = [x]"
| "insert_by c x (y # ys) =
     (if c x y = Greater then y # insert_by c x ys else x # y # ys)"

fun stable_sort :: "('a \<Rightarrow> 'a \<Rightarrow> ordering) \<Rightarrow> 'a list \<Rightarrow> 'a list" where
  "stable_sort c [] = []"
| "stable_sort c (x # xs) = insert_by c x (stable_sort c xs)"

definition sort_by :: "('a \<Rightarrow> 'a \<Rightarrow> ordering) \<Rightarrow> 'a list \<Rightarrow> 'a list option" where
  "sort_by c xs = (if total_on_list c xs then Some (stable_sort c xs) else None)"

lemma mset_insert_by [simp]: "mset (insert_by c x ys) = add_mset x (mset ys)"
  by (induction ys) auto

lemma mset_stable_sort [simp]: "mset (stable_sort c xs) = mset xs"
  by (induction xs) auto

lemma set_insert_by [simp]: "set (insert_by c x ys) = insert x (set ys)"
  by (metis mset_insert_by set_mset_add_mset_insert set_mset_mset)

lemma set_stable_sort [simp]: "set (stable_sort c xs) = set xs"
  by (metis mset_stable_sort set_mset_mset)

lemma sort_by_mset: "sort_by c xs = Some ys \<Longrightarrow> mset ys = mset xs"
  by (auto simp: sort_by_def split: if_splits)

text \<open>
  The contract of a comparison that is a total order on a class of elements, and what the
  stable sort then gives: it is defined, sorted, and keeps the order of equal elements.
\<close>

locale total_comparison =
  fixes c :: "'a \<Rightarrow> 'a \<Rightarrow> ordering"
    and carrier :: "'a \<Rightarrow> bool"
  assumes dual: "carrier x \<Longrightarrow> carrier y \<Longrightarrow> c y x = reverse_ordering (c x y)"
    and le_trans: "carrier x \<Longrightarrow> carrier y \<Longrightarrow> carrier z \<Longrightarrow>
      c x y \<noteq> Greater \<Longrightarrow> c y z \<noteq> Greater \<Longrightarrow> c x z \<noteq> Greater"
begin

lemma c_refl: "carrier x \<Longrightarrow> c x x = Equal"
  using dual [of x x] by (cases "c x x") auto

lemma total_on: "list_all carrier xs \<Longrightarrow> total_on_list c xs"
  by (auto simp: total_on_list_def list_all_iff intro: dual) (metis le_trans)

lemma sort_defined: "list_all carrier xs \<Longrightarrow> sort_by c xs = Some (stable_sort c xs)"
  by (simp add: sort_by_def total_on)

lemma insert_by_sorted:
  assumes "carrier x" and "list_all carrier ys" and "sorted_wrt (\<lambda>a b. c a b \<noteq> Greater) ys"
  shows "sorted_wrt (\<lambda>a b. c a b \<noteq> Greater) (insert_by c x ys)"
  using assms
proof (induction ys)
  case Nil
  then show ?case by simp
next
  case (Cons y ys)
  show ?case
  proof (cases "c x y = Greater")
    case True
    with Cons.prems have "c y x = Less" by (simp add: dual [of x y])
    with True Cons show ?thesis by auto
  next
    case False
    have "c x z \<noteq> Greater" if "z \<in> set ys" for z
    proof -
      from that Cons.prems have "carrier y" "carrier z" "c y z \<noteq> Greater"
        by (auto simp: list_all_iff)
      with False Cons.prems(1) show ?thesis using le_trans [of x y z] by simp
    qed
    with False Cons.prems show ?thesis by auto
  qed
qed

lemma sort_sorted:
  "list_all carrier xs \<Longrightarrow> sorted_wrt (\<lambda>a b. c a b \<noteq> Greater) (stable_sort c xs)"
  by (induction xs) (auto simp: list_all_iff intro!: insert_by_sorted)

lemma equal_classes:
  assumes "carrier x" "carrier y" "carrier z" "c x y = Equal"
  shows "c x z = Equal \<longleftrightarrow> c y z = Equal"
proof -
  from assms have yx: "c y x = Equal" by (simp add: dual [of x y])
  have "c x z \<noteq> Greater \<longleftrightarrow> c y z \<noteq> Greater"
    using assms yx by (metis le_trans ordering.distinct(5))
  moreover have "c z x \<noteq> Greater \<longleftrightarrow> c z y \<noteq> Greater"
    using assms yx by (metis le_trans ordering.distinct(5))
  then have "c x z \<noteq> Less \<longleftrightarrow> c y z \<noteq> Less"
    using assms by (simp add: dual [of x z] dual [of y z])
  ultimately show ?thesis by (cases "c x z"; cases "c y z") auto
qed

lemma insert_by_stable:
  assumes "carrier a" "carrier x" "list_all carrier ys"
  shows "filter (\<lambda>y. c a y = Equal) (insert_by c x ys) =
    (if c a x = Equal then x # filter (\<lambda>y. c a y = Equal) ys
     else filter (\<lambda>y. c a y = Equal) ys)"
  using assms
proof (induction ys)
  case Nil
  then show ?case by simp
next
  case (Cons y ys)
  have "c a y \<noteq> Equal" if "c x y = Greater" "c a x = Equal"
    using equal_classes [of a x y] that Cons.prems by simp
  with Cons show ?case by auto
qed

lemma sort_stable:
  assumes "carrier a" "list_all carrier xs"
  shows "filter (\<lambda>y. c a y = Equal) (stable_sort c xs) = filter (\<lambda>y. c a y = Equal) xs"
  using assms
proof (induction xs)
  case (Cons x xs)
  then have "list_all carrier (stable_sort c xs)" by (simp add: list_all_iff)
  with Cons show ?case by (auto simp: insert_by_stable)
qed simp

end

interpretation linorder_cmp: total_comparison "cmp_ord :: 'a::linorder \<Rightarrow> 'a \<Rightarrow> ordering" "\<lambda>_. True"
  by unfold_locales (rule cmp_ord_dual, auto)

text \<open>
  Comparing by a key in a linear order is a total comparison, and so is putting the elements
  without a key last, whichever direction the others are compared in.
\<close>

lemma total_comparison_key:
  assumes "\<And>x y. P x \<Longrightarrow> P y \<Longrightarrow> c x y = cmp_ord (key x) (key y)"
  shows "total_comparison c P"
proof
  fix x y
  assume "P x" "P y"
  then show "c y x = reverse_ordering (c x y)"
    using cmp_ord_dual [of "key y" "key x"] by (simp add: assms)
next
  fix x y z
  assume "P x" "P y" "P z" "c x y \<noteq> Greater" "c y z \<noteq> Greater"
  then show "c x z \<noteq> Greater" by (simp add: assms)
qed

definition missing_last ::
  "('a \<Rightarrow> bool) \<Rightarrow> bool \<Rightarrow> ('a \<Rightarrow> 'a \<Rightarrow> ordering) \<Rightarrow> 'a \<Rightarrow> 'a \<Rightarrow> ordering" where
  "missing_last miss desc c x y =
     (if miss x \<and> miss y then Equal
      else if miss x then Greater
      else if miss y then Less
      else if desc then reverse_ordering (c x y) else c x y)"

context total_comparison
begin

lemma ge_trans:
  assumes "carrier x" "carrier y" "carrier z" "c x y \<noteq> Less" "c y z \<noteq> Less"
  shows "c x z \<noteq> Less"
proof -
  from assms have "c z y \<noteq> Greater" "c y x \<noteq> Greater"
    by (simp_all add: dual [of y z] dual [of x y])
  with assms have "c z x \<noteq> Greater" using le_trans [of z y x] by simp
  with assms show ?thesis by (simp add: dual [of x z])
qed

lemma missing_last_total:
  "total_comparison (missing_last miss desc c) (\<lambda>x. miss x \<or> carrier x)"
proof unfold_locales
  fix x y
  assume "miss x \<or> carrier x" "miss y \<or> carrier y"
  then show "missing_last miss desc c y x = reverse_ordering (missing_last miss desc c x y)"
    using dual [of x y] by (cases "miss x"; cases "miss y") (simp_all add: missing_last_def)
next
  fix x y z
  assume *: "miss x \<or> carrier x" "miss y \<or> carrier y" "miss z \<or> carrier z"
    "missing_last miss desc c x y \<noteq> Greater" "missing_last miss desc c y z \<noteq> Greater"
  show "missing_last miss desc c x z \<noteq> Greater"
  proof (cases "miss x \<or> miss y \<or> miss z")
    case True
    with * show ?thesis by (auto simp: missing_last_def split: if_splits)
  next
    case False
    with * show ?thesis
      using le_trans [of x y z] ge_trans [of x y z] by (auto simp: missing_last_def split: if_splits)
  qed
qed

end

text \<open>An association list as the entries of a hash map, in the order they are iterated.\<close>

fun entries_put :: "'k \<Rightarrow> 'v \<Rightarrow> ('k \<times> 'v) list \<Rightarrow> ('k \<times> 'v) list" where
  "entries_put k v [] = [(k, v)]"
| "entries_put k v ((k', v') # es) =
     (if k' = k then (k, v) # es else (k', v') # entries_put k v es)"

lemma map_of_entries_put [simp]: "map_of (entries_put k v es) = (map_of es)(k \<mapsto> v)"
  by (induction k v es rule: entries_put.induct) auto

lemma keys_entries_put: "fst ` set (entries_put k v es) = insert k (fst ` set es)"
  by (induction k v es rule: entries_put.induct) (simp_all add: insert_commute)

lemma distinct_entries_put:
  "distinct (map fst es) \<Longrightarrow> distinct (map fst (entries_put k v es))"
  by (induction k v es rule: entries_put.induct) (auto simp: keys_entries_put)

section \<open>Keyed stores\<close>

text \<open>
  The contract of anything read and written by key: a read after a write of the same key gives
  what was written, and other keys are untouched. A client that writes a whole list of entries
  then knows what it reads afterwards.
\<close>

locale keyed_store =
  fixes lookup :: "'s \<Rightarrow> 'k \<Rightarrow> 'v option"
    and put :: "'k \<Rightarrow> 'v \<Rightarrow> 's \<Rightarrow> 's"
  assumes lookup_put: "lookup (put k v s) k' = (if k' = k then Some v else lookup s k')"
begin

definition put_all :: "('k \<times> 'v) list \<Rightarrow> 's \<Rightarrow> 's" where
  "put_all es s = fold (\<lambda>(k, v). put k v) es s"

lemma put_all_simps [simp]:
  "put_all [] s = s"
  "put_all ((k, v) # es) s = put_all es (put k v s)"
  by (simp_all add: put_all_def)

lemma lookup_put_all_frame: "k \<notin> fst ` set es \<Longrightarrow> lookup (put_all es s) k = lookup s k"
  by (induction es arbitrary: s) (auto simp: lookup_put)

lemma lookup_put_all:
  "distinct (map fst es) \<Longrightarrow>
   lookup (put_all es s) k = (case map_of es k of Some v \<Rightarrow> Some v | None \<Rightarrow> lookup s k)"
proof (induction es arbitrary: s)
  case (Cons e es)
  obtain k' v' where e: "e = (k', v')" by force
  show ?case
  proof (cases "k = k'")
    case True
    with Cons.prems have "k \<notin> fst ` set es" by (simp add: e)
    with True show ?thesis by (simp add: e lookup_put_all_frame lookup_put)
  next
    case False
    with Cons show ?thesis by (simp add: e lookup_put split: option.split)
  qed
qed simp

end

interpretation hash_map: keyed_store "\<lambda>m k. m k" "\<lambda>k v m. m(k \<mapsto> v)"
  by unfold_locales simp

interpretation entry_list: keyed_store map_of entries_put
  by unfold_locales simp

section \<open>State machines with an invariant\<close>

text \<open>
  The contract the stateful components share: initial states satisfy the invariant and every
  step keeps it, so every state reached by any interleaving of steps satisfies it.
\<close>

locale invariant_machine =
  fixes initial :: "'s \<Rightarrow> bool"
    and step :: "'s \<Rightarrow> 's \<Rightarrow> bool"
    and inv :: "'s \<Rightarrow> bool"
  assumes inv_initial: "initial s \<Longrightarrow> inv s"
    and inv_step: "inv s \<Longrightarrow> step s t \<Longrightarrow> inv t"
begin

lemma inv_steps: "rtranclp step s t \<Longrightarrow> inv s \<Longrightarrow> inv t"
  by (induction rule: rtranclp_induct) (auto intro: inv_step)

lemma reachable_inv: "initial s \<Longrightarrow> rtranclp step s t \<Longrightarrow> inv t"
  by (blast intro: inv_initial inv_steps)

end

section \<open>Refinement of whole runs\<close>

text \<open>
  The contract of a component that implements a specification: each request, in a state the
  component can be in, returns the answer of the specification and leads to a state that
  represents the specification's next one. Then every sequence of requests is answered as the
  specification says, and none fails.
\<close>

fun run_spec :: "('q \<Rightarrow> 't \<Rightarrow> 'a \<times> 't) \<Rightarrow> 'q list \<Rightarrow> 't \<Rightarrow> 'a list \<times> 't" where
  "run_spec spec [] t = ([], t)"
| "run_spec spec (q # qs) t =
     (case spec q t of (a, t1) \<Rightarrow> (case run_spec spec qs t1 of (as, t2) \<Rightarrow> (a # as, t2)))"

fun run_calls :: "('q \<Rightarrow> 's \<Rightarrow> ('a \<times> 's) option) \<Rightarrow> 'q list \<Rightarrow> 's \<Rightarrow> ('a list \<times> 's) option" where
  "run_calls call [] s = Some ([], s)"
| "run_calls call (q # qs) s =
     Option.bind (call q s) (\<lambda>(a, s1).
       map_option (\<lambda>(as, s2). (a # as, s2)) (run_calls call qs s1))"

lemma run_spec_append:
  "run_spec spec (ps @ qs) t =
     (case run_spec spec ps t of (as, t1) \<Rightarrow> (case run_spec spec qs t1 of (bs, t2) \<Rightarrow> (as @ bs, t2)))"
  by (induction ps arbitrary: t) (auto split: prod.split)

locale simulation =
  fixes call :: "'q \<Rightarrow> 's \<Rightarrow> ('a \<times> 's) option"
    and spec :: "'q \<Rightarrow> 't \<Rightarrow> 'a \<times> 't"
    and abs :: "'s \<Rightarrow> 't"
    and wf :: "'s \<Rightarrow> bool"
  assumes call_simulates:
    "wf s \<Longrightarrow> \<exists>a s'. call q s = Some (a, s') \<and> (a, abs s') = spec q (abs s) \<and> wf s'"
begin

lemma run_simulates:
  "wf s \<Longrightarrow> \<exists>as s'. run_calls call qs s = Some (as, s') \<and> (as, abs s') = run_spec spec qs (abs s) \<and> wf s'"
proof (induction qs arbitrary: s)
  case (Cons q qs)
  from call_simulates [OF Cons.prems] obtain a s1
    where one: "call q s = Some (a, s1)" "spec q (abs s) = (a, abs s1)" "wf s1" by metis
  from Cons.IH [OF one(3)] obtain as s2
    where "run_calls call qs s1 = Some (as, s2)" "run_spec spec qs (abs s1) = (as, abs s2)" "wf s2"
    by metis
  with one show ?case by simp
qed simp

end

end
