(* ===== verification/Float64.thy ===== *)
theory Float64
  imports Prelude Complex_Main "HOL-Library.Log_Nat"
begin

text \<open>
  Rust's \<open>f64\<close> (IEEE 754 binary64, round to nearest, ties to even) as rational numbers with the
  two infinities and NaN: an operation is the exact rational operation followed by rounding. The
  sign of a zero is not represented; no code modelled here depends on it. The lemmas give
  exactness on integers up to \<open>2 ^ 53\<close>, monotonicity of rounding and its bounds.
\<close>

section \<open>Rounding\<close>

text \<open>The position of the leading binary digit of a positive rational.\<close>

definition ilog2 :: "rat \<Rightarrow> int" where
  "ilog2 q =
     (case quotient_of q of (n, d) \<Rightarrow>
        let k = int (floorlog 2 (nat n)) - int (floorlog 2 (nat d))
        in if 2 powi k \<le> q then k else k - 1)"

text \<open>Round half to even.\<close>

definition round_even :: "rat \<Rightarrow> int" where
  "round_even q =
     (let f = \<lfloor>q\<rfloor>; r = q - of_int f
      in if r < 1 / 2 then f else if 1 / 2 < r then f + 1 else if even f then f else f + 1)"

text \<open>The exponent of the last binary digit a double next to \<open>q\<close> can have.\<close>

definition ulp_exp :: "rat \<Rightarrow> int" where
  "ulp_exp q = max (- 1074) (ilog2 \<bar>q\<bar> - 52)"

definition rnd :: "rat \<Rightarrow> rat" where
  "rnd q =
     (if q = 0 then 0 else of_int (round_even (q / 2 powi ulp_exp q)) * 2 powi ulp_exp q)"

lemma ilog2_bounds:
  assumes "0 < q"
  shows "2 powi ilog2 q \<le> q \<and> q < 2 powi (ilog2 q + 1)"
proof -
  obtain n d where nd: "quotient_of q = (n, d)" by (cases "quotient_of q")
  have d: "0 < d" using quotient_of_denom_pos [OF nd] .
  have q: "q = of_int n / of_int d" using quotient_of_div [OF nd] .
  with assms d have n: "0 < n" by (simp add: zero_less_divide_iff)
  define a where "a = floorlog 2 (nat n)"
  define b where "b = floorlog 2 (nat d)"
  have a: "2 ^ (a - 1) \<le> nat n" "nat n < 2 ^ a" "1 \<le> a"
    using floorlog_bounds [of "nat n" 2] n by (auto simp: a_def Suc_le_eq floorlog_def)
  have b: "2 ^ (b - 1) \<le> nat d" "nat d < 2 ^ b" "1 \<le> b"
    using floorlog_bounds [of "nat d" 2] d by (auto simp: b_def Suc_le_eq floorlog_def)
  have A: "(2::rat) powi (int a - 1) \<le> of_int n" "of_int n < (2::rat) powi int a"
  proof -
    have "(2::rat) powi (int a - 1) = of_nat (2 ^ (a - 1))"
      using a(3) by (simp add: power_int_def nat_diff_distrib)
    also have "\<dots> \<le> of_nat (nat n)" using a(1) by (simp only: of_nat_le_iff)
    finally show "(2::rat) powi (int a - 1) \<le> of_int n" using n by (simp add: of_nat_nat)
    have "(of_nat (nat n) :: rat) < of_nat (2 ^ a)" using a(2) by (simp only: of_nat_less_iff)
    then show "of_int n < (2::rat) powi int a" using n by (simp add: of_nat_nat)
  qed
  have B: "(2::rat) powi (int b - 1) \<le> of_int d" "of_int d < (2::rat) powi int b"
  proof -
    have "(2::rat) powi (int b - 1) = of_nat (2 ^ (b - 1))"
      using b(3) by (simp add: power_int_def nat_diff_distrib)
    also have "\<dots> \<le> of_nat (nat d)" using b(1) by (simp only: of_nat_le_iff)
    finally show "(2::rat) powi (int b - 1) \<le> of_int d" using d by (simp add: of_nat_nat)
    have "(of_nat (nat d) :: rat) < of_nat (2 ^ b)" using b(2) by (simp only: of_nat_less_iff)
    then show "of_int d < (2::rat) powi int b" using d by (simp add: of_nat_nat)
  qed
  define k where "k = int a - int b"
  have dpos: "(0::rat) < of_int d" using d by simp
  have low: "2 powi (k - 1) < q"
  proof -
    have "(2::rat) powi (k - 1) * of_int d < 2 powi (k - 1) * 2 powi int b"
      using B(2) by (intro mult_strict_left_mono) auto
    also have "\<dots> = (2::rat) powi (int a - 1)"
      by (simp add: k_def del: power_int_of_nat flip: power_int_add)
    also have "\<dots> \<le> of_int n" by (rule A(1))
    finally show ?thesis using dpos by (simp add: q pos_less_divide_eq)
  qed
  have high: "q < 2 powi (k + 1)"
  proof -
    have "of_int n < (2::rat) powi int a" by (rule A(2))
    also have "\<dots> = 2 powi (k + 1) * 2 powi (int b - 1)"
      by (simp add: k_def flip: power_int_add)
    also have "\<dots> \<le> 2 powi (k + 1) * of_int d"
      using B(1) by (intro mult_left_mono) auto
    finally show ?thesis using dpos by (simp add: q pos_divide_less_eq)
  qed
  have "ilog2 q = (if 2 powi k \<le> q then k else k - 1)"
    by (simp add: ilog2_def nd Let_def k_def a_def b_def)
  with low high show ?thesis by auto
qed

lemma powi2_less_iff: "(2::rat) powi i < 2 powi j \<longleftrightarrow> i < j"
proof -
  have *: "(2::rat) powi i < 2 powi j" if "i < j" for i j :: int
    using that by (intro power_int_strict_increasing) auto
  show ?thesis by (metis * linorder_cases less_asym less_irrefl)
qed

lemma powi2_le_iff: "(2::rat) powi i \<le> 2 powi j \<longleftrightarrow> i \<le> j"
  using powi2_less_iff [of j i] by (auto simp: not_less [symmetric])

lemma ilog2_eqI:
  assumes "2 powi k \<le> q" and "q < 2 powi (k + 1)"
  shows "ilog2 q = k"
proof -
  have "0 < q" using assms(1) by (rule less_le_trans [rotated]) simp
  from ilog2_bounds [OF this] have l: "2 powi ilog2 q \<le> q" and h: "q < 2 powi (ilog2 q + 1)"
    by auto
  from l assms(2) have "2 powi ilog2 q < (2::rat) powi (k + 1)" by (rule le_less_trans)
  moreover from assms(1) h have "2 powi k < (2::rat) powi (ilog2 q + 1)" by (rule le_less_trans)
  ultimately show ?thesis by (simp add: powi2_less_iff)
qed

lemma ilog2_mono:
  assumes "0 < p" and "p \<le> q"
  shows "ilog2 p \<le> ilog2 q"
proof -
  have "0 < q" using assms by (rule less_le_trans)
  have "2 powi ilog2 p \<le> p" using ilog2_bounds [OF assms(1)] by simp
  also note assms(2)
  also have "q < 2 powi (ilog2 q + 1)" using ilog2_bounds [OF \<open>0 < q\<close>] by simp
  finally show ?thesis by (simp add: powi2_less_iff)
qed

section \<open>Rounding to an integer\<close>

lemma round_even_of_int [simp]: "round_even (of_int i) = i"
  by (simp add: round_even_def)

lemma round_even_cases: "round_even q = \<lfloor>q\<rfloor> \<or> round_even q = \<lfloor>q\<rfloor> + 1"
  by (simp add: round_even_def Let_def)

lemma round_even_mono:
  assumes "p \<le> q"
  shows "round_even p \<le> round_even q"
proof (cases "\<lfloor>p\<rfloor> = \<lfloor>q\<rfloor>")
  case True
  with assms show ?thesis by (auto simp: round_even_def Let_def)
next
  case False
  with assms have "\<lfloor>p\<rfloor> + 1 \<le> \<lfloor>q\<rfloor>" using floor_mono [of p q] by simp
  then show ?thesis using round_even_cases [of p] round_even_cases [of q] by auto
qed

lemma round_even_le: "q \<le> of_int i \<Longrightarrow> round_even q \<le> i"
  using round_even_mono [of q "of_int i"] by simp

lemma round_even_ge: "of_int i \<le> q \<Longrightarrow> i \<le> round_even q"
  using round_even_mono [of "of_int i" q] by simp

lemma round_even_half:
  assumes "q = of_int i + 1 / 2"
  shows "round_even q = (if even i then i else i + 1)"
proof -
  have "\<lfloor>q\<rfloor> = i" using assms by (simp add: floor_eq_iff)
  then show ?thesis using assms by (simp add: round_even_def)
qed

lemma round_even_minus: "round_even (- q) = - round_even q"
proof (cases "q = of_int \<lfloor>q\<rfloor>")
  case True
  then obtain i where "q = of_int i" by metis
  then have "- q = of_int (- i)" by simp
  then show ?thesis using \<open>q = of_int i\<close> by (simp only: round_even_of_int)
next
  case False
  have less: "of_int \<lfloor>q\<rfloor> < q" using False by (metis less_le of_int_floor_le)
  then have "\<lfloor>- q\<rfloor> = - \<lfloor>q\<rfloor> - 1" by (simp add: floor_eq_iff) linarith
  then show ?thesis using less by (auto simp: round_even_def Let_def)
qed

section \<open>Rounding to a double\<close>

lemma powi2_pos [simp]: "(0::rat) < 2 powi k"
  by simp

lemma powi2_split: "e \<le> k \<Longrightarrow> (2::rat) powi k / 2 powi e = of_int (2 ^ nat (k - e))"
  by (simp add: power_int_nonneg_exp flip: power_int_diff)

lemma rnd_le_grid:
  assumes "q \<noteq> 0" "ulp_exp q \<le> k" "q \<le> of_int m * 2 powi k"
  shows "rnd q \<le> of_int m * 2 powi k"
proof -
  let ?e = "ulp_exp q"
  have m: "of_int m * 2 powi k / 2 powi ?e = (of_int (m * 2 ^ nat (k - ?e)) :: rat)"
    using powi2_split [OF assms(2)] by (simp add: field_simps)
  have "q / 2 powi ?e \<le> of_int m * 2 powi k / 2 powi ?e"
    using assms(3) by (intro divide_right_mono) auto
  then have "round_even (q / 2 powi ?e) \<le> m * 2 ^ nat (k - ?e)"
    unfolding m by (rule round_even_le)
  then have "of_int (round_even (q / 2 powi ?e)) \<le> (of_int (m * 2 ^ nat (k - ?e)) :: rat)"
    by (simp only: of_int_le_iff)
  then have "of_int (round_even (q / 2 powi ?e)) * 2 powi ?e
      \<le> (of_int m * 2 powi k / 2 powi ?e * 2 powi ?e :: rat)"
    unfolding m by (intro mult_right_mono) auto
  with assms(1) show ?thesis by (simp add: rnd_def)
qed

lemma ulp_exp_minus [simp]: "ulp_exp (- q) = ulp_exp q"
  by (simp add: ulp_exp_def)

lemma rnd_minus [simp]: "rnd (- q) = - rnd q"
  using round_even_minus [of "q / 2 powi ulp_exp q"] by (simp add: rnd_def)

lemma rnd_zero [simp]: "rnd 0 = 0"
  by (simp add: rnd_def)

lemma rnd_ge_grid:
  assumes "q \<noteq> 0" "ulp_exp q \<le> k" "of_int m * 2 powi k \<le> q"
  shows "of_int m * 2 powi k \<le> rnd q"
  using rnd_le_grid [of "- q" k "- m"] assms by simp

lemma rnd_exact: "ulp_exp q \<le> k \<Longrightarrow> q = of_int m * 2 powi k \<Longrightarrow> rnd q = q"
  using rnd_le_grid [of q k m] rnd_ge_grid [of q k m] by (cases "q = 0") auto

lemma ulp_exp_le:
  assumes "q \<noteq> 0" "\<bar>q\<bar> < 2 powi j" "- 1074 \<le> k" "j \<le> k + 53"
  shows "ulp_exp q \<le> k"
proof -
  have "2 powi ilog2 \<bar>q\<bar> \<le> \<bar>q\<bar>" using ilog2_bounds [of "\<bar>q\<bar>"] assms(1) by simp
  with assms(2) have "2 powi ilog2 \<bar>q\<bar> < (2::rat) powi j" by (rule le_less_trans [rotated])
  then have "ilog2 \<bar>q\<bar> < j" by (simp add: powi2_less_iff)
  with assms(3,4) show ?thesis by (simp add: ulp_exp_def)
qed

lemma rnd_mono_pos:
  assumes "0 < p" "p \<le> q"
  shows "rnd p \<le> rnd q"
proof (cases "ulp_exp p = ulp_exp q")
  case True
  have "p / 2 powi ulp_exp q \<le> q / 2 powi ulp_exp q"
    using assms by (intro divide_right_mono) auto
  then have "round_even (p / 2 powi ulp_exp q) \<le> round_even (q / 2 powi ulp_exp q)"
    by (rule round_even_mono)
  then show ?thesis using True assms by (auto simp: rnd_def)
next
  case False
  define j where "j = ilog2 q"
  have q: "0 < q" using assms by simp
  have mono: "ilog2 p \<le> j" unfolding j_def by (rule ilog2_mono) (rule assms)+
  with False q assms have e: "ulp_exp q = j - 52" "ulp_exp p < j - 52"
    by (auto simp: ulp_exp_def j_def)
  then have "ilog2 p < j" using assms by (simp add: ulp_exp_def)
  have bounds: "p < 2 powi (ilog2 p + 1)" "2 powi j \<le> q"
    using ilog2_bounds [OF assms(1)] ilog2_bounds [OF q] by (auto simp: j_def)
  have "(2::rat) powi (ilog2 p + 1) \<le> 2 powi j" using \<open>ilog2 p < j\<close> by (simp add: powi2_le_iff)
  with bounds have "p \<le> of_int 1 * 2 powi j" by simp
  then have "rnd p \<le> of_int 1 * 2 powi j" using e assms by (intro rnd_le_grid) auto
  also have "\<dots> = of_int (2 ^ 52) * 2 powi (j - 52)"
    using power_int_add [of "2::rat" 52 "j - 52"] by simp
  also have "\<dots> \<le> rnd q"
  proof (rule rnd_ge_grid)
    show "of_int (2 ^ 52) * 2 powi (j - 52) \<le> q"
      using power_int_add [of "2::rat" 52 "j - 52"] bounds by simp
  qed (use q e in auto)
  finally show ?thesis .
qed

lemma rnd_nonneg: "0 \<le> q \<Longrightarrow> 0 \<le> rnd q"
  using rnd_ge_grid [of q "ulp_exp q" 0] by (cases "q = 0") auto

lemma rnd_mono: "p \<le> q \<Longrightarrow> rnd p \<le> rnd q"
proof -
  assume le: "p \<le> q"
  consider "0 < p" | "q < 0" | "p \<le> 0" "0 \<le> q" by linarith
  then show ?thesis
  proof cases
    case 1
    then show ?thesis using le by (rule rnd_mono_pos)
  next
    case 2
    then show ?thesis using le rnd_mono_pos [of "- q" "- p"] by simp
  next
    case 3
    then show ?thesis using rnd_nonneg [of q] rnd_nonneg [of "- p"] by simp
  qed
qed

lemma rnd_of_int: "\<bar>i\<bar> \<le> 2 ^ 53 \<Longrightarrow> rnd (of_int i) = of_int i"
proof -
  assume le: "\<bar>i\<bar> \<le> 2 ^ 53"
  consider "i = 0" | "i \<noteq> 0" "\<bar>i\<bar> < 2 ^ 53" | "\<bar>i\<bar> = 2 ^ 53" using le by linarith
  then show ?thesis
  proof cases
    case 1
    then show ?thesis by simp
  next
    case 2
    have "\<bar>of_int i\<bar> < (of_int (2 ^ 53) :: rat)" using 2 by (simp only: of_int_abs [symmetric] of_int_less_iff)
    then have "\<bar>of_int i\<bar> < (2::rat) powi 53" by simp
    then have "ulp_exp (of_int i) \<le> 0" using 2 by (intro ulp_exp_le [of _ 53]) auto
    then show ?thesis by (rule rnd_exact [of _ _ i]) simp
  next
    case 3
    have u: "ulp_exp (2 ^ 53 :: rat) \<le> 1" by (rule ulp_exp_le [of _ 54]) auto
    then have "rnd (2 ^ 53) = 2 ^ 53" by (rule rnd_exact [of _ _ "2 ^ 52"]) simp
    moreover from 3 have "i = 2 ^ 53 \<or> i = - (2 ^ 53)" by linarith
    ultimately show ?thesis by auto
  qed
qed

section \<open>Doubles and their operations\<close>

datatype f64 = Fin rat | PosInf | NegInf | NaN

text \<open>The least power of two that is too large for a double.\<close>

definition f64_limit :: rat where
  "f64_limit = 2 ^ 1024"

definition round_f64 :: "rat \<Rightarrow> f64" where
  "round_f64 q =
     (let r = rnd q
      in if f64_limit \<le> r then PosInf else if r \<le> - f64_limit then NegInf else Fin r)"

fun neg_f64 :: "f64 \<Rightarrow> f64" where
  "neg_f64 (Fin a) = Fin (- a)"
| "neg_f64 PosInf = NegInf"
| "neg_f64 NegInf = PosInf"
| "neg_f64 NaN = NaN"

fun add_f64 :: "f64 \<Rightarrow> f64 \<Rightarrow> f64" where
  "add_f64 (Fin a) (Fin b) = round_f64 (a + b)"
| "add_f64 NaN _ = NaN"
| "add_f64 _ NaN = NaN"
| "add_f64 PosInf NegInf = NaN"
| "add_f64 NegInf PosInf = NaN"
| "add_f64 PosInf _ = PosInf"
| "add_f64 _ PosInf = PosInf"
| "add_f64 NegInf _ = NegInf"
| "add_f64 _ NegInf = NegInf"

definition sub_f64 :: "f64 \<Rightarrow> f64 \<Rightarrow> f64" where
  "sub_f64 a b = add_f64 a (neg_f64 b)"

fun mul_f64 :: "f64 \<Rightarrow> f64 \<Rightarrow> f64" where
  "mul_f64 (Fin a) (Fin b) = round_f64 (a * b)"
| "mul_f64 NaN _ = NaN"
| "mul_f64 _ NaN = NaN"
| "mul_f64 (Fin a) PosInf = (if 0 < a then PosInf else if a < 0 then NegInf else NaN)"
| "mul_f64 (Fin a) NegInf = (if 0 < a then NegInf else if a < 0 then PosInf else NaN)"
| "mul_f64 PosInf (Fin b) = (if 0 < b then PosInf else if b < 0 then NegInf else NaN)"
| "mul_f64 NegInf (Fin b) = (if 0 < b then NegInf else if b < 0 then PosInf else NaN)"
| "mul_f64 PosInf PosInf = PosInf"
| "mul_f64 PosInf NegInf = NegInf"
| "mul_f64 NegInf PosInf = NegInf"
| "mul_f64 NegInf NegInf = PosInf"

text \<open>Division by a non-zero constant, the only division in the code modelled here.\<close>

fun div_f64_const :: "f64 \<Rightarrow> rat \<Rightarrow> f64" where
  "div_f64_const (Fin a) c = round_f64 (a / c)"
| "div_f64_const PosInf c = (if 0 < c then PosInf else NegInf)"
| "div_f64_const NegInf c = (if 0 < c then NegInf else PosInf)"
| "div_f64_const NaN c = NaN"

text \<open>\<open>PartialOrd\<close>: NaN is not comparable.\<close>

fun partial_cmp_f64 :: "f64 \<Rightarrow> f64 \<Rightarrow> ordering option" where
  "partial_cmp_f64 NaN _ = None"
| "partial_cmp_f64 _ NaN = None"
| "partial_cmp_f64 (Fin a) (Fin b) = Some (cmp_ord a b)"
| "partial_cmp_f64 PosInf PosInf = Some Equal"
| "partial_cmp_f64 NegInf NegInf = Some Equal"
| "partial_cmp_f64 PosInf _ = Some Greater"
| "partial_cmp_f64 _ PosInf = Some Less"
| "partial_cmp_f64 NegInf _ = Some Less"
| "partial_cmp_f64 _ NegInf = Some Greater"

definition ge_f64 :: "f64 \<Rightarrow> f64 \<Rightarrow> bool" where
  "ge_f64 a b \<longleftrightarrow> partial_cmp_f64 a b \<in> {Some Equal, Some Greater}"

text \<open>\<open>f64::min\<close> and \<open>f64::max\<close> return the other argument when one is NaN.\<close>

definition min_f64 :: "f64 \<Rightarrow> f64 \<Rightarrow> f64" where
  "min_f64 a b =
     (if a = NaN then b else if b = NaN then a
      else if partial_cmp_f64 a b = Some Greater then b else a)"

definition max_f64 :: "f64 \<Rightarrow> f64 \<Rightarrow> f64" where
  "max_f64 a b =
     (if a = NaN then b else if b = NaN then a
      else if partial_cmp_f64 a b = Some Less then b else a)"

definition f64_of_u64 :: "u64 \<Rightarrow> f64" where
  "f64_of_u64 n = round_f64 (of_nat (unat n))"

definition f64_of_int :: "int \<Rightarrow> f64" where
  "f64_of_int i = round_f64 (of_int i)"

text \<open>\<open>f as u64\<close> and \<open>f as i64\<close> truncate and saturate; NaN gives 0.\<close>

fun trunc_rat :: "rat \<Rightarrow> int" where
  "trunc_rat q = (if 0 \<le> q then \<lfloor>q\<rfloor> else \<lceil>q\<rceil>)"

fun f64_to_u64 :: "f64 \<Rightarrow> u64" where
  "f64_to_u64 (Fin q) = of_nat (min u64_max (nat (trunc_rat q)))"
| "f64_to_u64 PosInf = of_nat u64_max"
| "f64_to_u64 NegInf = 0"
| "f64_to_u64 NaN = 0"

fun f64_to_i64 :: "f64 \<Rightarrow> i64" where
  "f64_to_i64 (Fin q) = of_int (max (- (2 ^ 63)) (min (2 ^ 63 - 1) (trunc_rat q)))"
| "f64_to_i64 PosInf = of_int (2 ^ 63 - 1)"
| "f64_to_i64 NegInf = of_int (- (2 ^ 63))"
| "f64_to_i64 NaN = 0"

text \<open>\<open>f64::round\<close>: half away from zero.\<close>

fun round_half_away :: "f64 \<Rightarrow> f64" where
  "round_half_away (Fin q) =
     round_f64 (if 0 \<le> q then of_int \<lfloor>q + 1 / 2\<rfloor> else of_int \<lceil>q - 1 / 2\<rceil>)"
| "round_half_away f = f"

section \<open>Facts about the operations\<close>

lemma rnd_of_nat: "n \<le> 2 ^ 53 \<Longrightarrow> rnd (of_nat n) = of_nat n"
proof -
  assume "n \<le> 2 ^ 53"
  then have "\<bar>int n\<bar> \<le> 2 ^ 53" by (simp flip: of_nat_le_iff)
  from rnd_of_int [OF this] show ?thesis by simp
qed

lemma pow2_less_limit: "n < 1024 \<Longrightarrow> (2::rat) ^ n < f64_limit"
  unfolding f64_limit_def by (rule power_strict_increasing) auto

lemma limit_pos: "0 < f64_limit"
  unfolding f64_limit_def by (rule zero_less_power) simp

lemma round_f64_Fin: "\<bar>rnd q\<bar> < f64_limit \<Longrightarrow> round_f64 q = Fin (rnd q)"
  by (auto simp: round_f64_def Let_def)

lemma round_f64_exact: "rnd q = q \<Longrightarrow> \<bar>q\<bar> < f64_limit \<Longrightarrow> round_f64 q = Fin q"
  using round_f64_Fin [of q] by simp

lemma round_f64_of_int: "\<bar>i\<bar> \<le> 2 ^ 53 \<Longrightarrow> round_f64 (of_int i) = Fin (of_int i)"
proof (rule round_f64_exact)
  assume le: "\<bar>i\<bar> \<le> 2 ^ 53"
  then show "rnd (of_int i) = of_int i" by (rule rnd_of_int)
  have "(of_int \<bar>i\<bar> :: rat) \<le> of_int (2 ^ 53)" using le by (simp only: of_int_le_iff)
  then have "\<bar>of_int i\<bar> \<le> (2 ^ 53 :: rat)" by simp
  also have "\<dots> < f64_limit" by (rule pow2_less_limit) simp
  finally show "\<bar>of_int i\<bar> < f64_limit" .
qed

lemma f64_of_u64_exact: "unat n \<le> 2 ^ 53 \<Longrightarrow> f64_of_u64 n = Fin (of_nat (unat n))"
proof -
  assume "unat n \<le> 2 ^ 53"
  then have "int (unat n) \<le> int (2 ^ 53)" by (simp only: of_nat_le_iff)
  then have "\<bar>int (unat n)\<bar> \<le> 2 ^ 53" by simp
  from round_f64_of_int [OF this] show ?thesis by (simp add: f64_of_u64_def)
qed

text \<open>A \<open>u64\<close> never overflows a double: it rounds to at most \<open>2 ^ 64\<close>.\<close>

lemma rnd_pow2: "n \<le> 1023 \<Longrightarrow> rnd (2 ^ n) = 2 ^ n"
proof -
  have "ilog2 (2 ^ n :: rat) = int n"
    by (rule ilog2_eqI) (simp_all add: power_int_def nat_add_distrib)
  then have u: "ulp_exp (2 ^ n :: rat) \<le> int n" by (simp add: ulp_exp_def)
  show ?thesis by (rule rnd_exact [OF u, of 1]) simp
qed

lemma unat_u64_le: "unat (n :: u64) \<le> 2 ^ 64"
  using unsigned_less [of n, where ?'a = nat] by simp

lemma rnd_u64_bounds:
  "0 \<le> rnd (of_nat (unat (n :: u64)))" "rnd (of_nat (unat (n :: u64))) \<le> 2 ^ 64"
proof -
  show "0 \<le> rnd (of_nat (unat n))" by (rule rnd_nonneg) (rule of_nat_0_le_iff)
  have "(of_nat (unat n) :: rat) \<le> of_nat (2 ^ 64)"
    using unat_u64_le by (simp only: of_nat_le_iff)
  then have "rnd (of_nat (unat n)) \<le> rnd (2 ^ 64)" by (intro rnd_mono) simp
  also have "\<dots> = 2 ^ 64" by (rule rnd_pow2) simp
  finally show "rnd (of_nat (unat n)) \<le> 2 ^ 64" .
qed

lemma f64_of_u64_Fin: "f64_of_u64 n = Fin (rnd (of_nat (unat n)))"
proof -
  have "\<bar>rnd (of_nat (unat n))\<bar> \<le> 2 ^ 64" using rnd_u64_bounds [of n] by simp
  also have "\<dots> < f64_limit" by (rule pow2_less_limit) simp
  finally show ?thesis unfolding f64_of_u64_def by (rule round_f64_Fin)
qed

lemma f64_of_int_Fin:
  assumes "\<bar>i\<bar> \<le> 2 ^ 63"
  shows "f64_of_int i = Fin (rnd (of_int i))"
proof -
  have le: "rnd (of_int j) \<le> 2 ^ 63" if "j \<le> 2 ^ 63" for j :: int
  proof -
    have "(of_int j :: rat) \<le> of_int (2 ^ 63)" using that by (simp only: of_int_le_iff)
    then have "rnd (of_int j) \<le> rnd (2 ^ 63)" by (intro rnd_mono) simp
    also have "\<dots> = 2 ^ 63" by (rule rnd_pow2) simp
    finally show ?thesis .
  qed
  have "rnd (of_int i) \<le> 2 ^ 63" using assms by (intro le) simp
  moreover have "rnd (of_int (- i)) \<le> 2 ^ 63" using assms by (intro le) simp
  ultimately have "\<bar>rnd (of_int i)\<bar> \<le> 2 ^ 63" by simp
  also have "\<dots> < f64_limit" by (rule pow2_less_limit) simp
  finally show ?thesis unfolding f64_of_int_def by (rule round_f64_Fin)
qed

text \<open>How far rounding moves a value.\<close>

lemma round_even_error: "\<bar>of_int (round_even q) - q\<bar> \<le> 1 / 2"
proof -
  let ?f = "\<lfloor>q\<rfloor>"
  have "of_int ?f \<le> q" "q < of_int ?f + 1" by linarith+
  then show ?thesis by (auto simp: round_even_def Let_def abs_le_iff)
qed

lemma rnd_error:
  assumes "\<bar>q\<bar> < 2 powi j" "- 1074 \<le> k" "j \<le> k + 53"
  shows "\<bar>rnd q - q\<bar> \<le> 2 powi k / 2"
proof (cases "q = 0")
  case False
  let ?e = "ulp_exp q"
  have e: "?e \<le> k" using ulp_exp_le [OF False] assms by blast
  have pos: "(0::rat) < 2 powi ?e" by simp
  have "rnd q - q = (of_int (round_even (q / 2 powi ?e)) - q / 2 powi ?e) * 2 powi ?e"
    using False pos by (simp add: rnd_def left_diff_distrib)
  then have "\<bar>rnd q - q\<bar> = \<bar>of_int (round_even (q / 2 powi ?e)) - q / 2 powi ?e\<bar> * 2 powi ?e"
    using pos by (simp add: abs_mult)
  also have "\<dots> \<le> 1 / 2 * 2 powi ?e"
    using round_even_error pos by (intro mult_right_mono) auto
  also have "(2::rat) powi ?e \<le> 2 powi k" using e by (intro power_int_increasing) auto
  finally show ?thesis by simp
qed simp

lemma f64_to_i64_of_int:
  assumes "\<bar>i\<bar> \<le> 2 ^ 53"
  shows "f64_to_i64 (Fin (of_int i)) = of_int i"
proof -
  have "max (- (2 ^ 63)) (min (2 ^ 63 - 1) i) = i" using assms by (auto simp: max_def min_def)
  then show ?thesis by (simp only: f64_to_i64.simps trunc_rat.simps floor_of_int ceiling_of_int if_cancel)
qed

section \<open>Display\<close>

text \<open>
  \<open>format!("{}")\<close> prints the shortest decimal that reads back as the same double, without an
  exponent. A finite double needs at most 17 digits, and its first digit is at most 324 places
  behind the point.
\<close>

fun leading_zeros :: "nat \<Rightarrow> rat \<Rightarrow> nat" where
  "leading_zeros 0 q = 0"
| "leading_zeros (Suc n) q = (if 1 \<le> q then 0 else Suc (leading_zeros n (q * 10)))"

definition decimal_exponent :: "rat \<Rightarrow> int" where
  "decimal_exponent q =
     (if 1 \<le> q then int (length (show_nat (nat \<lfloor>q\<rfloor>))) - 1 else - int (leading_zeros 330 q))"

fun shortest_digits :: "nat \<Rightarrow> int \<Rightarrow> rat \<Rightarrow> int \<times> int" where
  "shortest_digits 0 p q = (round_even (q / 10 powi p), p)"
| "shortest_digits (Suc n) p q =
     (let d = round_even (q / 10 powi p)
      in if rnd (of_int d * 10 powi p) = q then (d, p) else shortest_digits n (p - 1) q)"

definition place_point :: "int \<Rightarrow> int \<Rightarrow> string" where
  "place_point d p =
     (let s = show_nat (nat d) in
      if 0 \<le> p then s @ replicate (nat p) (CHR ''0'')
      else let k = nat (- p) in
        if k < length s then take (length s - k) s @ ''.'' @ drop (length s - k) s
        else ''0.'' @ replicate (k - length s) (CHR ''0'') @ s)"

fun show_f64 :: "f64 \<Rightarrow> string" where
  "show_f64 (Fin q) =
     (if q = 0 then ''0''
      else (if q < 0 then ''-'' else '''') @
        (case shortest_digits 17 (decimal_exponent \<bar>q\<bar>) \<bar>q\<bar> of (d, p) \<Rightarrow> place_point d p))"
| "show_f64 PosInf = ''inf''"
| "show_f64 NegInf = ''-inf''"
| "show_f64 NaN = ''NaN''"

section \<open>Rounding twice\<close>

lemma rnd_idem_pos:
  assumes "0 < q"
  shows "rnd (rnd q) = rnd q"
proof -
  let ?e = "ulp_exp q"
  define m where "m = round_even (q / 2 powi ?e)"
  have q': "rnd q = of_int m * 2 powi ?e" using assms by (simp add: rnd_def m_def)
  have lower: "- 1074 \<le> ?e" by (simp add: ulp_exp_def)
  have "q < 2 powi (ilog2 q + 1)" using ilog2_bounds [OF assms] by simp
  also have "\<dots> \<le> 2 powi (?e + 53)"
    using assms by (intro power_int_increasing) (auto simp: ulp_exp_def)
  finally have "q / 2 powi ?e < 2 ^ 53" by (simp add: divide_less_eq power_int_add)
  then have "m \<le> 2 ^ 53" unfolding m_def by (intro round_even_le) simp
  moreover have "0 \<le> m" unfolding m_def using assms by (intro round_even_ge) simp
  ultimately consider "m = 0" | "m = 2 ^ 53" | "0 < m" "m < 2 ^ 53" by linarith
  then show ?thesis
  proof cases
    case 1
    then show ?thesis by (simp add: q')
  next
    case 2
    then have one: "rnd q = of_int 1 * 2 powi (?e + 53)" by (simp add: q' power_int_add)
    have "ulp_exp (rnd q) \<le> ?e + 1"
      using lower by (intro ulp_exp_le [where j = "?e + 54"]) (auto simp: one power_int_add)
    then have "ulp_exp (rnd q) \<le> ?e + 53" by simp
    then show ?thesis using one by (rule rnd_exact)
  next
    case 3
    have "(of_int m :: rat) < of_int (2 ^ 53)" using 3(2) by (simp only: of_int_less_iff)
    then have "\<bar>rnd q\<bar> < 2 powi (?e + 53)"
      using 3(1) by (simp add: q' abs_mult power_int_add)
    then have "ulp_exp (rnd q) \<le> ?e"
      using lower 3(1) by (intro ulp_exp_le [where j = "?e + 53"]) (auto simp: q')
    then show ?thesis using q' by (rule rnd_exact)
  qed
qed

lemma rnd_idem [simp]: "rnd (rnd q) = rnd q"
proof -
  consider "0 < q" | "q = 0" | "0 < - q" by linarith
  then show ?thesis
    using rnd_idem_pos [of q] rnd_idem_pos [of "- q"] by cases simp_all
qed

section \<open>Values that are not negative\<close>

fun nonneg_f64 :: "f64 \<Rightarrow> bool" where
  "nonneg_f64 (Fin q) = (0 \<le> q)"
| "nonneg_f64 NegInf = False"
| "nonneg_f64 _ = True"

lemma nonneg_round: "0 \<le> q \<Longrightarrow> nonneg_f64 (round_f64 q)"
  using rnd_nonneg [of q] limit_pos by (auto simp: round_f64_def Let_def)

lemma nonneg_add: "nonneg_f64 a \<Longrightarrow> nonneg_f64 b \<Longrightarrow> nonneg_f64 (add_f64 a b)"
  by (cases a; cases b) (auto intro: nonneg_round)

lemma nonneg_mul: "nonneg_f64 a \<Longrightarrow> nonneg_f64 b \<Longrightarrow> nonneg_f64 (mul_f64 a b)"
  by (cases a; cases b) (auto intro: nonneg_round)

lemma nonneg_div: "nonneg_f64 a \<Longrightarrow> 0 < c \<Longrightarrow> nonneg_f64 (div_f64_const a c)"
  by (cases a) (auto intro: nonneg_round)

lemma min_f64_nonneg:
  assumes "nonneg_f64 a" "0 \<le> c"
  shows "\<exists>q. min_f64 a (Fin c) = Fin q \<and> 0 \<le> q \<and> q \<le> c"
  using assms by (cases a) (auto simp: min_f64_def)

end
