(* ===== verification/Json.thy ===== *)
theory Json
  imports Prelude Float64
begin

text \<open>
  The part of \<open>serde_json\<close>'s data model the gateways compute with: \<open>Value\<close>, \<open>Number\<close> and
  \<open>Map\<close>. The crate is built without \<open>preserve_order\<close>, so a \<open>Map\<close> is a \<open>BTreeMap\<close>: its
  entries are kept in key order. Serialisation (\<open>to_string\<close>, \<open>to_vec\<close>) belongs to the
  library and is a parameter wherever the code uses it.
\<close>

text \<open>
  A number is an unsigned integer, a negative integer or a finite double; the derived equality
  compares the constructor first, so \<open>1\<close> and \<open>1.0\<close> differ.
\<close>

datatype jnumber = PosInt u64 | NegInt i64 | Float rat

datatype json =
    JNull
  | JBool bool
  | JNumber jnumber
  | JString string
  | JArray "json list"
  | JObject "(string \<times> json) list"

type_synonym jmap = "(string \<times> json) list"

fun number_as_f64 :: "jnumber \<Rightarrow> f64" where
  "number_as_f64 (PosInt n) = f64_of_u64 n"
| "number_as_f64 (NegInt i) = f64_of_int (sint i)"
| "number_as_f64 (Float q) = Fin q"

fun as_f64 :: "json \<Rightarrow> f64 option" where
  "as_f64 (JNumber n) = Some (number_as_f64 n)"
| "as_f64 _ = None"

fun as_str :: "json \<Rightarrow> string option" where
  "as_str (JString s) = Some s"
| "as_str _ = None"

fun as_array :: "json \<Rightarrow> json list option" where
  "as_array (JArray xs) = Some xs"
| "as_array _ = None"

fun is_null :: "json \<Rightarrow> bool" where
  "is_null JNull = True"
| "is_null _ = False"

fun is_number :: "json \<Rightarrow> bool" where
  "is_number (JNumber _) = True"
| "is_number _ = False"

text \<open>Every JSON number is a finite double once converted.\<close>

lemma number_as_f64_Fin: "\<exists>q. number_as_f64 n = Fin q"
proof (cases n)
  case (PosInt m)
  then show ?thesis by (simp add: f64_of_u64_Fin)
next
  case (NegInt i)
  have "- (2 ^ 63) \<le> sint i" "sint i < 2 ^ 63"
    using sint_greater_eq [of i] sint_less [of i] by simp_all
  then have "\<bar>sint i\<bar> \<le> 2 ^ 63" by linarith
  with NegInt show ?thesis by (simp add: f64_of_int_Fin)
qed simp

lemma as_f64_number: "is_number v \<longleftrightarrow> (\<exists>q. as_f64 v = Some (Fin q))"
proof (cases v)
  case (JNumber n)
  then show ?thesis using number_as_f64_Fin [of n] by auto
qed auto

section \<open>Maps\<close>

definition jmap_get :: "jmap \<Rightarrow> string \<Rightarrow> json option" where
  "jmap_get m k = map_of m k"

fun jmap_insert :: "jmap \<Rightarrow> string \<Rightarrow> json \<Rightarrow> jmap" where
  "jmap_insert [] k v = [(k, v)]"
| "jmap_insert ((k', v') # m) k v =
     (if k < k' then (k, v) # (k', v') # m
      else if k = k' then (k, v) # m
      else (k', v') # jmap_insert m k v)"

lemma jmap_get_Nil [simp]: "jmap_get [] k = None"
  by (simp add: jmap_get_def)

lemma jmap_get_Cons [simp]:
  "jmap_get ((k, v) # m) k' = (if k' = k then Some v else jmap_get m k')"
  by (simp add: jmap_get_def)

lemma jmap_get_insert [simp]:
  "jmap_get (jmap_insert m k v) k' = (if k' = k then Some v else jmap_get m k')"
  by (induction m k v rule: jmap_insert.induct) auto

lemma set_keys_insert: "set (map fst (jmap_insert m k v)) = insert k (set (map fst m))"
  by (induction m k v rule: jmap_insert.induct) (simp_all add: insert_commute)

lemma sorted_keys_insert:
  "sorted_wrt (<) (map fst m) \<Longrightarrow> sorted_wrt (<) (map fst (jmap_insert m k v))"
proof (induction m)
  case (Cons e m)
  obtain k' v' where e: "e = (k', v')" by force
  have gt: "\<forall>x \<in> set (map fst m). k' < x" using Cons.prems by (simp add: e)
  consider "k < k'" | "k = k'" | "k' < k" by fastforce
  then show ?case
  proof cases
    case 1
    then show ?thesis using Cons.prems gt by (auto simp: e intro: less_trans)
  next
    case 2
    then show ?thesis using Cons.prems by (simp add: e)
  next
    case 3
    have "\<forall>x \<in> set (map fst (jmap_insert m k v)). k' < x"
      using 3 gt by (simp only: set_keys_insert) auto
    with 3 Cons show ?thesis by (auto simp: e)
  qed
qed simp

text \<open>Inserting every entry of one map into another, as the \<open>for\<close> loops over maps do.\<close>

fun jmap_extend :: "jmap \<Rightarrow> jmap \<Rightarrow> jmap" where
  "jmap_extend m [] = m"
| "jmap_extend m ((k, v) # u) = jmap_extend (jmap_insert m k v) u"

interpretation json_map: keyed_store jmap_get "\<lambda>k v m. jmap_insert m k v"
  by unfold_locales simp

lemma jmap_extend_put_all: "jmap_extend m u = json_map.put_all u m"
  by (induction m u rule: jmap_extend.induct) simp_all

lemma jmap_get_extend_notin:
  "k \<notin> set (map fst u) \<Longrightarrow> jmap_get (jmap_extend m u) k = jmap_get m k"
  by (simp add: jmap_extend_put_all json_map.lookup_put_all_frame)

lemma jmap_get_extend:
  "distinct (map fst u) \<Longrightarrow>
   jmap_get (jmap_extend m u) k =
     (case jmap_get u k of Some v \<Rightarrow> Some v | None \<Rightarrow> jmap_get m k)"
  using json_map.lookup_put_all [of u m k] by (simp add: jmap_extend_put_all jmap_get_def)

lemma sorted_keys_extend:
  "sorted_wrt (<) (map fst m) \<Longrightarrow> sorted_wrt (<) (map fst (jmap_extend m u))"
  by (induction m u rule: jmap_extend.induct) (simp_all add: sorted_keys_insert)

lemma jmap_get_None_iff: "jmap_get m k = None \<longleftrightarrow> k \<notin> set (map fst m)"
  by (simp add: jmap_get_def map_of_eq_None_iff)

end
