(* ===== verification/GatewayTypes.thy ===== *)
theory GatewayTypes
  imports Json
begin

text \<open>
  \<open>api/types.rs\<close>: error codes and errors with their constructors and classification, health
  checks, pagination. The lemmas show that the constructors and \<open>code\<close> agree, that adding
  details keeps an error's class, and when \<open>has_more\<close> is right.
\<close>

section \<open>Errors\<close>

datatype gateway_error_code =
    Internal
  | InvalidInput
  | NotFound
  | AlreadyExists
  | PermissionDenied
  | Timeout
  | Unavailable
  | Configuration

text \<open>\<open>std::io::Error\<close>: its kind, and the text it displays as.\<close>

datatype io_kind = IoNotFound | IoPermissionDenied | IoAlreadyExists | IoOther

record io_error =
  io_kind :: io_kind
  io_text :: string

datatype gateway_error =
    ConnectionFailed string
  | AuthenticationFailed string
  | NotFound string
  | Conflict string
  | ValidationError string
  | RateLimitExceeded string
  | Timeout string
  | NotSupported string
  | IoError io_error
  | SerializationError string
  | BackendError string
  | InternalError string
  | AlreadyExists string
  | PermissionDenied string
  | Unavailable string
  | Configuration string

type_synonym 'a gateway_result = "('a, gateway_error) result"

text \<open>The derived \<open>Display\<close> of an error.\<close>

fun gateway_error_display :: "gateway_error \<Rightarrow> string" where
  "gateway_error_display (ConnectionFailed m) = ''connection failed: '' @ m"
| "gateway_error_display (AuthenticationFailed m) = ''authentication failed: '' @ m"
| "gateway_error_display (NotFound m) = ''not found: '' @ m"
| "gateway_error_display (Conflict m) = ''conflict: '' @ m"
| "gateway_error_display (ValidationError m) = ''validation error: '' @ m"
| "gateway_error_display (RateLimitExceeded m) = ''rate limit exceeded: '' @ m"
| "gateway_error_display (Timeout m) = ''timeout: '' @ m"
| "gateway_error_display (NotSupported m) = ''not supported: '' @ m"
| "gateway_error_display (IoError e) = ''io error: '' @ io_text e"
| "gateway_error_display (SerializationError m) = ''serialization error: '' @ m"
| "gateway_error_display (BackendError m) = ''backend error: '' @ m"
| "gateway_error_display (InternalError m) = ''internal error: '' @ m"
| "gateway_error_display (AlreadyExists m) = ''already exists: '' @ m"
| "gateway_error_display (PermissionDenied m) = ''permission denied: '' @ m"
| "gateway_error_display (Unavailable m) = ''unavailable: '' @ m"
| "gateway_error_display (Configuration m) = ''configuration error: '' @ m"

fun gateway_error_new :: "gateway_error_code \<Rightarrow> string \<Rightarrow> gateway_error" where
  "gateway_error_new gateway_error_code.Internal msg = InternalError msg"
| "gateway_error_new gateway_error_code.InvalidInput msg = ValidationError msg"
| "gateway_error_new gateway_error_code.NotFound msg = NotFound msg"
| "gateway_error_new gateway_error_code.AlreadyExists msg = AlreadyExists msg"
| "gateway_error_new gateway_error_code.PermissionDenied msg = PermissionDenied msg"
| "gateway_error_new gateway_error_code.Timeout msg = Timeout msg"
| "gateway_error_new gateway_error_code.Unavailable msg = Unavailable msg"
| "gateway_error_new gateway_error_code.Configuration msg = Configuration msg"

definition internal :: "string \<Rightarrow> gateway_error" where
  "internal message = gateway_error_new gateway_error_code.Internal message"

definition not_found :: "string \<Rightarrow> gateway_error" where
  "not_found message = gateway_error_new gateway_error_code.NotFound message"

definition invalid_input :: "string \<Rightarrow> gateway_error" where
  "invalid_input message = gateway_error_new gateway_error_code.InvalidInput message"

definition unavailable :: "string \<Rightarrow> gateway_error" where
  "unavailable message = gateway_error_new gateway_error_code.Unavailable message"

definition already_exists :: "string \<Rightarrow> gateway_error" where
  "already_exists message = gateway_error_new gateway_error_code.AlreadyExists message"

definition permission_denied :: "string \<Rightarrow> gateway_error" where
  "permission_denied message = gateway_error_new gateway_error_code.PermissionDenied message"

definition timeout :: "string \<Rightarrow> gateway_error" where
  "timeout message = gateway_error_new gateway_error_code.Timeout message"

definition configuration :: "string \<Rightarrow> gateway_error" where
  "configuration message = gateway_error_new gateway_error_code.Configuration message"

definition bracketed :: "string \<Rightarrow> string \<Rightarrow> string" where
  "bracketed m details = m @ '' ['' @ details @ '']''"

fun with_details :: "gateway_error \<Rightarrow> string \<Rightarrow> gateway_error" where
  "with_details (ConnectionFailed m) details = ConnectionFailed (bracketed m details)"
| "with_details (AuthenticationFailed m) details = AuthenticationFailed (bracketed m details)"
| "with_details (NotFound m) details = NotFound (bracketed m details)"
| "with_details (Conflict m) details = Conflict (bracketed m details)"
| "with_details (ValidationError m) details = ValidationError (bracketed m details)"
| "with_details (RateLimitExceeded m) details = RateLimitExceeded (bracketed m details)"
| "with_details (Timeout m) details = Timeout (bracketed m details)"
| "with_details (NotSupported m) details = NotSupported (bracketed m details)"
| "with_details (IoError e) details =
     InternalError (bracketed (''io error: '' @ io_text e) details)"
| "with_details (SerializationError m) details = SerializationError (bracketed m details)"
| "with_details (BackendError m) details = BackendError (bracketed m details)"
| "with_details (InternalError m) details = InternalError (bracketed m details)"
| "with_details (AlreadyExists m) details = AlreadyExists (bracketed m details)"
| "with_details (PermissionDenied m) details = PermissionDenied (bracketed m details)"
| "with_details (Unavailable m) details = Unavailable (bracketed m details)"
| "with_details (Configuration m) details = Configuration (bracketed m details)"

fun code :: "gateway_error \<Rightarrow> gateway_error_code" where
  "code (InternalError _) = gateway_error_code.Internal"
| "code (BackendError _) = gateway_error_code.Internal"
| "code (IoError _) = gateway_error_code.Internal"
| "code (ValidationError _) = gateway_error_code.InvalidInput"
| "code (SerializationError _) = gateway_error_code.InvalidInput"
| "code (NotFound _) = gateway_error_code.NotFound"
| "code (AlreadyExists _) = gateway_error_code.AlreadyExists"
| "code (Conflict _) = gateway_error_code.AlreadyExists"
| "code (PermissionDenied _) = gateway_error_code.PermissionDenied"
| "code (AuthenticationFailed _) = gateway_error_code.PermissionDenied"
| "code (Timeout _) = gateway_error_code.Timeout"
| "code (Unavailable _) = gateway_error_code.Unavailable"
| "code (ConnectionFailed _) = gateway_error_code.Unavailable"
| "code (RateLimitExceeded _) = gateway_error_code.Unavailable"
| "code (Configuration _) = gateway_error_code.Configuration"
| "code (NotSupported _) = gateway_error_code.Configuration"

fun is_retryable :: "gateway_error \<Rightarrow> bool" where
  "is_retryable (ConnectionFailed _) = True"
| "is_retryable (RateLimitExceeded _) = True"
| "is_retryable (Timeout _) = True"
| "is_retryable (Unavailable _) = True"
| "is_retryable _ = False"

fun is_not_found :: "gateway_error \<Rightarrow> bool" where
  "is_not_found (NotFound _) = True"
| "is_not_found _ = False"

text \<open>
  \<open>ResultGatewayExt\<close>: \<open>gateway_err\<close> wraps a foreign error, given by its display text, and
  \<open>log_error\<close> hands the result on after writing one log record for an error.
\<close>

definition gateway_err :: "('a, string) result \<Rightarrow> string \<Rightarrow> 'a gateway_result" where
  "gateway_err r context = map_err (\<lambda>e. with_details (internal context) e) r"

definition log_error ::
  "('a, string) result \<Rightarrow> string \<Rightarrow> ('a, string) result \<times> (string \<times> string) list" where
  "log_error r operation = (r, case r of Ok _ \<Rightarrow> [] | Err e \<Rightarrow> [(operation, e)])"

text \<open>Modes for simulating payment failures.\<close>

datatype mock_failure_mode =
    FailAllPayments string
  | FailOverAmount i64
  | FailPaymentIds "string list"

section \<open>Health checks\<close>

datatype health_status = Healthy | Degraded | Unhealthy | Unknown

definition health_status_default :: health_status where
  "health_status_default = Unknown"

text \<open>A point in time, as \<open>chrono\<close>'s UTC nanoseconds since the epoch.\<close>

type_synonym timestamp = int

record health_check =
  hc_status :: health_status
  hc_message :: "string option"
  hc_latency_ms :: "u64 option"
  hc_metadata :: "string \<rightharpoonup> json"
  hc_checked_at :: timestamp

definition healthy :: "timestamp \<Rightarrow> health_check" where
  "healthy now =
     \<lparr>hc_status = Healthy, hc_message = None, hc_latency_ms = None,
      hc_metadata = Map.empty, hc_checked_at = now\<rparr>"

definition healthy_with_latency :: "timestamp \<Rightarrow> u64 \<Rightarrow> health_check" where
  "healthy_with_latency now latency_ms =
     \<lparr>hc_status = Healthy, hc_message = None, hc_latency_ms = Some latency_ms,
      hc_metadata = Map.empty, hc_checked_at = now\<rparr>"

definition unhealthy :: "timestamp \<Rightarrow> string \<Rightarrow> health_check" where
  "unhealthy now message =
     \<lparr>hc_status = Unhealthy, hc_message = Some message, hc_latency_ms = None,
      hc_metadata = Map.empty, hc_checked_at = now\<rparr>"

definition degraded :: "timestamp \<Rightarrow> string \<Rightarrow> health_check" where
  "degraded now message =
     \<lparr>hc_status = Degraded, hc_message = Some message, hc_latency_ms = None,
      hc_metadata = Map.empty, hc_checked_at = now\<rparr>"

definition health_check_with_metadata :: "health_check \<Rightarrow> string \<Rightarrow> json \<Rightarrow> health_check" where
  "health_check_with_metadata h key v = h\<lparr>hc_metadata := (hc_metadata h)(key \<mapsto> v)\<rparr>"

section \<open>Pagination\<close>

record pagination =
  pg_offset :: usize
  pg_limit :: usize

definition pagination_new :: "usize \<Rightarrow> usize \<Rightarrow> pagination" where
  "pagination_new offset limit = \<lparr>pg_offset = offset, pg_limit = limit\<rparr>"

definition pagination_first :: "usize \<Rightarrow> pagination" where
  "pagination_first limit = \<lparr>pg_offset = 0, pg_limit = limit\<rparr>"

record 'a paginated_response =
  pr_items :: "'a list"
  pr_total :: usize
  pr_offset :: usize
  pr_limit :: usize
  pr_has_more :: bool

text \<open>
  \<open>offset + items.len()\<close> is a \<open>usize\<close> addition: an overflow panics in a build with overflow
  checks and wraps around in a release build. \<open>checks\<close> is the build's choice.
\<close>

definition usize_add :: "bool \<Rightarrow> usize \<Rightarrow> usize \<Rightarrow> usize option" where
  "usize_add checks a b = (if checks \<and> u64_max < unat a + unat b then None else Some (a + b))"

definition paginated_response_new ::
  "bool \<Rightarrow> 'a list \<Rightarrow> usize \<Rightarrow> usize \<Rightarrow> usize \<Rightarrow> 'a paginated_response option" where
  "paginated_response_new checks items tot offset limit =
     (case usize_add checks offset (of_nat (length items)) of
        None \<Rightarrow> None
      | Some page_end \<Rightarrow>
          Some \<lparr>pr_items = items, pr_total = tot, pr_offset = offset, pr_limit = limit,
                pr_has_more = (page_end < tot)\<rparr>)"

section \<open>Facts\<close>

lemma code_with_details [simp]: "code (with_details e d) = code e"
  by (cases e) auto

lemma retryable_iff_code:
  "is_retryable e \<longleftrightarrow>
     code e = gateway_error_code.Timeout \<or> code e = gateway_error_code.Unavailable"
  by (cases e) auto

lemma not_found_iff_code: "is_not_found e \<longleftrightarrow> code e = gateway_error_code.NotFound"
  by (cases e) auto

lemma usize_add_nat:
  "unat a + unat b \<le> u64_max \<Longrightarrow> usize_add checks a b = Some (a + b) \<and> unat (a + b) = unat a + unat b"
  by (auto simp: usize_add_def u64_max_def unat_word_ariths)

text \<open>
  errors are classified consistently. Building an error from a code and reading the code
  back gives that code, and adding details to any error, I/O errors included, changes neither
  its code nor whether it is retryable nor whether it means "not found".
\<close>

theorem error_classification:
  "code (gateway_error_new c m) = c \<and>
   code (with_details e d) = code e \<and>
   is_retryable (with_details e d) = is_retryable e \<and>
   is_not_found (with_details e d) = is_not_found e"
  by (cases c) (auto simp: retryable_iff_code not_found_iff_code)

text \<open>
  a page reports \<open>has_more\<close> exactly when items remain after it, as long as offset plus
  page length does not exceed the largest \<open>usize\<close>; the items and bounds are kept as given.
\<close>

theorem paginated_has_more:
  assumes "length items < 2 ^ 64" and "unat offset + length items < 2 ^ 64"
  shows "\<exists>r. paginated_response_new checks items tot offset limit = Some r \<and>
    (pr_has_more r \<longleftrightarrow> unat offset + length items < unat tot) \<and>
    pr_items r = items \<and> pr_offset r = offset \<and> pr_total r = tot"
proof -
  let ?n = "of_nat (length items) :: usize"
  have n: "unat ?n = length items"
    using assms(1) by (simp add: unsigned_of_nat take_bit_nat_eq_self_iff)
  have "unat offset + unat ?n \<le> u64_max" using assms(2) by (simp add: n u64_max_def)
  then have "usize_add checks offset ?n = Some (offset + ?n)"
    and "unat (offset + ?n) = unat offset + length items"
    using usize_add_nat [of offset ?n checks] by (simp_all add: n)
  then show ?thesis by (simp add: paginated_response_new_def word_less_nat_alt)
qed

theorem paginated_has_more_witness:
  "\<exists>r. paginated_response_new True [''a'', ''b''] 5 2 2 = Some r \<and>
    (pr_has_more r \<longleftrightarrow> unat (2::usize) + length [''a'', ''b''] < unat (5::usize)) \<and>
    pr_items r = [''a'', ''b''] \<and> pr_offset r = 2 \<and> pr_total r = 5"
  by (rule paginated_has_more) simp_all

end
