(* ===== verification/DatabaseApi.thy ===== *)
theory DatabaseApi
  imports GatewayTypes
begin

text \<open>
  \<open>api/database.rs\<close>: the database configuration with its constructors, records, query
  parameters with their builder methods, and write results.
\<close>

datatype database_type = Memory | Postgres | MySql | Sqlite | MongoDb

definition database_type_default :: database_type where
  "database_type_default = Memory"

record database_config =
  dc_database_type :: database_type
  dc_connection_string :: "string option"
  dc_host :: "string option"
  dc_port :: "u16 option"
  dc_database :: "string option"
  dc_username :: "string option"
  dc_password :: "string option"
  dc_max_connections :: "u32 option"
  dc_connect_timeout_secs :: "u64 option"
  dc_options :: "string \<rightharpoonup> string"

definition database_config_default :: database_config where
  "database_config_default =
     \<lparr>dc_database_type = Memory, dc_connection_string = None, dc_host = None, dc_port = None,
      dc_database = None, dc_username = None, dc_password = None,
      dc_max_connections = Some 10, dc_connect_timeout_secs = Some 30,
      dc_options = Map.empty\<rparr>"

definition database_config_memory :: database_config where
  "database_config_memory = database_config_default"

definition database_config_postgres :: "string \<Rightarrow> database_config" where
  "database_config_postgres connection_string =
     database_config_default\<lparr>dc_database_type := Postgres,
       dc_connection_string := Some connection_string\<rparr>"

definition database_config_mysql :: "string \<Rightarrow> database_config" where
  "database_config_mysql connection_string =
     database_config_default\<lparr>dc_database_type := MySql,
       dc_connection_string := Some connection_string\<rparr>"

text \<open>A record is a JSON object.\<close>

type_synonym db_record = jmap

text \<open>The filters are a hash map, given by its entries in the order a query visits them.\<close>

record query_params =
  qp_filters :: "(string \<times> json) list"
  qp_select :: "string list"
  qp_order_by :: "string option"
  qp_order_desc :: bool
  qp_offset :: "usize option"
  qp_limit :: "usize option"

definition query_params_new :: query_params where
  "query_params_new =
     \<lparr>qp_filters = [], qp_select = [], qp_order_by = None, qp_order_desc = False,
      qp_offset = None, qp_limit = None\<rparr>"

definition qp_filter :: "string \<Rightarrow> json \<Rightarrow> query_params \<Rightarrow> query_params" where
  "qp_filter key v p = p\<lparr>qp_filters := entries_put key v (qp_filters p)\<rparr>"

definition qp_select_fields :: "string list \<Rightarrow> query_params \<Rightarrow> query_params" where
  "qp_select_fields names p = p\<lparr>qp_select := names\<rparr>"

definition qp_sort :: "string \<Rightarrow> bool \<Rightarrow> query_params \<Rightarrow> query_params" where
  "qp_sort field desc p = p\<lparr>qp_order_by := Some field, qp_order_desc := desc\<rparr>"

definition qp_paginate :: "usize \<Rightarrow> usize \<Rightarrow> query_params \<Rightarrow> query_params" where
  "qp_paginate offset limit p = p\<lparr>qp_offset := Some offset, qp_limit := Some limit\<rparr>"

record write_result =
  wr_rows_affected :: u64
  wr_inserted_id :: "string option"

definition write_result_new :: "u64 \<Rightarrow> write_result" where
  "write_result_new rows_affected =
     \<lparr>wr_rows_affected = rows_affected, wr_inserted_id = None\<rparr>"

definition write_result_inserted :: "string \<Rightarrow> write_result" where
  "write_result_inserted id' = \<lparr>wr_rows_affected = 1, wr_inserted_id = Some id'\<rparr>"

datatype isolation_level = ReadUncommitted | ReadCommitted | RepeatableRead | Serializable

definition isolation_level_default :: isolation_level where
  "isolation_level_default = ReadCommitted"

lemma write_result_simps [simp]:
  "wr_rows_affected (write_result_new n) = n"
  "wr_inserted_id (write_result_new n) = None"
  "wr_rows_affected (write_result_inserted i) = 1"
  "wr_inserted_id (write_result_inserted i) = Some i"
  by (simp_all add: write_result_new_def write_result_inserted_def)

end
