(* ===== verification/MemoryDatabase.thy ===== *)
theory MemoryDatabase
  imports DatabaseApi
begin

text \<open>
  \<open>core/database/memory.rs\<close>: the in-memory database. Its state is a map of tables, each a map
  from id to record. Every operation is one critical section on the lock, except the two
  inserts, which first create the table in a critical section of their own: these are modelled
  as two steps, and \<open>db_step\<close> interleaves the steps of any number of callers.

  Parameters: \<open>render\<close> is \<open>serde_json\<close>'s \<open>Display\<close> of a value, \<open>uuid\<close> the supply of random
  identifiers, and \<open>ks\<close> the order in which the table's hash map is iterated.
\<close>

type_synonym table = "string \<rightharpoonup> db_record"
type_synonym memory_database = "string \<rightharpoonup> table"

section \<open>The code\<close>

definition db_new :: memory_database where
  "db_new = Map.empty"

definition db_with_tables :: "string list \<Rightarrow> memory_database" where
  "db_with_tables tables = foldl (\<lambda>m t. m(t \<mapsto> Map.empty)) Map.empty tables"

definition ensure_table :: "string \<Rightarrow> memory_database \<Rightarrow> memory_database" where
  "ensure_table t db = (case db t of Some _ \<Rightarrow> db | None \<Rightarrow> db(t \<mapsto> Map.empty))"

definition extract_id :: "db_record \<Rightarrow> string option" where
  "extract_id r =
     (case Option.bind (jmap_get r ''id'') as_str of
        Some s \<Rightarrow> Some s
      | None \<Rightarrow> Option.bind (jmap_get r ''_id'') as_str)"

definition null_or_missing :: "json option \<Rightarrow> bool" where
  "null_or_missing v = (case v of None \<Rightarrow> True | Some w \<Rightarrow> is_null w)"

definition comparison_text :: "(json \<Rightarrow> string) \<Rightarrow> json \<Rightarrow> string" where
  "comparison_text render v = (case as_str v of Some s \<Rightarrow> s | None \<Rightarrow> render v)"

definition compare_values :: "(json \<Rightarrow> string) \<Rightarrow> json option \<Rightarrow> json option \<Rightarrow> ordering" where
  "compare_values render a b =
     (if null_or_missing a \<and> null_or_missing b then Equal
      else if null_or_missing a then Greater
      else if null_or_missing b then Less
      else case (a, b) of
        (Some av, Some bv) \<Rightarrow>
          (case (as_f64 av, as_f64 bv) of
             (Some an, Some bn) \<Rightarrow>
               (case partial_cmp_f64 an bn of Some ord \<Rightarrow> ord | None \<Rightarrow> Equal)
           | _ \<Rightarrow> cmp_ord (comparison_text render av) (comparison_text render bv))
      | _ \<Rightarrow> Equal)"

definition filter_suffixes :: "string list" where
  "filter_suffixes = [''__gte'', ''__lte'', ''__gt'', ''__lt'', ''__like'', ''__in'']"

fun parse_suffixes :: "string list \<Rightarrow> string \<Rightarrow> string \<times> string" where
  "parse_suffixes [] key = (key, ''eq'')"
| "parse_suffixes (suffix # rest) key =
     (case strip_suffix key suffix of
        Some field \<Rightarrow> (field, drop 2 suffix)
      | None \<Rightarrow> parse_suffixes rest key)"

definition parse_filter_key :: "string \<Rightarrow> string \<times> string" where
  "parse_filter_key key = parse_suffixes filter_suffixes key"

definition matches_filter_condition ::
  "(json \<Rightarrow> string) \<Rightarrow> json option \<Rightarrow> string \<Rightarrow> json \<Rightarrow> bool" where
  "matches_filter_condition render field_value operator filter_value =
     (if operator = ''eq'' then field_value = Some filter_value
      else if operator \<in> {''gt'', ''lt'', ''gte'', ''lte''} then
        (case field_value of
           None \<Rightarrow> False
         | Some fv \<Rightarrow>
             if is_null fv then False
             else let ord = compare_values render (Some fv) (Some filter_value) in
               if operator = ''gt'' then ord = Greater
               else if operator = ''lt'' then ord = Less
               else if operator = ''gte'' then ord \<noteq> Less
               else ord \<noteq> Greater)
      else if operator = ''like'' then
        (case Option.bind field_value as_str of
           None \<Rightarrow> False
         | Some field_str \<Rightarrow>
             (case as_str filter_value of
                None \<Rightarrow> False
              | Some pat \<Rightarrow> contains_sub (to_lowercase field_str) (to_lowercase pat)))
      else if operator = ''in'' then
        (case field_value of
           None \<Rightarrow> False
         | Some fv \<Rightarrow>
             (case as_array filter_value of
                Some arr \<Rightarrow> fv \<in> set arr
              | None \<Rightarrow> fv = filter_value))
      else False)"

fun matches_filters :: "(json \<Rightarrow> string) \<Rightarrow> db_record \<Rightarrow> (string \<times> json) list \<Rightarrow> bool" where
  "matches_filters render r [] = True"
| "matches_filters render r ((key, v) # filters) =
     (case parse_filter_key key of
        (field, operator) \<Rightarrow>
          if \<not> matches_filter_condition render (jmap_get r field) operator v then False
          else matches_filters render r filters)"

text \<open>The closure given to \<open>sort_by\<close>.\<close>

definition order_cmp ::
  "(json \<Rightarrow> string) \<Rightarrow> string \<Rightarrow> bool \<Rightarrow> db_record \<Rightarrow> db_record \<Rightarrow> ordering" where
  "order_cmp render order_by order_desc a b =
     (let a_val = jmap_get a order_by; b_val = jmap_get b order_by in
      case (null_or_missing a_val, null_or_missing b_val) of
        (True, True) \<Rightarrow> Equal
      | (True, False) \<Rightarrow> Greater
      | (False, True) \<Rightarrow> Less
      | (False, False) \<Rightarrow>
          (let c = compare_values render a_val b_val in
           if order_desc then reverse_ordering c else c))"

definition apply_pagination ::
  "(json \<Rightarrow> string) \<Rightarrow> db_record list \<Rightarrow> query_params \<Rightarrow> db_record list option" where
  "apply_pagination render records params =
     Option.bind
       (case qp_order_by params of
          None \<Rightarrow> Some records
        | Some order_by \<Rightarrow> sort_by (order_cmp render order_by (qp_order_desc params)) records)
       (\<lambda>sorted.
          let skipped =
            (case qp_offset params of
               None \<Rightarrow> sorted
             | Some offset \<Rightarrow>
                 if unat offset < length sorted then drop (unat offset) sorted else [])
          in Some (case qp_limit params of
               None \<Rightarrow> skipped
             | Some limit \<Rightarrow> take (unat limit) skipped))"

fun select_loop :: "db_record \<Rightarrow> string list \<Rightarrow> db_record \<Rightarrow> db_record" where
  "select_loop r [] acc = acc"
| "select_loop r (field # names) acc =
     select_loop r names
       (case jmap_get r field of Some v \<Rightarrow> jmap_insert acc field v | None \<Rightarrow> acc)"

definition select_fields :: "db_record \<Rightarrow> string list \<Rightarrow> db_record" where
  "select_fields r select = (if select = [] then r else select_loop r select [])"

text \<open>Reads.\<close>

definition db_query ::
  "(json \<Rightarrow> string) \<Rightarrow> string list \<Rightarrow> memory_database \<Rightarrow> string \<Rightarrow> query_params \<Rightarrow>
   db_record list gateway_result option" where
  "db_query render ks db t params =
     (case db t of
        None \<Rightarrow> Some (Ok [])
      | Some table_data \<Rightarrow>
          map_option (\<lambda>page. Ok (map (\<lambda>r. select_fields r (qp_select params)) page))
            (apply_pagination render
               (filter (\<lambda>r. matches_filters render r (qp_filters params))
                  (values_in ks table_data))
               params))"

definition db_get_by_id ::
  "memory_database \<Rightarrow> string \<Rightarrow> string \<Rightarrow> db_record option gateway_result" where
  "db_get_by_id db t i = Ok (Option.bind (db t) (\<lambda>table_data. table_data i))"

definition db_exists :: "memory_database \<Rightarrow> string \<Rightarrow> string \<Rightarrow> bool gateway_result" where
  "db_exists db t i =
     Ok (case map_option (\<lambda>table_data. table_data i \<noteq> None) (db t) of
           Some b \<Rightarrow> b | None \<Rightarrow> False)"

definition db_count ::
  "(json \<Rightarrow> string) \<Rightarrow> string list \<Rightarrow> memory_database \<Rightarrow> string \<Rightarrow> query_params \<Rightarrow>
   u64 gateway_result" where
  "db_count render ks db t params =
     Ok (case db t of
           Some table_data \<Rightarrow>
             of_nat (length (filter (\<lambda>r. matches_filters render r (qp_filters params))
               (values_in ks table_data)))
         | None \<Rightarrow> 0)"

definition db_health_check :: "timestamp \<Rightarrow> health_check gateway_result" where
  "db_health_check now = Ok (healthy now)"

text \<open>Writes. \<open>None\<close> is the panic of \<open>tables.get_mut(&table).unwrap()\<close>.\<close>

definition conflict_text :: "string \<Rightarrow> string \<Rightarrow> string" where
  "conflict_text i t =
     ''Record with id '' @ [CHR 0x27] @ i @ [CHR 0x27] @ '' already exists in table '' @
     [CHR 0x27] @ t @ [CHR 0x27]"

definition table_not_found_text :: "string \<Rightarrow> string" where
  "table_not_found_text t = ''Table '' @ [CHR 0x27] @ t @ [CHR 0x27] @ '' not found''"

definition record_not_found_text :: "string \<Rightarrow> string \<Rightarrow> string" where
  "record_not_found_text i t =
     ''Record '' @ [CHR 0x27] @ i @ [CHR 0x27] @ '' not found in table '' @
     [CHR 0x27] @ t @ [CHR 0x27]"

definition db_insert_locked ::
  "memory_database \<Rightarrow> string \<Rightarrow> db_record \<Rightarrow> string \<Rightarrow>
   (write_result gateway_result \<times> memory_database) option" where
  "db_insert_locked db t r uuid =
     (let i = (case extract_id r of Some s \<Rightarrow> s | None \<Rightarrow> uuid) in
      case db t of
        None \<Rightarrow> None
      | Some table_data \<Rightarrow>
          if table_data i \<noteq> None then Some (Err (Conflict (conflict_text i t)), db)
          else
            (let r' = jmap_insert r ''id'' (JString i)
             in Some (Ok (write_result_inserted i), db(t \<mapsto> table_data(i \<mapsto> r')))))"

definition db_insert ::
  "memory_database \<Rightarrow> string \<Rightarrow> db_record \<Rightarrow> string \<Rightarrow>
   (write_result gateway_result \<times> memory_database) option" where
  "db_insert db t r uuid = db_insert_locked (ensure_table t db) t r uuid"

definition db_update ::
  "memory_database \<Rightarrow> string \<Rightarrow> string \<Rightarrow> db_record \<Rightarrow>
   write_result gateway_result \<times> memory_database" where
  "db_update db t i r =
     (case db t of
        None \<Rightarrow> (Err (gateway_error.NotFound (table_not_found_text t)), db)
      | Some table_data \<Rightarrow>
          (case table_data i of
             None \<Rightarrow> (Err (gateway_error.NotFound (record_not_found_text i t)), db)
           | Some existing \<Rightarrow>
               (Ok (write_result_new 1),
                db(t \<mapsto> table_data(i \<mapsto> jmap_extend existing r)))))"

definition db_delete ::
  "memory_database \<Rightarrow> string \<Rightarrow> string \<Rightarrow> write_result gateway_result \<times> memory_database" where
  "db_delete db t i =
     (case db t of
        None \<Rightarrow> (Err (gateway_error.NotFound (table_not_found_text t)), db)
      | Some table_data \<Rightarrow>
          (case table_data i of
             Some _ \<Rightarrow> (Ok (write_result_new 1), db(t \<mapsto> table_data(i := None)))
           | None \<Rightarrow> (Ok (write_result_new 0), db)))"

text \<open>\<open>n\<close> counts the identifiers drawn so far.\<close>

fun batch_insert_loop ::
  "(nat \<Rightarrow> string) \<Rightarrow> nat \<Rightarrow> db_record list \<Rightarrow> table \<Rightarrow> u64 \<Rightarrow> table \<times> u64" where
  "batch_insert_loop uuid n [] table_data affected = (table_data, affected)"
| "batch_insert_loop uuid n (r # rs) table_data affected =
     (case (case extract_id r of Some s \<Rightarrow> (s, n) | None \<Rightarrow> (uuid n, Suc n)) of
        (i, n') \<Rightarrow>
          if table_data i = None then
            batch_insert_loop uuid n' rs
              (table_data(i \<mapsto> jmap_insert r ''id'' (JString i))) (affected + 1)
          else batch_insert_loop uuid n' rs table_data affected)"

definition db_batch_insert_locked ::
  "memory_database \<Rightarrow> string \<Rightarrow> db_record list \<Rightarrow> (nat \<Rightarrow> string) \<Rightarrow>
   (write_result gateway_result \<times> memory_database) option" where
  "db_batch_insert_locked db t rs uuid =
     (case db t of
        None \<Rightarrow> None
      | Some table_data \<Rightarrow>
          (case batch_insert_loop uuid 0 rs table_data 0 of
             (table_data', affected) \<Rightarrow>
               Some (Ok (write_result_new affected), db(t \<mapsto> table_data'))))"

definition db_batch_insert ::
  "memory_database \<Rightarrow> string \<Rightarrow> db_record list \<Rightarrow> (nat \<Rightarrow> string) \<Rightarrow>
   (write_result gateway_result \<times> memory_database) option" where
  "db_batch_insert db t rs uuid = db_batch_insert_locked (ensure_table t db) t rs uuid"

fun update_where_loop ::
  "(json \<Rightarrow> string) \<Rightarrow> (string \<times> json) list \<Rightarrow> db_record \<Rightarrow> string list \<Rightarrow> table \<Rightarrow> u64 \<Rightarrow>
   table \<times> u64" where
  "update_where_loop render filters updates [] table_data affected = (table_data, affected)"
| "update_where_loop render filters updates (k # ks) table_data affected =
     (case table_data k of
        None \<Rightarrow> update_where_loop render filters updates ks table_data affected
      | Some r \<Rightarrow>
          if matches_filters render r filters then
            update_where_loop render filters updates ks
              (table_data(k \<mapsto> jmap_extend r updates)) (affected + 1)
          else update_where_loop render filters updates ks table_data affected)"

definition db_update_where ::
  "(json \<Rightarrow> string) \<Rightarrow> string list \<Rightarrow> memory_database \<Rightarrow> string \<Rightarrow> query_params \<Rightarrow> db_record \<Rightarrow>
   write_result gateway_result \<times> memory_database" where
  "db_update_where render ks db t params updates =
     (case db t of
        None \<Rightarrow> (Err (gateway_error.NotFound (table_not_found_text t)), db)
      | Some table_data \<Rightarrow>
          (case update_where_loop render (qp_filters params) updates ks table_data 0 of
             (table_data', affected) \<Rightarrow>
               (Ok (write_result_new affected), db(t \<mapsto> table_data'))))"

definition db_delete_where ::
  "(json \<Rightarrow> string) \<Rightarrow> string list \<Rightarrow> memory_database \<Rightarrow> string \<Rightarrow> query_params \<Rightarrow>
   write_result gateway_result \<times> memory_database" where
  "db_delete_where render ks db t params =
     (case db t of
        None \<Rightarrow> (Err (gateway_error.NotFound (table_not_found_text t)), db)
      | Some table_data \<Rightarrow>
          (let ids_to_delete =
             filter (\<lambda>i. case table_data i of
                            Some r \<Rightarrow> matches_filters render r (qp_filters params)
                          | None \<Rightarrow> False) ks
           in (Ok (write_result_new (of_nat (length ids_to_delete))),
               db(t \<mapsto> foldl (\<lambda>m i. m(i := None)) table_data ids_to_delete))))"


section \<open>Filters and counting\<close>

lemma matches_filters_iff:
  "matches_filters render r filters \<longleftrightarrow>
     (\<forall>(key, v) \<in> set filters.
        matches_filter_condition render (jmap_get r (fst (parse_filter_key key)))
          (snd (parse_filter_key key)) v)"
  by (induction filters) (auto split: prod.splits)

lemma matches_filters_set:
  "set filters = set filters' \<Longrightarrow> matches_filters render r filters = matches_filters render r filters'"
  by (simp add: matches_filters_iff)

text \<open>The rows a query is about, and the part of them a page shows.\<close>

definition matching_rows ::
  "(json \<Rightarrow> string) \<Rightarrow> string list \<Rightarrow> table \<Rightarrow> query_params \<Rightarrow> db_record list" where
  "matching_rows render ks table_data params =
     filter (\<lambda>r. matches_filters render r (qp_filters params)) (values_in ks table_data)"

definition page_of :: "query_params \<Rightarrow> 'a list \<Rightarrow> 'a list" where
  "page_of params xs =
     (let ys = drop (case qp_offset params of Some n \<Rightarrow> unat n | None \<Rightarrow> 0) xs
      in case qp_limit params of Some n \<Rightarrow> take (unat n) ys | None \<Rightarrow> ys)"

lemma apply_pagination_page:
  "apply_pagination render records params =
     map_option (page_of params)
       (case qp_order_by params of
          None \<Rightarrow> Some records
        | Some f \<Rightarrow> sort_by (order_cmp render f (qp_order_desc params)) records)"
proof -
  have "(\<lambda>sorted. let skipped = (case qp_offset params of None \<Rightarrow> sorted
             | Some offset \<Rightarrow>
                 if unat offset < length sorted then drop (unat offset) sorted else [])
          in Some (case qp_limit params of None \<Rightarrow> skipped | Some limit \<Rightarrow> take (unat limit) skipped))
      = (\<lambda>xs. Some (page_of params xs))"
    by (auto simp: page_of_def Let_def fun_eq_iff split: option.split)
  then show ?thesis unfolding apply_pagination_def map_conv_bind_option comp_def by (rule arg_cong)
qed

lemma mset_matching_rows:
  "enumerates ks m \<Longrightarrow> enumerates ls m \<Longrightarrow>
   mset (matching_rows render ks m params) = mset (matching_rows render ls m params)"
  using enumerates_values_mset [of ks m ls] by (simp add: matching_rows_def)

lemma length_matching_rows:
  "enumerates ks m \<Longrightarrow> enumerates ls m \<Longrightarrow>
   length (matching_rows render ks m params) = length (matching_rows render ls m params)"
  by (metis mset_matching_rows size_mset)

lemma db_count_matching:
  "db_count render ks db t params =
     Ok (case db t of Some m \<Rightarrow> of_nat (length (matching_rows render ks m params)) | None \<Rightarrow> 0)"
  by (simp add: db_count_def matching_rows_def split: option.split)

section \<open>Ordering\<close>

fun numeric_key :: "json option \<Rightarrow> rat" where
  "numeric_key (Some (JNumber n)) = (case number_as_f64 n of Fin q \<Rightarrow> q | _ \<Rightarrow> 0)"
| "numeric_key _ = 0"

definition column_number :: "string \<Rightarrow> db_record \<Rightarrow> bool" where
  "column_number f r \<longleftrightarrow> (case jmap_get r f of Some v \<Rightarrow> is_number v | None \<Rightarrow> False)"

definition column_text :: "string \<Rightarrow> db_record \<Rightarrow> bool" where
  "column_text f r \<longleftrightarrow>
     (case jmap_get r f of Some v \<Rightarrow> \<not> is_number v \<and> \<not> is_null v | None \<Rightarrow> False)"

definition column_missing :: "string \<Rightarrow> db_record \<Rightarrow> bool" where
  "column_missing f r \<longleftrightarrow> null_or_missing (jmap_get r f)"

lemma as_f64_None_iff: "as_f64 v = None \<longleftrightarrow> \<not> is_number v"
  by (cases v) auto

lemma compare_numbers:
  assumes "column_number f a" "column_number f b"
  shows "compare_values render (jmap_get a f) (jmap_get b f) =
    cmp_ord (numeric_key (jmap_get a f)) (numeric_key (jmap_get b f))"
proof -
  from assms obtain m n where "jmap_get a f = Some (JNumber m)" "jmap_get b f = Some (JNumber n)"
    by (auto simp: column_number_def split: option.splits elim!: is_number.elims)
  moreover obtain p q where "number_as_f64 m = Fin p" "number_as_f64 n = Fin q"
    using number_as_f64_Fin by metis
  ultimately show ?thesis by (simp add: compare_values_def null_or_missing_def)
qed

lemma compare_texts:
  assumes "column_text f a" "column_text f b"
  shows "compare_values render (jmap_get a f) (jmap_get b f) =
    cmp_ord (comparison_text render (the (jmap_get a f))) (comparison_text render (the (jmap_get b f)))"
  using assms
  by (auto simp: column_text_def compare_values_def null_or_missing_def as_f64_None_iff [symmetric]
      split: option.splits)

text \<open>
  On a column of numbers, and on a column without numbers, the comparison is a total order: the
  contract of \<open>sort_by\<close> is met.
\<close>

interpretation numeric_column: total_comparison
  "\<lambda>a b. compare_values render (jmap_get a f) (jmap_get b f)" "column_number f" for render f
  by (rule total_comparison_key) (rule compare_numbers)

interpretation text_column: total_comparison
  "\<lambda>a b. compare_values render (jmap_get a f) (jmap_get b f)" "column_text f" for render f
  by (rule total_comparison_key) (rule compare_texts)

lemma order_cmp_missing_last:
  "order_cmp render f desc = missing_last (column_missing f) desc
     (\<lambda>a b. compare_values render (jmap_get a f) (jmap_get b f))"
  by (auto simp: order_cmp_def missing_last_def column_missing_def fun_eq_iff Let_def)

definition sortable_column :: "string \<Rightarrow> db_record list \<Rightarrow> bool" where
  "sortable_column f rs \<longleftrightarrow>
     list_all (\<lambda>r. column_missing f r \<or> column_number f r) rs \<or>
     list_all (\<lambda>r. column_missing f r \<or> column_text f r) rs"

lemma sortable_total:
  assumes "sortable_column f rs"
  obtains P where "total_comparison (order_cmp render f desc) P" and "list_all P rs"
proof -
  have n: "total_comparison (order_cmp render f desc) (\<lambda>r. column_missing f r \<or> column_number f r)"
    unfolding order_cmp_missing_last by (rule numeric_column.missing_last_total)
  have t: "total_comparison (order_cmp render f desc) (\<lambda>r. column_missing f r \<or> column_text f r)"
    unfolding order_cmp_missing_last by (rule text_column.missing_last_total)
  from assms show thesis unfolding sortable_column_def using that [OF n] that [OF t] by blast
qed

lemma sortable_sorted:
  assumes "sortable_column f rs"
  shows "\<exists>sorted. sort_by (order_cmp render f desc) rs = Some sorted \<and>
    mset sorted = mset rs \<and>
    sorted_wrt (\<lambda>a b. order_cmp render f desc a b \<noteq> Greater) sorted \<and>
    (\<forall>r \<in> set rs. filter (\<lambda>y. order_cmp render f desc r y = Equal) sorted =
                  filter (\<lambda>y. order_cmp render f desc r y = Equal) rs)"
proof -
  obtain P where tot: "total_comparison (order_cmp render f desc) P" and P: "list_all P rs"
    using assms by (rule sortable_total)
  show ?thesis
    using total_comparison.sort_defined [OF tot P] total_comparison.sort_sorted [OF tot P]
      total_comparison.sort_stable [OF tot _ P] P
    by (auto simp: list_all_iff)
qed

text \<open>
  What an ordered query promises, without the comparison: rows without a value come last; the
  others stand by their numbers, or by their texts on a column without numbers. Two rows are tied
  when each may precede the other.
\<close>

definition precedes ::
  "(json \<Rightarrow> string) \<Rightarrow> string \<Rightarrow> bool \<Rightarrow> db_record \<Rightarrow> db_record \<Rightarrow> bool" where
  "precedes render f desc a b \<longleftrightarrow>
     column_missing f b \<or>
     \<not> column_missing f a \<and>
     (if column_number f a
      then let x = numeric_key (jmap_get a f); y = numeric_key (jmap_get b f)
           in if desc then y \<le> x else x \<le> y
      else let x = comparison_text render (the (jmap_get a f));
               y = comparison_text render (the (jmap_get b f))
           in if desc then y \<le> x else x \<le> y)"

definition tied :: "(json \<Rightarrow> string) \<Rightarrow> string \<Rightarrow> db_record \<Rightarrow> db_record \<Rightarrow> bool" where
  "tied render f a b \<longleftrightarrow> precedes render f False a b \<and> precedes render f False b a"

lemma kinds_of_value:
  "column_number f r \<Longrightarrow> \<not> column_missing f r"
  "column_text f r \<Longrightarrow> \<not> column_missing f r \<and> \<not> column_number f r"
  by (auto simp: column_number_def column_text_def column_missing_def null_or_missing_def
      split: option.splits elim!: is_number.elims)

lemma cmp_ord_le: "cmp_ord x y \<noteq> Greater \<longleftrightarrow> x \<le> (y :: 'a :: linorder)"
  by (auto simp: cmp_ord_def)

lemma reverse_cmp_ord_le: "reverse_ordering (cmp_ord x y) \<noteq> Greater \<longleftrightarrow> y \<le> (x :: 'a :: linorder)"
  by (auto simp: cmp_ord_def)

lemma order_cmp_precedes:
  assumes "sortable_column f rs" "a \<in> set rs" "b \<in> set rs"
  shows "order_cmp render f desc a b \<noteq> Greater \<longleftrightarrow> precedes render f desc a b"
proof -
  consider "column_missing f a" | "column_missing f b"
    | "column_number f a" "column_number f b" | "column_text f a" "column_text f b"
    using assms unfolding sortable_column_def list_all_iff by blast
  then show ?thesis
  proof cases
    case 1
    then show ?thesis
      by (cases "column_missing f b") (simp_all add: order_cmp_def precedes_def column_missing_def)
  next
    case 2
    then show ?thesis
      by (cases "column_missing f a") (simp_all add: order_cmp_def precedes_def column_missing_def)
  next
    case 3
    with kinds_of_value [of f] have "\<not> column_missing f a" "\<not> column_missing f b" by blast+
    then show ?thesis
      using 3 by (simp add: order_cmp_def precedes_def column_missing_def [symmetric] compare_numbers
          cmp_ord_le reverse_cmp_ord_le Let_def not_less)
  next
    case 4
    with kinds_of_value [of f] have "\<not> column_missing f a" "\<not> column_missing f b"
      "\<not> column_number f a" by blast+
    then show ?thesis
      using 4 by (simp add: order_cmp_def precedes_def column_missing_def [symmetric] compare_texts
          cmp_ord_le reverse_cmp_ord_le Let_def not_less)
  qed
qed

lemma precedes_desc:
  assumes "sortable_column f rs" "a \<in> set rs" "b \<in> set rs"
  shows "precedes render f True a b \<and> precedes render f True b a \<longleftrightarrow> tied render f a b"
  using assms kinds_of_value [of f] unfolding sortable_column_def list_all_iff
  by (auto simp: precedes_def tied_def Let_def)

lemma order_cmp_tied:
  assumes "sortable_column f rs" "a \<in> set rs" "b \<in> set rs"
  shows "order_cmp render f desc a b = Equal \<longleftrightarrow> tied render f a b"
proof -
  obtain P where tot: "total_comparison (order_cmp render f desc) P" and P: "list_all P rs"
    using assms(1) by (rule sortable_total)
  from P assms(2,3) have "P a" "P b" by (auto simp: list_all_iff)
  then have "order_cmp render f desc b a = reverse_ordering (order_cmp render f desc a b)"
    using tot by (intro total_comparison.dual)
  then have "order_cmp render f desc a b = Equal \<longleftrightarrow>
      order_cmp render f desc a b \<noteq> Greater \<and> order_cmp render f desc b a \<noteq> Greater"
    by (cases "order_cmp render f desc a b") auto
  also have "\<dots> \<longleftrightarrow> precedes render f desc a b \<and> precedes render f desc b a"
    using order_cmp_precedes [OF assms(1)] assms(2,3) by blast
  also have "\<dots> \<longleftrightarrow> tied render f a b"
    by (cases desc) (simp_all add: precedes_desc [OF assms], simp add: tied_def)
  finally show ?thesis .
qed

lemma sortable_ordered:
  assumes "sortable_column f rs"
  shows "\<exists>sorted. sort_by (order_cmp render f desc) rs = Some sorted \<and>
    mset sorted = mset rs \<and>
    sorted_wrt (precedes render f desc) sorted \<and>
    (\<forall>r \<in> set rs. filter (tied render f r) sorted = filter (tied render f r) rs)"
proof -
  obtain sorted where s: "sort_by (order_cmp render f desc) rs = Some sorted"
    "mset sorted = mset rs" "sorted_wrt (\<lambda>a b. order_cmp render f desc a b \<noteq> Greater) sorted"
    "\<forall>r \<in> set rs. filter (\<lambda>y. order_cmp render f desc r y = Equal) sorted =
                  filter (\<lambda>y. order_cmp render f desc r y = Equal) rs"
    using sortable_sorted [OF assms] by blast
  then have set: "set sorted = set rs" by (metis mset_eq_setD)
  have "sorted_wrt (precedes render f desc) sorted"
    using s(3) by (rule sorted_wrt_mono_rel [rotated]) (simp add: set order_cmp_precedes [OF assms])
  moreover have "filter (tied render f r) sorted = filter (tied render f r) rs" if r: "r \<in> set rs" for r
  proof -
    have "filter (tied render f r) xs = filter (\<lambda>y. order_cmp render f desc r y = Equal) xs"
      if "set xs = set rs" for xs
      using that r by (intro filter_cong) (auto simp: order_cmp_tied [OF assms])
    then show ?thesis using s(4) r set by simp
  qed
  ultimately show ?thesis using s by blast
qed

section \<open>Tables as one keyed store\<close>

text \<open>The abstraction: what is stored under a table name and an id.\<close>

definition db_lookup :: "memory_database \<Rightarrow> string \<times> string \<Rightarrow> db_record option" where
  "db_lookup db = (\<lambda>(t, i). Option.bind (db t) (\<lambda>m. m i))"

lemma db_lookup_upd:
  "db_lookup (db(t \<mapsto> m)) (t', i) = (if t' = t then m i else db_lookup db (t', i))"
  by (simp add: db_lookup_def)

lemma db_lookup_Some_table: "db t = Some m \<Longrightarrow> db_lookup db (t, i) = m i"
  by (simp add: db_lookup_def)

lemma db_lookup_ensure [simp]: "db_lookup (ensure_table t db) = db_lookup db"
  by (auto simp: ensure_table_def db_lookup_def fun_eq_iff split: option.split)

lemma ensure_table_dom [simp]: "dom (ensure_table t db) = insert t (dom db)"
  by (auto simp: ensure_table_def split: option.splits)

lemma ensure_table_Some: "\<exists>m. ensure_table t db t = Some m"
  by (auto simp: ensure_table_def split: option.splits)

lemma get_by_id_lookup: "db_get_by_id db t i = Ok (db_lookup db (t, i))"
  by (simp add: db_get_by_id_def db_lookup_def)

lemma exists_lookup: "db_exists db t i = Ok (db_lookup db (t, i) \<noteq> None)"
  by (simp add: db_exists_def db_lookup_def split: option.split)

definition record_key :: "db_record \<Rightarrow> string \<Rightarrow> string" where
  "record_key r uuid = (case extract_id r of Some s \<Rightarrow> s | None \<Rightarrow> uuid)"

lemma insert_locked_cases:
  assumes "db t = Some m"
  shows "db_insert_locked db t r uuid =
    (if m (record_key r uuid) \<noteq> None
     then Some (Err (Conflict (conflict_text (record_key r uuid) t)), db)
     else Some (Ok (write_result_inserted (record_key r uuid)),
        db(t \<mapsto> m(record_key r uuid \<mapsto>
          jmap_insert r ''id'' (JString (record_key r uuid))))))"
  using assms by (simp add: db_insert_locked_def record_key_def Let_def)


lemma db_insert_cases:
  "db_insert db t r uuid =
    (if db_lookup db (t, record_key r uuid) \<noteq> None
     then Some (Err (Conflict (conflict_text (record_key r uuid) t)), ensure_table t db)
     else Some (Ok (write_result_inserted (record_key r uuid)),
        (ensure_table t db)(t \<mapsto> (the (ensure_table t db t))(record_key r uuid \<mapsto>
          jmap_insert r ''id'' (JString (record_key r uuid))))))"
proof -
  obtain m where m: "ensure_table t db t = Some m" using ensure_table_Some by blast
  then have "m (record_key r uuid) = db_lookup db (t, record_key r uuid)"
    by (metis db_lookup_Some_table db_lookup_ensure)
  with m show ?thesis by (simp add: db_insert_def insert_locked_cases)
qed

lemma insert_at_lookup:
  assumes "db t = Some m"
  shows "db_lookup (db(t \<mapsto> m(i \<mapsto> r))) = (db_lookup db)((t, i) \<mapsto> r)"
  using assms by (auto simp: db_lookup_def fun_eq_iff)

lemma remove_at_lookup:
  assumes "db t = Some m"
  shows "db_lookup (db(t \<mapsto> m(i := None))) = (db_lookup db)((t, i) := None)"
  using assms by (auto simp: db_lookup_def fun_eq_iff)

text \<open>The abstract operations on the keyed store.\<close>

type_synonym record_store = "string \<times> string \<rightharpoonup> db_record"

definition spec_insert ::
  "record_store \<Rightarrow> string \<Rightarrow> string \<Rightarrow> db_record \<Rightarrow> write_result gateway_result \<times> record_store" where
  "spec_insert s t i r =
     (if s (t, i) \<noteq> None then (Err (Conflict (conflict_text i t)), s)
      else (Ok (write_result_inserted i), s((t, i) \<mapsto> jmap_insert r ''id'' (JString i))))"

lemma insert_refines:
  "\<exists>res db'. db_insert db t r uuid = Some (res, db') \<and>
     (res, db_lookup db') = spec_insert (db_lookup db) t (record_key r uuid) r \<and>
     dom db' = insert t (dom db)"
proof -
  obtain m where m: "ensure_table t db t = Some m" using ensure_table_Some by blast
  from insert_at_lookup [of "ensure_table t db", OF m] show ?thesis
    by (auto simp: db_insert_cases spec_insert_def m simp del: fun_upd_apply)
qed

definition spec_update_result ::
  "string set \<Rightarrow> record_store \<Rightarrow> string \<Rightarrow> string \<Rightarrow> write_result gateway_result" where
  "spec_update_result tabs s t i =
     (if t \<notin> tabs then Err (gateway_error.NotFound (table_not_found_text t))
      else if s (t, i) = None then Err (gateway_error.NotFound (record_not_found_text i t))
      else Ok (write_result_new 1))"

definition spec_update :: "record_store \<Rightarrow> string \<Rightarrow> string \<Rightarrow> db_record \<Rightarrow> record_store" where
  "spec_update s t i u =
     (case s (t, i) of Some r \<Rightarrow> s((t, i) \<mapsto> jmap_extend r u) | None \<Rightarrow> s)"

definition spec_delete_result ::
  "string set \<Rightarrow> record_store \<Rightarrow> string \<Rightarrow> string \<Rightarrow> write_result gateway_result" where
  "spec_delete_result tabs s t i =
     (if t \<notin> tabs then Err (gateway_error.NotFound (table_not_found_text t))
      else Ok (write_result_new (if s (t, i) = None then 0 else 1)))"

lemma update_refines:
  "\<exists>db'. db_update db t i u = (spec_update_result (dom db) (db_lookup db) t i, db') \<and>
     db_lookup db' = spec_update (db_lookup db) t i u \<and> dom db' = dom db"
proof (cases "db t")
  case None
  then show ?thesis
    by (auto simp: db_update_def spec_update_result_def spec_update_def db_lookup_def)
next
  case (Some m)
  then have m: "db_lookup db (t, i) = m i" and t: "t \<in> dom db"
    by (auto simp: db_lookup_def)
  show ?thesis
    using insert_at_lookup [of db t m i] Some t
    by (cases "m i") (auto simp: db_update_def spec_update_result_def spec_update_def m
        simp del: fun_upd_apply)
qed

lemma delete_refines:
  "\<exists>db'. db_delete db t i = (spec_delete_result (dom db) (db_lookup db) t i, db') \<and>
     db_lookup db' = (db_lookup db)((t, i) := None) \<and> dom db' = dom db"
proof (cases "db t")
  case None
  then show ?thesis
    by (auto simp: db_delete_def spec_delete_result_def db_lookup_def)
next
  case (Some m)
  then have m: "db_lookup db (t, i) = m i" and t: "t \<in> dom db"
    by (auto simp: db_lookup_def)
  show ?thesis
  proof (cases "m i")
    case None
    with Some t m show ?thesis
      by (auto simp: db_delete_def spec_delete_result_def fun_upd_idem)
  next
    case r: (Some r)
    with Some t m show ?thesis
      using remove_at_lookup [of db t m i]
      by (auto simp: db_delete_def spec_delete_result_def simp del: fun_upd_apply)
  qed
qed

section \<open>The contract of a database gateway\<close>

text \<open>
  What a caller of \<open>DatabaseGateway\<close> may rely on, whatever the state behind the trait is, and
  what follows for sequences of calls.
\<close>

locale record_contract =
  fixes get :: "'s \<Rightarrow> string \<times> string \<Rightarrow> db_record option"
    and ins :: "'s \<Rightarrow> string \<Rightarrow> db_record \<Rightarrow> string \<Rightarrow> (write_result gateway_result \<times> 's) option"
    and del :: "'s \<Rightarrow> string \<Rightarrow> string \<Rightarrow> write_result gateway_result \<times> 's"
  assumes ins_spec: "\<exists>s'. ins s t r u =
      Some (fst (spec_insert (get s) t (record_key r u) r), s') \<and>
      get s' = snd (spec_insert (get s) t (record_key r u) r)"
    and del_present: "get s (t, i) = Some r \<Longrightarrow> fst (del s t i) = Ok (write_result_new 1)"
    and del_removes: "get (snd (del s t i)) = (get s)((t, i) := None)"
begin

lemma insert_then_get:
  assumes "get s (t, record_key r u) = None"
  obtains s' where "ins s t r u = Some (Ok (write_result_inserted (record_key r u)), s')"
    and "get s' = (get s)((t, record_key r u) \<mapsto> jmap_insert r ''id'' (JString (record_key r u)))"
  using ins_spec [of s t r u] assms that by (auto simp: spec_insert_def)

lemma conflict_keeps:
  assumes "get s (t, record_key r u) \<noteq> None"
  obtains s' where "ins s t r u = Some (Err (Conflict (conflict_text (record_key r u) t)), s')"
    and "get s' = get s"
  using ins_spec [of s t r u] assms that by (auto simp: spec_insert_def)

lemma insert_twice:
  assumes "get s (t, record_key r u) = None" and "record_key r2 u2 = record_key r u"
  shows "\<exists>s1 s2. ins s t r u = Some (Ok (write_result_inserted (record_key r u)), s1) \<and>
    ins s1 t r2 u2 = Some (Err (Conflict (conflict_text (record_key r u) t)), s2) \<and>
    get s2 = get s1"
proof -
  obtain s1 where s1: "ins s t r u = Some (Ok (write_result_inserted (record_key r u)), s1)"
    "get s1 = (get s)((t, record_key r u) \<mapsto> jmap_insert r ''id'' (JString (record_key r u)))"
    using insert_then_get [OF assms(1)] by blast
  then have "get s1 (t, record_key r2 u2) \<noteq> None" by (simp add: assms(2))
  from conflict_keeps [OF this] s1 assms(2) show ?thesis by metis
qed

lemma insert_delete:
  assumes "get s (t, record_key r u) = None"
  shows "\<exists>s1 s2. ins s t r u = Some (Ok (write_result_inserted (record_key r u)), s1) \<and>
    del s1 t (record_key r u) = (Ok (write_result_new 1), s2) \<and> get s2 = get s"
proof -
  obtain s1 where s1: "ins s t r u = Some (Ok (write_result_inserted (record_key r u)), s1)"
    "get s1 = (get s)((t, record_key r u) \<mapsto> jmap_insert r ''id'' (JString (record_key r u)))"
    using insert_then_get [OF assms(1)] by blast
  have "get (snd (del s1 t (record_key r u))) = get s"
    using assms by (simp add: del_removes s1(2) fun_upd_idem)
  moreover have "fst (del s1 t (record_key r u)) = Ok (write_result_new 1)"
    by (rule del_present) (simp add: s1(2))
  ultimately show ?thesis using s1(1) by (metis prod.collapse)
qed

end

interpretation memory_db: record_contract db_lookup db_insert db_delete
proof
  fix s t r u
  show "\<exists>s'. db_insert s t r u =
      Some (fst (spec_insert (db_lookup s) t (record_key r u) r), s') \<and>
      db_lookup s' = snd (spec_insert (db_lookup s) t (record_key r u) r)"
    using insert_refines [of s t r u] by (metis fst_conv snd_conv)
next
  fix s t i r
  assume "db_lookup s (t, i) = Some r"
  moreover from this have "t \<in> dom s" by (auto simp: db_lookup_def bind_eq_Some_conv)
  ultimately show "fst (db_delete s t i) = Ok (write_result_new 1)"
    using delete_refines [of s t i] by (auto simp: spec_delete_result_def)
next
  fix s t i
  show "db_lookup (snd (db_delete s t i)) = (db_lookup s)((t, i) := None)"
    using delete_refines [of s t i] by auto
qed


section \<open>Bulk operations\<close>

text \<open>A batch done one insert at a time: the records that conflict are skipped.\<close>

fun insert_each ::
  "(nat \<Rightarrow> string) \<Rightarrow> nat \<Rightarrow> string \<Rightarrow> db_record list \<Rightarrow> memory_database \<Rightarrow> u64 \<Rightarrow>
   (memory_database \<times> u64) option" where
  "insert_each uuid n t [] db affected = Some (db, affected)"
| "insert_each uuid n t (r # rs) db affected =
     (case db_insert db t r (uuid n) of
        None \<Rightarrow> None
      | Some (res, db') \<Rightarrow>
          insert_each uuid (if extract_id r = None then Suc n else n) t rs db'
            (if is_ok res then affected + 1 else affected))"

lemma ensure_table_same: "db t = Some m \<Longrightarrow> ensure_table t db = db"
  by (simp add: ensure_table_def)

lemma batch_loop_each:
  "db t = Some m \<Longrightarrow> batch_insert_loop uuid n rs m affected = (m', c) \<Longrightarrow>
   insert_each uuid n t rs db affected = Some (db(t \<mapsto> m'), c)"
proof (induction rs arbitrary: n m db affected)
  case Nil
  then show ?case by (auto simp: fun_upd_idem)
next
  case (Cons r rs)
  let ?i = "record_key r (uuid n)" and ?n = "if extract_id r = None then Suc n else n"
  have pair: "(case extract_id r of Some s \<Rightarrow> (s, n) | None \<Rightarrow> (uuid n, Suc n)) = (?i, ?n)"
    by (simp add: record_key_def split: option.split)
  have ins: "db_insert db t r (uuid n) = db_insert_locked db t r (uuid n)"
    by (simp add: db_insert_def ensure_table_same [of db t, OF Cons.prems(1)])
  show ?case
  proof (cases "m ?i")
    case None
    let ?m = "m(?i \<mapsto> jmap_insert r ''id'' (JString ?i))"
    have step: "batch_insert_loop uuid ?n rs ?m (affected + 1) = (m', c)"
      using Cons.prems(2) None by (simp only: batch_insert_loop.simps pair) simp
    have "insert_each uuid ?n t rs (db(t \<mapsto> ?m)) (affected + 1) = Some ((db(t \<mapsto> ?m))(t \<mapsto> m'), c)"
      by (rule Cons.IH [OF fun_upd_same step])
    then have "insert_each uuid ?n t rs (db(t \<mapsto> ?m)) (affected + 1) = Some (db(t \<mapsto> m'), c)"
      by (simp only: fun_upd_upd)
    with None Cons.prems(1) show ?thesis by (simp add: ins insert_locked_cases del: fun_upd_apply)
  next
    case (Some v)
    have step: "batch_insert_loop uuid ?n rs m affected = (m', c)"
      using Cons.prems(2) Some by (simp only: batch_insert_loop.simps pair) simp
    from Cons.IH [of db, OF Cons.prems(1) step] Some Cons.prems(1) show ?thesis
      by (simp add: ins insert_locked_cases)
  qed
qed

lemma update_where_loop_result:
  "distinct ks \<Longrightarrow>
   update_where_loop render filters u ks m c =
     ((\<lambda>i. case m i of
            Some r \<Rightarrow> Some (if i \<in> set ks \<and> matches_filters render r filters
                           then jmap_extend r u else r)
          | None \<Rightarrow> None),
      c + of_nat (length (filter (\<lambda>r. matches_filters render r filters) (values_in ks m))))"
proof (induction ks arbitrary: m c)
  case Nil
  then show ?case by (auto simp: fun_eq_iff split: option.split)
next
  case (Cons k ks)
  show ?case
  proof (cases "\<exists>r. m k = Some r \<and> matches_filters render r filters")
    case True
    then obtain r where r: "m k = Some r" "matches_filters render r filters" by blast
    let ?m = "m(k \<mapsto> jmap_extend r u)"
    have vals: "values_in ks ?m = values_in ks m"
      using Cons.prems by (auto intro: values_in_cong)
    from r Cons show ?thesis
      by (auto simp: vals fun_eq_iff split: option.split)
  next
    case False
    with Cons show ?thesis by (auto simp: fun_eq_iff split: option.split)
  qed
qed

lemma remove_all: "foldl (\<lambda>m i. m(i := None)) m is = (\<lambda>i. if i \<in> set is then None else m i)"
  by (induction "is" arbitrary: m) (auto simp: fun_eq_iff)

definition delete_ids ::
  "(json \<Rightarrow> string) \<Rightarrow> table \<Rightarrow> query_params \<Rightarrow> string list \<Rightarrow> string list" where
  "delete_ids render m params ks =
     filter (\<lambda>i. case m i of Some r \<Rightarrow> matches_filters render r (qp_filters params)
                          | None \<Rightarrow> False) ks"

lemma length_delete_ids:
  "length (delete_ids render m params ks) = length (matching_rows render ks m params)"
  by (induction ks) (auto simp: delete_ids_def matching_rows_def split: option.split)

lemma delete_where_table:
  assumes "db t = Some m" "enumerates ks m"
  shows "db_delete_where render ks db t params =
    (Ok (write_result_new (of_nat (length (matching_rows render ks m params)))),
     db(t \<mapsto> (\<lambda>i. case m i of
        Some r \<Rightarrow> if matches_filters render r (qp_filters params) then None else Some r
      | None \<Rightarrow> None)))"
proof -
  have "(\<lambda>i. if i \<in> set (delete_ids render m params ks) then None else m i) =
    (\<lambda>i. case m i of
        Some r \<Rightarrow> if matches_filters render r (qp_filters params) then None else Some r
      | None \<Rightarrow> None)"
    using assms(2) by (auto simp: fun_eq_iff delete_ids_def enumerates_def split: option.split)
  then show ?thesis
    using assms(1) length_delete_ids [of render m params ks]
    by (simp add: db_delete_where_def remove_all delete_ids_def Let_def)
qed

lemma no_matching_rows:
  "(\<And>i r. m i = Some r \<Longrightarrow> \<not> matches_filters render r (qp_filters params)) \<Longrightarrow>
   matching_rows render ks m params = []"
  by (auto simp: matching_rows_def filter_empty_conv set_values_in)

section \<open>Interleaved callers\<close>

text \<open>
  A caller of \<open>insert\<close> or \<open>batch_insert\<close> that has created its table and not yet taken the lock
  again is pending; any other caller may run in between.
\<close>

datatype pending_insert =
    PendingInsert string db_record
  | PendingBatch string "db_record list"

fun pending_table :: "pending_insert \<Rightarrow> string" where
  "pending_table (PendingInsert t _) = t"
| "pending_table (PendingBatch t _) = t"

record db_system =
  sys_db :: memory_database
  sys_pending :: "pending_insert list"

text \<open>The critical sections; \<open>ok\<close> restricts the updates the callers make.\<close>

inductive db_step :: "(json \<Rightarrow> string) \<Rightarrow> (db_record \<Rightarrow> bool) \<Rightarrow> db_system \<Rightarrow> db_system \<Rightarrow> bool"
  for render ok where
  begin_insert:
    "db_step render ok s
       (s\<lparr>sys_db := ensure_table (pending_table p) (sys_db s), sys_pending := p # sys_pending s\<rparr>)"
| finish_insert:
    "PendingInsert t r \<in> set (sys_pending s) \<Longrightarrow>
     db_insert_locked (sys_db s) t r uuid = Some (res, db') \<Longrightarrow>
     db_step render ok s
       (s\<lparr>sys_db := db', sys_pending := remove1 (PendingInsert t r) (sys_pending s)\<rparr>)"
| finish_batch:
    "PendingBatch t rs \<in> set (sys_pending s) \<Longrightarrow>
     db_batch_insert_locked (sys_db s) t rs uuids = Some (res, db') \<Longrightarrow>
     db_step render ok s
       (s\<lparr>sys_db := db', sys_pending := remove1 (PendingBatch t rs) (sys_pending s)\<rparr>)"
| run_update:
    "ok u \<Longrightarrow> db_step render ok s (s\<lparr>sys_db := snd (db_update (sys_db s) t i u)\<rparr>)"
| run_delete:
    "db_step render ok s (s\<lparr>sys_db := snd (db_delete (sys_db s) t i)\<rparr>)"
| run_update_where:
    "ok u \<Longrightarrow> (\<And>m. sys_db s t = Some m \<Longrightarrow> enumerates ks m) \<Longrightarrow>
     db_step render ok s (s\<lparr>sys_db := snd (db_update_where render ks (sys_db s) t params u)\<rparr>)"
| run_delete_where:
    "(\<And>m. sys_db s t = Some m \<Longrightarrow> enumerates ks m) \<Longrightarrow>
     db_step render ok s (s\<lparr>sys_db := snd (db_delete_where render ks (sys_db s) t params)\<rparr>)"

definition db_initial :: "db_system \<Rightarrow> bool" where
  "db_initial s \<longleftrightarrow> (\<exists>ts. sys_db s = db_with_tables ts) \<and> sys_pending s = []"

definition pending_ready :: "db_system \<Rightarrow> bool" where
  "pending_ready s \<longleftrightarrow> pending_table ` set (sys_pending s) \<subseteq> dom (sys_db s)"

text \<open>Every record carries the id it is stored under.\<close>

definition ids_agree :: "memory_database \<Rightarrow> bool" where
  "ids_agree db \<longleftrightarrow>
     (\<forall>t i r. db_lookup db (t, i) = Some r \<longrightarrow> jmap_get r ''id'' = Some (JString i))"

lemma dom_update [simp]: "dom (snd (db_update db t i u)) = dom db"
  using update_refines [of db t i u] by (metis snd_conv)

lemma dom_delete [simp]: "dom (snd (db_delete db t i)) = dom db"
  using delete_refines [of db t i] by (metis snd_conv)

lemma step_dom:
  "db_step render ok s s' \<Longrightarrow> dom (sys_db s) \<subseteq> dom (sys_db s')"
proof (induction rule: db_step.induct)
  case (run_update u s t i)
  show ?case by simp
next
  case (run_delete s t i)
  show ?case by simp
qed (auto simp: db_insert_locked_def db_batch_insert_locked_def db_update_where_def
      db_delete_where_def ensure_table_def Let_def split: option.splits if_splits prod.splits)

lemma step_pending_ready:
  assumes "pending_ready s" "db_step render ok s s'"
  shows "pending_ready s'"
proof -
  have "dom (sys_db s) \<subseteq> dom (sys_db s')" using assms(2) by (rule step_dom)
  moreover have "pending_table ` set (sys_pending s') \<subseteq>
      pending_table ` set (sys_pending s) \<union> dom (sys_db s')"
    using assms(2)
    by (induction rule: db_step.induct) (auto dest: notin_set_remove1 in_set_remove1 [THEN iffD1]
        simp: image_iff intro: set_remove1_subset [THEN subsetD])
  ultimately show ?thesis using assms(1) unfolding pending_ready_def by blast
qed

interpretation db_pending: invariant_machine db_initial "db_step render ok" pending_ready for render ok
  by unfold_locales (simp add: db_initial_def pending_ready_def, rule step_pending_ready)


text \<open>A table all of whose records carry their id.\<close>

definition table_ids :: "table \<Rightarrow> bool" where
  "table_ids m \<longleftrightarrow> (\<forall>i r. m i = Some r \<longrightarrow> jmap_get r ''id'' = Some (JString i))"

lemma ids_agree_tables: "ids_agree db \<longleftrightarrow> (\<forall>t m. db t = Some m \<longrightarrow> table_ids m)"
  by (fastforce simp: ids_agree_def table_ids_def db_lookup_def bind_eq_Some_conv)

lemma table_ids_insert:
  "table_ids m \<Longrightarrow> table_ids (m(i \<mapsto> jmap_insert r ''id'' (JString i)))"
  by (simp add: table_ids_def)

lemma table_ids_batch:
  "table_ids m \<Longrightarrow> table_ids (fst (batch_insert_loop uuid n rs m c))"
  by (induction uuid n rs m c rule: batch_insert_loop.induct)
    (auto simp: table_ids_insert split: prod.splits option.splits)

lemma id_extend:
  assumes "jmap_get u ''id'' = None"
  shows "jmap_get (jmap_extend r u) ''id'' = jmap_get r ''id''"
  by (rule jmap_get_extend_notin) (use assms in \<open>simp add: jmap_get_None_iff\<close>)

lemma ids_agree_upd: "ids_agree db \<Longrightarrow> table_ids m \<Longrightarrow> ids_agree (db(t \<mapsto> m))"
  by (simp add: ids_agree_tables)

lemma ids_agree_ensure: "ids_agree db \<Longrightarrow> ids_agree (ensure_table t db)"
  by (simp add: ids_agree_def)

lemma ids_agree_insert:
  "ids_agree db \<Longrightarrow> db_insert_locked db t r uuid = Some (res, db') \<Longrightarrow> ids_agree db'"
  by (cases "db t")
    (auto simp: db_insert_locked_def Let_def ids_agree_tables table_ids_def split: if_splits option.splits)

lemma ids_agree_batch:
  "ids_agree db \<Longrightarrow> db_batch_insert_locked db t rs uuids = Some (res, db') \<Longrightarrow> ids_agree db'"
  using table_ids_batch [of "the (db t)" uuids 0 rs 0]
  by (cases "db t")
    (auto simp: db_batch_insert_locked_def ids_agree_tables split: prod.splits if_splits)

lemma ids_agree_update:
  assumes "ids_agree db" "jmap_get u ''id'' = None"
  shows "ids_agree (snd (db_update db t i u))"
  using update_refines [of db t i u] assms
  by (auto simp: ids_agree_def spec_update_def id_extend split: option.splits if_splits)

lemma ids_agree_delete: "ids_agree db \<Longrightarrow> ids_agree (snd (db_delete db t i))"
  using delete_refines [of db t i] by (auto simp: ids_agree_def split: if_splits)

lemma ids_agree_update_where:
  assumes "ids_agree db" "jmap_get u ''id'' = None" "\<And>m. db t = Some m \<Longrightarrow> enumerates ks m"
  shows "ids_agree (snd (db_update_where render ks db t params u))"
proof (cases "db t")
  case None
  with assms(1) show ?thesis by (simp add: db_update_where_def)
next
  case (Some m)
  with assms have "distinct ks" "table_ids m" by (auto simp: enumerates_def ids_agree_tables)
  with Some assms(1,2) show ?thesis
    by (auto simp: db_update_where_def update_where_loop_result table_ids_def id_extend
        intro!: ids_agree_upd split: option.splits)
qed

lemma ids_agree_delete_where:
  assumes "ids_agree db" "\<And>m. db t = Some m \<Longrightarrow> enumerates ks m"
  shows "ids_agree (snd (db_delete_where render ks db t params))"
proof (cases "db t")
  case None
  with assms(1) show ?thesis by (simp add: db_delete_where_def)
next
  case (Some m)
  with assms show ?thesis
    by (auto simp: delete_where_table ids_agree_tables table_ids_def split: option.splits if_splits)
qed

lemma ids_agree_initial: "ids_agree (db_with_tables ts)"
proof -
  have all: "ids_agree (foldl (\<lambda>m t. m(t \<mapsto> Map.empty)) db ts)" if "ids_agree db" for db
    using that by (induction ts arbitrary: db) (simp_all add: ids_agree_upd table_ids_def)
  show ?thesis unfolding db_with_tables_def by (rule all) (simp add: ids_agree_tables)
qed

interpretation db_ids: invariant_machine db_initial
  "db_step render (\<lambda>u. jmap_get u ''id'' = None)" "\<lambda>s. ids_agree (sys_db s)" for render
proof unfold_locales
  show "ids_agree (sys_db s)" if "db_initial s" for s
    using that by (auto simp: db_initial_def ids_agree_initial)
  show "ids_agree (sys_db s')"
    if "ids_agree (sys_db s)" "db_step render (\<lambda>u. jmap_get u ''id'' = None) s s'" for s s'
    using that(2,1)
    by (induction rule: db_step.induct)
      (auto intro: ids_agree_ensure ids_agree_insert ids_agree_batch ids_agree_update
        ids_agree_delete ids_agree_update_where ids_agree_delete_where)
qed

section \<open>Filter keys\<close>

lemma parse_filter_key_suffix [simp]:
  "parse_filter_key (f @ ''__gte'') = (f, ''gte'')"
  "parse_filter_key (f @ ''__lte'') = (f, ''lte'')"
  "parse_filter_key (f @ ''__gt'') = (f, ''gt'')"
  "parse_filter_key (f @ ''__lt'') = (f, ''lt'')"
  "parse_filter_key (f @ ''__like'') = (f, ''like'')"
  "parse_filter_key (f @ ''__in'') = (f, ''in'')"
proof -
  have other: "strip_suffix (f @ p) q = None"
    if "length p = length q \<and> p \<noteq> q \<or> last p \<noteq> last q \<or> last (butlast p) \<noteq> last (butlast q)"
      "1 < length p" "1 < length q" for p q
  proof (cases "strip_suffix (f @ p) q")
    case (Some t)
    then have eq: "f @ p = t @ q" by (simp add: strip_suffix_Some_iff)
    have "p \<noteq> []" "q \<noteq> []" "butlast p \<noteq> []" "butlast q \<noteq> []"
      using that(2,3) by (auto simp flip: length_greater_0_conv)
    with arg_cong [OF eq, of last] arg_cong [OF eq, of "\<lambda>s. last (butlast s)"]
    have "last p = last q" "last (butlast p) = last (butlast q)"
      by (simp_all add: butlast_append)
    with that(1) eq show ?thesis by simp
  qed simp
  show "parse_filter_key (f @ ''__gte'') = (f, ''gte'')"
    "parse_filter_key (f @ ''__lte'') = (f, ''lte'')"
    "parse_filter_key (f @ ''__gt'') = (f, ''gt'')"
    "parse_filter_key (f @ ''__lt'') = (f, ''lt'')"
    "parse_filter_key (f @ ''__like'') = (f, ''like'')"
    "parse_filter_key (f @ ''__in'') = (f, ''in'')"
    by (simp_all add: parse_filter_key_def filter_suffixes_def other)
qed

lemma range_condition:
  assumes "column_number f r"
  shows "matches_filter_condition render (jmap_get r f) ''gte'' (JNumber lo) \<longleftrightarrow>
      numeric_key (Some (JNumber lo)) \<le> numeric_key (jmap_get r f)"
    and "matches_filter_condition render (jmap_get r f) ''lte'' (JNumber lo) \<longleftrightarrow>
      numeric_key (jmap_get r f) \<le> numeric_key (Some (JNumber lo))"
proof -
  from assms obtain n where n: "jmap_get r f = Some (JNumber n)"
    by (auto simp: column_number_def split: option.splits elim!: is_number.elims)
  have "compare_values render (Some (JNumber n)) (Some (JNumber lo)) =
      cmp_ord (numeric_key (Some (JNumber n))) (numeric_key (Some (JNumber lo)))"
    using compare_numbers [of f "[(f, JNumber n)]" "[(f, JNumber lo)]" render]
    by (simp add: column_number_def)
  then show "matches_filter_condition render (jmap_get r f) ''gte'' (JNumber lo) \<longleftrightarrow>
      numeric_key (Some (JNumber lo)) \<le> numeric_key (jmap_get r f)"
    and "matches_filter_condition render (jmap_get r f) ''lte'' (JNumber lo) \<longleftrightarrow>
      numeric_key (jmap_get r f) \<le> numeric_key (Some (JNumber lo))"
    by (simp_all add: n matches_filter_condition_def Let_def not_less del: numeric_key.simps)
qed

section \<open>Properties\<close>

text \<open>
  C1: a query ordered by a column whose present values are all numbers, or all without numbers,
  returns: the page cut out of the matching rows of the table, sorted by that column in the
  requested direction with missing and null values last, rows that compare equal in the order
  they were found, each row reduced to the selected fields.
\<close>

theorem query_sorted:
  assumes "db t = Some m" and "qp_order_by params = Some f"
    and "sortable_column f (matching_rows render ks m params)"
  shows "\<exists>sorted.
    db_query render ks db t params =
      Some (Ok (map (\<lambda>r. select_fields r (qp_select params)) (page_of params sorted))) \<and>
    mset sorted = mset (matching_rows render ks m params) \<and>
    sorted_wrt (precedes render f (qp_order_desc params)) sorted \<and>
    (\<forall>r \<in> set (matching_rows render ks m params).
       filter (tied render f r) sorted = filter (tied render f r) (matching_rows render ks m params))"
  using sortable_ordered [OF assms(3), of render "qp_order_desc params"] assms(1,2)
  by (auto simp: db_query_def apply_pagination_page matching_rows_def)

definition demo_rows :: table where
  "demo_rows =
     [''a'' \<mapsto> [(''id'', JString ''a''), (''n'', JNumber (PosInt 2))],
      ''b'' \<mapsto> [(''id'', JString ''b''), (''n'', JNumber (PosInt 1))],
      ''c'' \<mapsto> [(''id'', JString ''c'')]]"

definition demo_params :: query_params where
  "demo_params = qp_paginate 0 2 (qp_sort ''n'' False query_params_new)"

lemma enumerates_demo_rows:
  "enumerates ks demo_rows \<longleftrightarrow> distinct ks \<and> set ks = {''a'', ''b'', ''c''}"
proof -
  have "dom demo_rows = {''a'', ''b'', ''c''}" by (simp add: demo_rows_def insert_commute)
  then show ?thesis by (simp add: enumerates_def)
qed

lemma demo_matching:
  "matching_rows render [''a'', ''b'', ''c''] demo_rows demo_params =
    [[(''id'', JString ''a''), (''n'', JNumber (PosInt 2))],
     [(''id'', JString ''b''), (''n'', JNumber (PosInt 1))], [(''id'', JString ''c'')]]"
  by (simp add: matching_rows_def demo_rows_def demo_params_def qp_paginate_def qp_sort_def
      query_params_new_def)

theorem query_sorted_witness:
  "\<exists>sorted.
    db_query (\<lambda>_. '''') [''a'', ''b'', ''c''] [''t'' \<mapsto> demo_rows] ''t'' demo_params =
      Some (Ok (map (\<lambda>r. select_fields r (qp_select demo_params)) (page_of demo_params sorted))) \<and>
    mset sorted = mset (matching_rows (\<lambda>_. '''') [''a'', ''b'', ''c''] demo_rows demo_params) \<and>
    sorted_wrt (precedes (\<lambda>_. '''') ''n'' (qp_order_desc demo_params)) sorted \<and>
    (\<forall>r \<in> set (matching_rows (\<lambda>_. '''') [''a'', ''b'', ''c''] demo_rows demo_params).
       filter (tied (\<lambda>_. '''') ''n'' r) sorted =
       filter (tied (\<lambda>_. '''') ''n'' r) (matching_rows (\<lambda>_. '''') [''a'', ''b'', ''c''] demo_rows demo_params))"
proof (rule query_sorted)
  show "[''t'' \<mapsto> demo_rows] ''t'' = Some demo_rows" by simp
  show "qp_order_by demo_params = Some ''n''"
    by (simp add: demo_params_def qp_paginate_def qp_sort_def)
  show "sortable_column ''n'' (matching_rows (\<lambda>_. '''') [''a'', ''b'', ''c''] demo_rows demo_params)"
    by (simp add: demo_matching sortable_column_def column_missing_def column_number_def
        null_or_missing_def)
qed

text \<open>
  every single-record write is the corresponding write of one keyed store. \<open>insert\<close> never
  panics; it stores the record under its own string id or a fresh one, with the field \<open>id\<close> set
  to that key, or reports a conflict and changes no record. \<open>update\<close> and \<open>delete\<close> change
  exactly the named record; reads see that store.
\<close>

theorem writes_refine_store:
  "(\<exists>res db'. db_insert db t r uuid = Some (res, db') \<and>
      (res, db_lookup db') = spec_insert (db_lookup db) t (record_key r uuid) r) \<and>
   fst (db_update db t i u) = spec_update_result (dom db) (db_lookup db) t i \<and>
   db_lookup (snd (db_update db t i u)) = spec_update (db_lookup db) t i u \<and>
   fst (db_delete db t i) = spec_delete_result (dom db) (db_lookup db) t i \<and>
   db_lookup (snd (db_delete db t i)) = (db_lookup db)((t, i) := None) \<and>
   db_get_by_id db t i = Ok (db_lookup db (t, i)) \<and>
   db_exists db t i = Ok (db_lookup db (t, i) \<noteq> None)"
proof -
  have "\<exists>res db'. db_insert db t r uuid = Some (res, db') \<and>
      (res, db_lookup db') = spec_insert (db_lookup db) t (record_key r uuid) r"
    using insert_refines by blast
  moreover have "fst (db_update db t i u) = spec_update_result (dom db) (db_lookup db) t i"
    "db_lookup (snd (db_update db t i u)) = spec_update (db_lookup db) t i u"
    using update_refines [of db t i u] by (metis fst_conv, metis snd_conv)
  moreover have "fst (db_delete db t i) = spec_delete_result (dom db) (db_lookup db) t i"
    "db_lookup (snd (db_delete db t i)) = (db_lookup db)((t, i) := None)"
    using delete_refines [of db t i] by (metis fst_conv, metis snd_conv)
  ultimately show ?thesis using get_by_id_lookup exists_lookup by blast
qed

text \<open>
  inserting under a key that is free succeeds, and inserting any record with the same key
  again is a conflict that leaves every record as it was.
\<close>

theorem insert_twice_conflicts:
  assumes "db_lookup db (t, record_key r u) = None" and "record_key r2 u2 = record_key r u"
  shows "\<exists>db1 db2. db_insert db t r u = Some (Ok (write_result_inserted (record_key r u)), db1) \<and>
    db_insert db1 t r2 u2 = Some (Err (Conflict (conflict_text (record_key r u) t)), db2) \<and>
    db_lookup db2 = db_lookup db1"
  using assms by (rule memory_db.insert_twice)

theorem insert_twice_conflicts_witness:
  "\<exists>db1 db2. db_insert db_new ''t'' [(''id'', JString ''a'')] ''u'' =
      Some (Ok (write_result_inserted (record_key [(''id'', JString ''a'')] ''u'')), db1) \<and>
    db_insert db1 ''t'' [(''_id'', JString ''a'')] ''v'' =
      Some (Err (Conflict (conflict_text (record_key [(''id'', JString ''a'')] ''u'') ''t'')), db2) \<and>
    db_lookup db2 = db_lookup db1"
  by (rule insert_twice_conflicts)
    (simp_all add: db_lookup_def db_new_def record_key_def extract_id_def)

text \<open>inserting a record under a free key and deleting that key restores every record.\<close>

theorem insert_delete_restores:
  assumes "db_lookup db (t, record_key r u) = None"
  shows "\<exists>db1 db2. db_insert db t r u = Some (Ok (write_result_inserted (record_key r u)), db1) \<and>
    db_delete db1 t (record_key r u) = (Ok (write_result_new 1), db2) \<and> db_lookup db2 = db_lookup db"
  using assms by (rule memory_db.insert_delete)

theorem insert_delete_restores_witness:
  "\<exists>db1 db2. db_insert [''t'' \<mapsto> demo_rows] ''t'' [] ''u'' =
      Some (Ok (write_result_inserted (record_key [] ''u'')), db1) \<and>
    db_delete db1 ''t'' (record_key [] ''u'') = (Ok (write_result_new 1), db2) \<and>
    db_lookup db2 = db_lookup [''t'' \<mapsto> demo_rows]"
  by (rule insert_delete_restores)
    (simp add: db_lookup_def demo_rows_def record_key_def extract_id_def)

text \<open>
  a batch insert is the same as inserting the records one at a time in their order, except
  that conflicts are skipped and counted out instead of reported; it never panics.
\<close>

theorem batch_insert_equals_inserts:
  "\<exists>db' n. insert_each uuid 0 t rs (ensure_table t db) 0 = Some (db', n) \<and>
     db_batch_insert db t rs uuid = Some (Ok (write_result_new n), db')"
proof -
  obtain m where m: "ensure_table t db t = Some m" using ensure_table_Some by blast
  obtain m' c where loop: "batch_insert_loop uuid 0 rs m 0 = (m', c)" by fastforce
  from batch_loop_each [of "ensure_table t db", OF m loop] m loop show ?thesis
    by (simp add: db_batch_insert_def db_batch_insert_locked_def)
qed

text \<open>
  C13: \<open>delete_where\<close> reports as many rows as a count with the same filters gave before, leaves
  no row for which they hold (the count is 0 afterwards, in whatever order the map is iterated)
  and keeps every other row.
\<close>

theorem delete_where_exact:
  assumes "db t = Some m" and "enumerates ks m" and "enumerates ls m"
  shows "\<exists>n db'. db_delete_where render ks db t params = (Ok (write_result_new n), db') \<and>
    db_count render ls db t params = Ok n \<and>
    db_count render qs db' t params = Ok 0 \<and>
    (\<forall>i r. db_lookup db' (t, i) = Some r \<longleftrightarrow>
       db_lookup db (t, i) = Some r \<and> \<not> matches_filters render r (qp_filters params))"
proof -
  let ?m = "\<lambda>i. case m i of
        Some r \<Rightarrow> if matches_filters render r (qp_filters params) then None else Some r
      | None \<Rightarrow> None"
  have none: "matching_rows render qs ?m params = []"
    by (rule no_matching_rows) (auto split: option.splits if_splits)
  have len: "length (matching_rows render ls m params) = length (matching_rows render ks m params)"
    using assms(2,3) by (intro length_matching_rows)
  show ?thesis
    using assms(1) none len
    by (auto simp: delete_where_table [of db, OF assms(1,2)] db_count_matching db_lookup_def
        split: option.splits)
qed

theorem delete_where_exact_witness:
  "\<exists>n db'. db_delete_where (\<lambda>_. '''') [''b'', ''a'', ''c''] [''t'' \<mapsto> demo_rows] ''t'' demo_params =
      (Ok (write_result_new n), db') \<and>
    db_count (\<lambda>_. '''') [''a'', ''b'', ''c''] [''t'' \<mapsto> demo_rows] ''t'' demo_params = Ok n \<and>
    db_count (\<lambda>_. '''') [] db' ''t'' demo_params = Ok 0 \<and>
    (\<forall>i r. db_lookup db' (''t'', i) = Some r \<longleftrightarrow>
       db_lookup [''t'' \<mapsto> demo_rows] (''t'', i) = Some r \<and>
       \<not> matches_filters (\<lambda>_. '''') r (qp_filters demo_params))"
  by (rule delete_where_exact) (auto simp: enumerates_demo_rows)

text \<open>
  \<open>update_where\<close> merges the updates into exactly the rows the filters select, counts those
  rows, and depends neither on the order the table is iterated in nor on the order of the filters.
\<close>

theorem update_where_exact:
  assumes "db t = Some m" and "enumerates ks m"
    and "set (qp_filters params') = set (qp_filters params)"
  shows "\<exists>db'. db_update_where render ks db t params' u =
      (Ok (write_result_new (of_nat (length (matching_rows render ks m params)))), db') \<and>
    (\<forall>i. db_lookup db' (t, i) =
       (case m i of
          Some r \<Rightarrow> Some (if matches_filters render r (qp_filters params)
                         then jmap_extend r u else r)
        | None \<Rightarrow> None)) \<and>
    (\<forall>t' i. t' \<noteq> t \<longrightarrow> db_lookup db' (t', i) = db_lookup db (t', i))"
proof -
  have eq: "matches_filters render r (qp_filters params') = matches_filters render r (qp_filters params)"
    for r
    using assms(3) by (rule matches_filters_set)
  have "distinct ks" and "m i = Some r \<Longrightarrow> i \<in> set ks" for i r
    using assms(2) by (auto simp: enumerates_def)
  with assms(1) show ?thesis
    by (auto simp: db_update_where_def update_where_loop_result matching_rows_def db_lookup_def eq
        split: option.split)
qed

theorem update_where_exact_witness:
  "\<exists>db'. db_update_where (\<lambda>_. '''') [''c'', ''a'', ''b''] [''t'' \<mapsto> demo_rows] ''t'' query_params_new [] =
      (Ok (write_result_new (of_nat (length
        (matching_rows (\<lambda>_. '''') [''c'', ''a'', ''b''] demo_rows demo_params)))), db') \<and>
    (\<forall>i. db_lookup db' (''t'', i) =
       (case demo_rows i of
          Some r \<Rightarrow> Some (if matches_filters (\<lambda>_. '''') r (qp_filters demo_params)
                         then jmap_extend r [] else r)
        | None \<Rightarrow> None)) \<and>
    (\<forall>t' i. t' \<noteq> ''t'' \<longrightarrow>
       db_lookup db' (t', i) = db_lookup [''t'' \<mapsto> demo_rows] (t', i))"
  by (rule update_where_exact)
    (auto simp: enumerates_demo_rows demo_params_def query_params_new_def qp_paginate_def
      qp_sort_def)

text \<open>
  an update merges field by field. A read of the updated record gives, for each field, the
  new value where the update has one and the old value elsewhere.
\<close>

theorem update_merges_fields:
  assumes "db_lookup db (t, i) = Some r" and "distinct (map fst u)"
  shows "\<exists>db' r'. db_update db t i u = (Ok (write_result_new 1), db') \<and>
    db_get_by_id db' t i = Ok (Some r') \<and>
    (\<forall>f. jmap_get r' f = (case jmap_get u f of Some v \<Rightarrow> Some v | None \<Rightarrow> jmap_get r f))"
proof -
  have "t \<in> dom db" using assms(1) by (auto simp: db_lookup_def bind_eq_Some_conv)
  with update_refines [of db t i u] assms show ?thesis
    by (auto simp: spec_update_result_def spec_update_def get_by_id_lookup jmap_get_extend)
qed

theorem update_merges_fields_witness:
  "\<exists>db' r'. db_update [''t'' \<mapsto> demo_rows] ''t'' ''a'' [(''n'', JNull)] = (Ok (write_result_new 1), db') \<and>
    db_get_by_id db' ''t'' ''a'' = Ok (Some r') \<and>
    (\<forall>f. jmap_get r' f = (case jmap_get [(''n'', JNull)] f of Some v \<Rightarrow> Some v
       | None \<Rightarrow> jmap_get [(''id'', JString ''a''), (''n'', JNumber (PosInt 2))] f))"
  by (rule update_merges_fields) (simp_all add: db_lookup_def demo_rows_def)

text \<open>
  no interleaving of any number of callers makes the \<open>unwrap\<close> inside \<open>insert\<close> or
  \<open>batch_insert\<close> panic: between creating the table and taking the lock again, nothing removes
  the table.
\<close>

theorem inserts_never_panic:
  assumes "db_initial s" and "(db_step render ok)\<^sup>*\<^sup>* s s'"
  shows "(PendingInsert t r \<in> set (sys_pending s') \<longrightarrow>
      db_insert_locked (sys_db s') t r uuid \<noteq> None) \<and>
    (PendingBatch t rs \<in> set (sys_pending s') \<longrightarrow>
      db_batch_insert_locked (sys_db s') t rs uuids \<noteq> None)"
proof -
  have "pending_ready s'" using assms by (rule db_pending.reachable_inv)
  then have "pending_table p \<in> dom (sys_db s')" if "p \<in> set (sys_pending s')" for p
    using that unfolding pending_ready_def by blast
  then show ?thesis
    by (fastforce simp: db_insert_locked_def db_batch_insert_locked_def Let_def split: prod.split)
qed

definition one_pending :: db_system where
  "one_pending = \<lparr>sys_db = ensure_table ''t'' db_new, sys_pending = [PendingInsert ''t'' []]\<rparr>"

lemma one_pending_reached:
  "db_initial \<lparr>sys_db = db_new, sys_pending = []\<rparr>"
  "(db_step render ok)\<^sup>*\<^sup>* \<lparr>sys_db = db_new, sys_pending = []\<rparr> one_pending"
proof -
  show "db_initial \<lparr>sys_db = db_new, sys_pending = []\<rparr>"
    by (auto simp: db_initial_def db_new_def db_with_tables_def intro: exI [of _ "[]"])
  show "(db_step render ok)\<^sup>*\<^sup>* \<lparr>sys_db = db_new, sys_pending = []\<rparr> one_pending"
    using begin_insert [of render ok "\<lparr>sys_db = db_new, sys_pending = []\<rparr>" "PendingInsert ''t'' []"]
    by (simp add: one_pending_def r_into_rtranclp)
qed

theorem inserts_never_panic_witness:
  "db_insert_locked (sys_db one_pending) ''t'' [] ''u'' \<noteq> None"
  using inserts_never_panic [OF one_pending_reached, of "''t''" "[]" "''u''"]
  by (simp add: one_pending_def)



text \<open>
  a pair of filters \<open>f__gte\<close> and \<open>f__lte\<close> with numeric bounds selects, among the
  records whose field is a number, exactly those between the bounds as doubles, whatever the
  field name contains.
\<close>

theorem range_filter:
  assumes "column_number f r"
  shows "matches_filters render r [(f @ ''__gte'', JNumber lo), (f @ ''__lte'', JNumber hi)] \<longleftrightarrow>
    numeric_key (Some (JNumber lo)) \<le> numeric_key (jmap_get r f) \<and>
    numeric_key (jmap_get r f) \<le> numeric_key (Some (JNumber hi))"
  using range_condition [OF assms] by (simp del: numeric_key.simps)

theorem range_filter_witness:
  "matches_filters (\<lambda>_. '''') [(''n__gt'', JNumber (PosInt 3))]
      [(''n__gt'' @ ''__gte'', JNumber (PosInt 2)), (''n__gt'' @ ''__lte'', JNumber (PosInt 5))] \<longleftrightarrow>
    numeric_key (Some (JNumber (PosInt 2))) \<le>
      numeric_key (jmap_get [(''n__gt'', JNumber (PosInt 3))] ''n__gt'') \<and>
    numeric_key (jmap_get [(''n__gt'', JNumber (PosInt 3))] ''n__gt'') \<le>
      numeric_key (Some (JNumber (PosInt 5)))"
  by (rule range_filter) (simp add: column_number_def)

section \<open>Columns that mix numbers and strings\<close>

definition mixed_row :: "string \<Rightarrow> json \<Rightarrow> db_record" where
  "mixed_row i v = [(''id'', JString i), (''n'', v)]"

definition mixed_rows :: table where
  "mixed_rows =
     [''a'' \<mapsto> mixed_row ''a'' (JNumber (PosInt 10)), ''b'' \<mapsto> mixed_row ''b'' (JString ''5''),
      ''c'' \<mapsto> mixed_row ''c'' (JNumber (PosInt 9))]"

lemma number_of_small:
  "unat n < 2 ^ 53 \<Longrightarrow> number_as_f64 (PosInt n) = Fin (of_nat (unat n))"
  by (simp add: f64_of_u64_exact)

lemma not_total_on_list:
  assumes "{x, y, z} \<subseteq> set xs" "c x y \<noteq> Greater" "c y z \<noteq> Greater" "c x z = Greater"
  shows "\<not> total_on_list c xs"
proof
  assume "total_on_list c xs"
  then have "\<forall>x \<in> set xs. \<forall>y \<in> set xs. \<forall>z \<in> set xs.
      c x y \<noteq> Greater \<longrightarrow> c y z \<noteq> Greater \<longrightarrow> c x z \<noteq> Greater"
    unfolding total_on_list_def list_all_iff by (rule conjunct2)
  with assms show False by blast
qed

lemma mixed_cycle:
  assumes "render (JNumber (PosInt 10)) = ''10''" and "render (JNumber (PosInt 9)) = ''9''"
  shows "order_cmp render ''n'' False (mixed_row ''a'' (JNumber (PosInt 10))) (mixed_row ''b'' (JString ''5'')) = Less"
    and "order_cmp render ''n'' False (mixed_row ''b'' (JString ''5'')) (mixed_row ''c'' (JNumber (PosInt 9))) = Less"
    and "order_cmp render ''n'' False (mixed_row ''a'' (JNumber (PosInt 10))) (mixed_row ''c'' (JNumber (PosInt 9))) = Greater"
  using number_of_small [of 10] number_of_small [of 9]
  by (simp_all add: order_cmp_def mixed_row_def null_or_missing_def compare_values_def
      comparison_text_def assms less_char_def)

text \<open>
  C18: on a column that mixes numbers and strings the comparison is not an order: 10 comes before
  the string 5, which comes before 9, which comes before 10. With \<open>serde_json\<close> printing
  integers in decimal, a query over these three rows calls \<open>sort_by\<close> outside its contract,
  whatever the hash map's iteration order: the result is unspecified and may be a panic.
\<close>

theorem mixed_order_by_unspecified:
  assumes "render (JNumber (PosInt 10)) = ''10''" and "render (JNumber (PosInt 9)) = ''9''"
    and "enumerates ks mixed_rows"
  shows "db_query render ks [''t'' \<mapsto> mixed_rows] ''t'' (qp_sort ''n'' False query_params_new) = None"
proof -
  have "set (values_in ks mixed_rows) =
      {mixed_row ''a'' (JNumber (PosInt 10)), mixed_row ''b'' (JString ''5''),
       mixed_row ''c'' (JNumber (PosInt 9))}"
  proof -
    have "set ks = {''a'', ''b'', ''c''}"
      using assms(3) by (simp add: enumerates_def mixed_rows_def insert_commute)
    then show ?thesis by (auto simp: set_values_in mixed_rows_def)
  qed
  then have "\<not> total_on_list (order_cmp render ''n'' False) (values_in ks mixed_rows)"
    using mixed_cycle [OF assms(1,2)] by (intro not_total_on_list) auto
  then show ?thesis
    by (simp add: db_query_def apply_pagination_def qp_sort_def query_params_new_def sort_by_def)
qed

theorem mixed_order_by_unspecified_witness:
  "db_query (\<lambda>v. if v = JNumber (PosInt 10) then ''10'' else ''9'') [''a'', ''b'', ''c'']
     [''t'' \<mapsto> mixed_rows] ''t'' (qp_sort ''n'' False query_params_new) = None"
  by (rule mixed_order_by_unspecified)
    (simp_all add: enumerates_def mixed_rows_def insert_commute)

end
