(* ===== verification/PaymentApi.thy ===== *)
theory PaymentApi
  imports GatewayTypes
begin

text \<open>
  \<open>api/payment.rs\<close>: providers, money, payments, refunds, customers and payment methods with
  their constructors and builders. Random identifiers and the current time are arguments. The
  lemmas show when converting money to a decimal and back is exact, and what \<open>Display\<close> prints.
\<close>

section \<open>Configuration and money\<close>

datatype payment_provider = Mock | Stripe | PayPal | Square | Braintree

definition payment_provider_default :: payment_provider where
  "payment_provider_default = Mock"

datatype currency = Usd | Eur | Gbp | Cad | Aud | Jpy | Cny | Inr | Brl | Mxn

definition currency_default :: currency where
  "currency_default = Usd"

fun currency_display :: "currency \<Rightarrow> string" where
  "currency_display Usd = ''USD''"
| "currency_display Eur = ''EUR''"
| "currency_display Gbp = ''GBP''"
| "currency_display Cad = ''CAD''"
| "currency_display Aud = ''AUD''"
| "currency_display Jpy = ''JPY''"
| "currency_display Cny = ''CNY''"
| "currency_display Inr = ''INR''"
| "currency_display Brl = ''BRL''"
| "currency_display Mxn = ''MXN''"

record payment_config =
  pc_provider :: payment_provider
  pc_api_key :: "string option"
  pc_secret_key :: "string option"
  pc_webhook_secret :: "string option"
  pc_sandbox :: bool
  pc_default_currency :: currency
  pc_options :: "string \<rightharpoonup> string"

definition payment_config_default :: payment_config where
  "payment_config_default =
     \<lparr>pc_provider = Mock, pc_api_key = None, pc_secret_key = None, pc_webhook_secret = None,
      pc_sandbox = True, pc_default_currency = Usd, pc_options = Map.empty\<rparr>"

definition payment_config_mock :: payment_config where
  "payment_config_mock = payment_config_default"

definition payment_config_stripe :: "string \<Rightarrow> payment_config" where
  "payment_config_stripe secret_key =
     payment_config_default\<lparr>pc_provider := Stripe, pc_secret_key := Some secret_key\<rparr>"

record money =
  money_amount :: i64
  money_currency :: currency

definition money_new :: "i64 \<Rightarrow> currency \<Rightarrow> money" where
  "money_new amount c = \<lparr>money_amount = amount, money_currency = c\<rparr>"

definition money_usd :: "i64 \<Rightarrow> money" where
  "money_usd cents = money_new cents Usd"

definition money_eur :: "i64 \<Rightarrow> money" where
  "money_eur cents = money_new cents Eur"

definition money_from_decimal :: "f64 \<Rightarrow> currency \<Rightarrow> money" where
  "money_from_decimal amount c =
     \<lparr>money_amount = f64_to_i64 (round_half_away (mul_f64 amount (Fin 100))), money_currency = c\<rparr>"

definition money_to_decimal :: "money \<Rightarrow> f64" where
  "money_to_decimal m = div_f64_const (f64_of_int (sint (money_amount m))) 100"

definition money_is_zero :: "money \<Rightarrow> bool" where
  "money_is_zero m \<longleftrightarrow> money_amount m = 0"

definition money_is_positive :: "money \<Rightarrow> bool" where
  "money_is_positive m \<longleftrightarrow> 0 < sint (money_amount m)"

text \<open>
  \<open>{:.2}\<close> prints the exact value of the double, rounded to two digits, half to even. Only
  finite values occur here.
\<close>

definition show_cents :: "nat \<Rightarrow> string" where
  "show_cents n =
     show_nat (n div 100) @ ''.'' @ show_nat (n mod 100 div 10) @ show_nat (n mod 10)"

fun format_fixed2 :: "f64 \<Rightarrow> string" where
  "format_fixed2 (Fin q) =
     (if q < 0 then ''-'' else '''') @ show_cents (nat (round_even (\<bar>q\<bar> * 100)))"
| "format_fixed2 PosInf = ''inf''"
| "format_fixed2 NegInf = ''-inf''"
| "format_fixed2 NaN = ''NaN''"

definition money_display :: "money \<Rightarrow> string" where
  "money_display m =
     format_fixed2 (money_to_decimal m) @ '' '' @ currency_display (money_currency m)"

section \<open>Payments\<close>

record payment =
  pay_id :: string
  pay_amount :: money
  pay_description :: "string option"
  pay_customer_id :: "string option"
  pay_payment_method_id :: "string option"
  pay_statement_descriptor :: "string option"
  pay_metadata :: "string \<rightharpoonup> string"
  pay_idempotency_key :: "string option"

definition payment_new :: "string \<Rightarrow> money \<Rightarrow> payment" where
  "payment_new uuid amount =
     \<lparr>pay_id = uuid, pay_amount = amount, pay_description = None, pay_customer_id = None,
      pay_payment_method_id = None, pay_statement_descriptor = None, pay_metadata = Map.empty,
      pay_idempotency_key = None\<rparr>"

definition payment_with_description :: "string \<Rightarrow> payment \<Rightarrow> payment" where
  "payment_with_description d p = p\<lparr>pay_description := Some d\<rparr>"

definition payment_with_customer :: "string \<Rightarrow> payment \<Rightarrow> payment" where
  "payment_with_customer c p = p\<lparr>pay_customer_id := Some c\<rparr>"

definition payment_with_payment_method :: "string \<Rightarrow> payment \<Rightarrow> payment" where
  "payment_with_payment_method i p = p\<lparr>pay_payment_method_id := Some i\<rparr>"

definition payment_with_metadata :: "string \<Rightarrow> string \<Rightarrow> payment \<Rightarrow> payment" where
  "payment_with_metadata k v p = p\<lparr>pay_metadata := (pay_metadata p)(k \<mapsto> v)\<rparr>"

definition payment_with_idempotency_key :: "string \<Rightarrow> payment \<Rightarrow> payment" where
  "payment_with_idempotency_key k p = p\<lparr>pay_idempotency_key := Some k\<rparr>"

datatype payment_status =
    Pending | RequiresAction | Processing | Succeeded | Failed | Canceled | Refunded
  | PartiallyRefunded

record payment_result =
  pres_payment_id :: string
  pres_provider_id :: "string option"
  pres_status :: payment_status
  pres_amount :: money
  pres_fee :: "money option"
  pres_net_amount :: "money option"
  pres_error_message :: "string option"
  pres_error_code :: "string option"
  pres_created_at :: timestamp
  pres_metadata :: "string \<rightharpoonup> string"

definition payment_result_success ::
  "timestamp \<Rightarrow> string \<Rightarrow> string \<Rightarrow> money \<Rightarrow> payment_result" where
  "payment_result_success now payment_id provider_id amount =
     \<lparr>pres_payment_id = payment_id, pres_provider_id = Some provider_id,
      pres_status = Succeeded, pres_amount = amount, pres_fee = None, pres_net_amount = None,
      pres_error_message = None, pres_error_code = None, pres_created_at = now,
      pres_metadata = Map.empty\<rparr>"

definition payment_result_failed :: "timestamp \<Rightarrow> string \<Rightarrow> string \<Rightarrow> payment_result" where
  "payment_result_failed now payment_id error_message =
     \<lparr>pres_payment_id = payment_id, pres_provider_id = None,
      pres_status = Failed, pres_amount = money_usd 0, pres_fee = None, pres_net_amount = None,
      pres_error_message = Some error_message, pres_error_code = None, pres_created_at = now,
      pres_metadata = Map.empty\<rparr>"

definition payment_result_pending :: "timestamp \<Rightarrow> string \<Rightarrow> money \<Rightarrow> payment_result" where
  "payment_result_pending now payment_id amount =
     \<lparr>pres_payment_id = payment_id, pres_provider_id = None,
      pres_status = Pending, pres_amount = amount, pres_fee = None, pres_net_amount = None,
      pres_error_message = None, pres_error_code = None, pres_created_at = now,
      pres_metadata = Map.empty\<rparr>"

section \<open>Refunds\<close>

datatype refund_reason = Duplicate | Fraudulent | CustomerRequest | Other

record refund =
  ref_id :: string
  ref_payment_id :: string
  ref_amount :: "money option"
  ref_reason :: "refund_reason option"
  ref_description :: "string option"
  ref_metadata :: "string \<rightharpoonup> string"

definition refund_full :: "string \<Rightarrow> string \<Rightarrow> refund" where
  "refund_full uuid payment_id =
     \<lparr>ref_id = uuid, ref_payment_id = payment_id, ref_amount = None, ref_reason = None,
      ref_description = None, ref_metadata = Map.empty\<rparr>"

definition refund_partial :: "string \<Rightarrow> string \<Rightarrow> money \<Rightarrow> refund" where
  "refund_partial uuid payment_id amount =
     \<lparr>ref_id = uuid, ref_payment_id = payment_id, ref_amount = Some amount, ref_reason = None,
      ref_description = None, ref_metadata = Map.empty\<rparr>"

definition refund_with_reason :: "refund_reason \<Rightarrow> refund \<Rightarrow> refund" where
  "refund_with_reason reason r = r\<lparr>ref_reason := Some reason\<rparr>"

definition refund_with_description :: "string \<Rightarrow> refund \<Rightarrow> refund" where
  "refund_with_description d r = r\<lparr>ref_description := Some d\<rparr>"

datatype refund_status = Pending | Succeeded | Failed | Canceled

record refund_result =
  rres_refund_id :: string
  rres_provider_id :: "string option"
  rres_payment_id :: string
  rres_status :: refund_status
  rres_amount :: money
  rres_error_message :: "string option"
  rres_created_at :: timestamp

definition refund_result_success ::
  "timestamp \<Rightarrow> string \<Rightarrow> string \<Rightarrow> money \<Rightarrow> refund_result" where
  "refund_result_success now refund_id payment_id amount =
     \<lparr>rres_refund_id = refund_id, rres_provider_id = None, rres_payment_id = payment_id,
      rres_status = refund_status.Succeeded, rres_amount = amount, rres_error_message = None,
      rres_created_at = now\<rparr>"

definition refund_result_failed ::
  "timestamp \<Rightarrow> string \<Rightarrow> string \<Rightarrow> string \<Rightarrow> refund_result" where
  "refund_result_failed now refund_id payment_id error =
     \<lparr>rres_refund_id = refund_id, rres_provider_id = None, rres_payment_id = payment_id,
      rres_status = refund_status.Failed, rres_amount = money_usd 0,
      rres_error_message = Some error, rres_created_at = now\<rparr>"

section \<open>Customers and payment methods\<close>

record customer =
  cust_id :: string
  cust_email :: "string option"
  cust_name :: "string option"
  cust_phone :: "string option"
  cust_metadata :: "string \<rightharpoonup> string"
  cust_created_at :: timestamp

definition customer_new :: "string \<Rightarrow> timestamp \<Rightarrow> string \<Rightarrow> customer" where
  "customer_new uuid now email =
     \<lparr>cust_id = uuid, cust_email = Some email, cust_name = None, cust_phone = None,
      cust_metadata = Map.empty, cust_created_at = now\<rparr>"

definition customer_with_name :: "string \<Rightarrow> customer \<Rightarrow> customer" where
  "customer_with_name n c = c\<lparr>cust_name := Some n\<rparr>"

definition customer_with_phone :: "string \<Rightarrow> customer \<Rightarrow> customer" where
  "customer_with_phone p c = c\<lparr>cust_phone := Some p\<rparr>"

datatype payment_method_type = Card | BankAccount | Wallet

record card_details =
  card_brand :: string
  card_last_four :: string
  card_exp_month :: u8
  card_exp_year :: u16
  card_country :: "string option"

record payment_method =
  pm_id :: string
  pm_method_type :: payment_method_type
  pm_customer_id :: "string option"
  pm_card :: "card_details option"
  pm_is_default :: bool
  pm_created_at :: timestamp

section \<open>Exactness of decimal amounts\<close>

lemma decimal_value:
  assumes "\<bar>a\<bar> \<le> 2 ^ 50"
  shows "\<exists>q. div_f64_const (f64_of_int a) 100 = Fin q \<and> \<bar>q * 100 - of_int a\<bar> \<le> 1 / 5 \<and>
    (0 \<le> a \<longrightarrow> 0 \<le> q) \<and> (a < 0 \<longrightarrow> q < 0)"
proof -
  have a53: "\<bar>a\<bar> \<le> 2 ^ 53" using assms by simp
  have "(of_int \<bar>a\<bar> :: rat) \<le> of_int (2 ^ 50)" using assms by (simp only: of_int_le_iff)
  then have bound: "\<bar>of_int a / 100 :: rat\<bar> < 2 powi 44" by simp
  have err: "\<bar>rnd (of_int a / 100) - of_int a / 100\<bar> \<le> 2 powi (- 9) / 2"
    by (rule rnd_error [OF bound]) auto
  then have small: "\<bar>rnd (of_int a / 100) - of_int a / 100\<bar> \<le> 1 / 1024"
    by (simp add: power_int_minus)
  have near: "\<bar>r\<bar> < y" if "\<bar>x\<bar> < b" "\<bar>r - x\<bar> \<le> 1 / 1024" "b + 1 \<le> y" for r x b y :: rat
    using that by linarith
  have "\<bar>rnd (of_int a / 100)\<bar> < (2::rat) ^ 50"
    using bound small by (rule near) simp
  also have "\<dots> < f64_limit" by (rule pow2_less_limit) simp
  finally have fin: "round_f64 (of_int a / 100) = Fin (rnd (of_int a / 100))"
    by (rule round_f64_Fin)
  have "0 \<le> rnd (of_int a / 100)" if "0 \<le> a" using that by (intro rnd_nonneg) simp
  moreover have "rnd (of_int a / 100) < 0" if "a < 0"
  proof -
    have "a \<le> - 1" using that by simp
    then have "(of_int a :: rat) \<le> of_int (- 1)" by (simp only: of_int_le_iff)
    then have "(of_int a / 100 :: rat) \<le> - (1 / 100)" by simp
    with small show ?thesis by linarith
  qed
  moreover have "\<bar>r * 100 - x\<bar> \<le> 1 / 5" if "\<bar>r - x / 100\<bar> \<le> 1 / 1024" for r x :: rat
    using that by linarith
  from this [OF small] have "\<bar>rnd (of_int a / 100) * 100 - of_int a\<bar> \<le> 1 / 5" .
  ultimately show ?thesis using fin a53 by (simp add: f64_of_int_def round_f64_of_int)
qed

lemma round_half_away_near:
  assumes "\<bar>r - of_int a\<bar> < 1 / 2" "\<bar>a\<bar> \<le> 2 ^ 53"
  shows "round_half_away (Fin r) = Fin (of_int a)"
proof -
  from assms(1) have *: "r - of_int a < 1 / 2" "of_int a - r < 1 / 2"
    unfolding abs_less_iff by linarith+
  have "\<lfloor>r + 1 / 2\<rfloor> = a" unfolding floor_eq_iff using * by linarith
  moreover have "\<lceil>r - 1 / 2\<rceil> = a" unfolding ceiling_eq_iff using * by linarith
  ultimately show ?thesis using assms(2) by (simp add: round_f64_of_int)
qed

lemma round_even_near:
  assumes "\<bar>q - of_int i\<bar> < 1 / 2"
  shows "round_even q = i"
proof -
  have tri: "\<bar>n - i\<bar> < 1" if "\<bar>n - q\<bar> \<le> 1 / 2" "\<bar>q - i\<bar> < 1 / 2" for n q i :: rat
    using that by linarith
  have "\<bar>of_int (round_even q - i) :: rat\<bar> < 1"
    unfolding of_int_diff by (rule tri [OF round_even_error assms])
  then have "\<bar>round_even q - i\<bar> < 1" by (metis of_int_abs of_int_less_1_iff)
  then show ?thesis by simp
qed

text \<open>
  C32: an amount of up to \<open>2 ^ 50\<close> cents, positive or negative, survives the conversion to a
  decimal double and back.
\<close>

theorem money_decimal_roundtrip:
  assumes "\<bar>sint (money_amount m)\<bar> \<le> 2 ^ 50"
  shows "money_from_decimal (money_to_decimal m) (money_currency m) = m"
proof -
  let ?a = "sint (money_amount m)"
  obtain q where q: "money_to_decimal m = Fin q" "\<bar>q * 100 - of_int ?a\<bar> \<le> 1 / 5"
    using decimal_value [OF assms] by (auto simp: money_to_decimal_def)
  have "(of_int \<bar>?a\<bar> :: rat) \<le> of_int (2 ^ 50)" using assms by (simp only: of_int_le_iff)
  then have a50: "\<bar>of_int ?a :: rat\<bar> \<le> 2 ^ 50" by simp
  have within: "\<bar>x\<bar> \<le> b + d" if "\<bar>x - a\<bar> \<le> d" "\<bar>a\<bar> \<le> b" for x a d b :: rat
    using that by linarith
  have bound: "\<bar>q * 100\<bar> < 2 ^ 51"
    by (rule le_less_trans [OF within [OF q(2) a50]]) simp
  have err: "\<bar>rnd (q * 100) - q * 100\<bar> \<le> 2 powi (- 2) / 2"
    by (rule rnd_error [of _ 51]) (use bound in \<open>simp_all add: power_int_def\<close>)
  then have "\<bar>rnd (q * 100) - q * 100\<bar> \<le> 1 / 8" by (simp add: power_int_minus)
  moreover have "\<bar>r - a\<bar> < 1 / 2" if "\<bar>r - x\<bar> \<le> 1 / 8" "\<bar>x - a\<bar> \<le> 1 / 5" for r x a :: rat
    using that by linarith
  ultimately have near: "\<bar>rnd (q * 100) - of_int ?a\<bar> < 1 / 2" using q(2) by blast
  have "\<bar>rnd (q * 100)\<bar> < 2 ^ 52"
    by (rule le_less_trans [OF within [OF less_imp_le [OF near] a50]]) simp
  also have "(2::rat) ^ 52 < f64_limit" by (rule pow2_less_limit) simp
  finally have "mul_f64 (Fin q) (Fin 100) = Fin (rnd (q * 100))" by (simp add: round_f64_Fin)
  moreover have "round_half_away (Fin (rnd (q * 100))) = Fin (of_int ?a)"
    by (rule round_half_away_near [OF near]) (use assms in simp)
  moreover have "f64_to_i64 (Fin (of_int ?a)) = money_amount m"
    using f64_to_i64_of_int [of ?a] assms by (simp del: f64_to_i64.simps)
  ultimately show ?thesis by (simp add: money_from_decimal_def q(1))
qed

theorem money_decimal_roundtrip_witness:
  "money_from_decimal (money_to_decimal (money_usd 1999)) (money_currency (money_usd 1999)) =
    money_usd 1999"
  by (rule money_decimal_roundtrip) (simp add: money_usd_def money_new_def)

text \<open>
  within the same bound \<open>Display\<close> prints the amount exactly: the sign, the whole units, a
  point, the two digits of the cents, and the currency code.
\<close>

theorem money_display_exact:
  assumes "\<bar>sint (money_amount m)\<bar> \<le> 2 ^ 50"
  shows "money_display m =
    (if sint (money_amount m) < 0 then ''-'' else '''') @
    show_cents (nat \<bar>sint (money_amount m)\<bar>) @ '' '' @ currency_display (money_currency m)"
proof -
  let ?a = "sint (money_amount m)"
  obtain q where q: "money_to_decimal m = Fin q" "\<bar>q * 100 - of_int ?a\<bar> \<le> 1 / 5"
    "0 \<le> ?a \<longrightarrow> 0 \<le> q" "?a < 0 \<longrightarrow> q < 0"
    using decimal_value [OF assms] by (auto simp: money_to_decimal_def)
  have "round_even (\<bar>q\<bar> * 100) = \<bar>?a\<bar>"
  proof (rule round_even_near)
    have "\<bar>\<bar>q\<bar> * 100 - of_int \<bar>?a\<bar>\<bar> = \<bar>q * 100 - of_int ?a\<bar>"
      using q(3,4) by (cases "0 \<le> ?a") auto
    with q(2) show "\<bar>\<bar>q\<bar> * 100 - of_int \<bar>?a\<bar>\<bar> < 1 / 2" by simp
  qed
  with q show ?thesis by (auto simp: money_display_def)
qed

theorem money_display_exact_witness:
  "money_display (money_usd (- 5)) =
    (if sint (money_amount (money_usd (- 5))) < 0 then ''-'' else '''') @
    show_cents (nat \<bar>sint (money_amount (money_usd (- 5)))\<bar>) @ '' '' @
    currency_display (money_currency (money_usd (- 5)))"
  by (rule money_display_exact) (simp add: money_usd_def money_new_def)

end
