(* ===== verification/MockPayment.thy ===== *)
theory MockPayment
  imports PaymentApi
begin

text \<open>
  \<open>core/payment/mock.rs\<close>: the mock payment gateway as a sequential object. Its state is four
  maps and the failure mode, each behind its own lock in the code; how the locks interact is
  modelled in \<open>PaymentLocks\<close>. Random identifiers and the time are arguments; \<open>ks\<close> is the
  iteration order of the payments map.
\<close>

record mock_gateway =
  mg_payments :: "string \<rightharpoonup> payment_result"
  mg_customers :: "string \<rightharpoonup> customer"
  mg_payment_methods :: "string \<rightharpoonup> payment_method list"
  mg_refunds :: "string \<rightharpoonup> refund_result"
  mg_failure_mode :: "mock_failure_mode option"

definition mg_new :: mock_gateway where
  "mg_new =
     \<lparr>mg_payments = Map.empty, mg_customers = Map.empty, mg_payment_methods = Map.empty,
      mg_refunds = Map.empty, mg_failure_mode = None\<rparr>"

definition with_failure_mode :: "mock_gateway \<Rightarrow> mock_failure_mode \<Rightarrow> mock_gateway" where
  "with_failure_mode g mode = g\<lparr>mg_failure_mode := Some mode\<rparr>"

definition clear_failure_mode :: "mock_gateway \<Rightarrow> mock_gateway" where
  "clear_failure_mode g = g\<lparr>mg_failure_mode := None\<rparr>"

fun failure_reason :: "mock_failure_mode option \<Rightarrow> payment \<Rightarrow> string option" where
  "failure_reason (Some (FailAllPayments msg)) p = Some msg"
| "failure_reason (Some (FailOverAmount maximum)) p =
     (if sint maximum < sint (money_amount (pay_amount p))
      then Some (''Payment amount '' @ show_int (sint (money_amount (pay_amount p))) @
             '' exceeds maximum '' @ show_int (sint maximum))
      else None)"
| "failure_reason (Some (FailPaymentIds ids)) p =
     (if pay_id p \<in> set ids then Some ''Payment ID is in fail list'' else None)"
| "failure_reason None p = None"

definition should_fail :: "mock_gateway \<Rightarrow> payment \<Rightarrow> string option" where
  "should_fail g p = failure_reason (mg_failure_mode g) p"

definition add_customer :: "mock_gateway \<Rightarrow> customer \<Rightarrow> mock_gateway" where
  "add_customer g c = g\<lparr>mg_customers := (mg_customers g)(cust_id c \<mapsto> c)\<rparr>"

definition add_payment :: "mock_gateway \<Rightarrow> payment_result \<Rightarrow> mock_gateway" where
  "add_payment g r = g\<lparr>mg_payments := (mg_payments g)(pres_payment_id r \<mapsto> r)\<rparr>"

section \<open>Reads\<close>

definition get_payment :: "mock_gateway \<Rightarrow> string \<Rightarrow> payment_result gateway_result" where
  "get_payment g i =
     ok_or (gateway_error.NotFound (''Payment not found: '' @ i)) (mg_payments g i)"

definition belongs_to :: "string \<Rightarrow> payment_result \<Rightarrow> bool" where
  "belongs_to c p =
     (case pres_metadata p ''customer_id'' of Some i \<Rightarrow> i = c | None \<Rightarrow> False)"

definition list_payments ::
  "string list \<Rightarrow> mock_gateway \<Rightarrow> string \<Rightarrow> usize \<Rightarrow> usize \<Rightarrow> payment_result list gateway_result" where
  "list_payments ks g c limit offset =
     Ok (take (unat limit)
          (drop (unat offset) (filter (belongs_to c) (values_in ks (mg_payments g)))))"

definition get_customer :: "mock_gateway \<Rightarrow> string \<Rightarrow> customer gateway_result" where
  "get_customer g i =
     ok_or (gateway_error.NotFound (''Customer not found: '' @ i)) (mg_customers g i)"

definition list_payment_methods :: "mock_gateway \<Rightarrow> string \<Rightarrow> payment_method list gateway_result" where
  "list_payment_methods g c =
     Ok (case mg_payment_methods g c of Some ms \<Rightarrow> ms | None \<Rightarrow> [])"

definition get_refund :: "mock_gateway \<Rightarrow> string \<Rightarrow> refund_result gateway_result" where
  "get_refund g i =
     ok_or (gateway_error.NotFound (''Refund not found: '' @ i)) (mg_refunds g i)"

definition mg_health_check :: "timestamp \<Rightarrow> health_check gateway_result" where
  "mg_health_check now = Ok (healthy now)"

section \<open>Writes\<close>

definition create_payment ::
  "mock_gateway \<Rightarrow> timestamp \<Rightarrow> string \<Rightarrow> payment \<Rightarrow>
   payment_result gateway_result \<times> mock_gateway" where
  "create_payment g now uuid p =
     (case should_fail g p of
        Some error_msg \<Rightarrow>
          (let res = payment_result_failed now (pay_id p) error_msg
           in (Ok res, g\<lparr>mg_payments := (mg_payments g)(pay_id p \<mapsto> res)\<rparr>))
      | None \<Rightarrow>
          (let provider_id = ''mock_pi_'' @ uuid;
               res = payment_result_success now (pay_id p) provider_id (pay_amount p);
               res' = (case pay_customer_id p of
                         Some c \<Rightarrow> res\<lparr>pres_metadata := (pres_metadata res)(''customer_id'' \<mapsto> c)\<rparr>
                       | None \<Rightarrow> res)
           in (Ok res', g\<lparr>mg_payments := (mg_payments g)(pay_id p \<mapsto> res')\<rparr>)))"

definition capture_payment ::
  "mock_gateway \<Rightarrow> string \<Rightarrow> money option \<Rightarrow> payment_result gateway_result \<times> mock_gateway" where
  "capture_payment g i amount =
     (case mg_payments g i of
        None \<Rightarrow> (Err (gateway_error.NotFound (''Payment not found: '' @ i)), g)
      | Some p \<Rightarrow>
          (let p1 = p\<lparr>pres_status := payment_status.Succeeded\<rparr>;
               p2 = (case amount of Some amt \<Rightarrow> p1\<lparr>pres_amount := amt\<rparr> | None \<Rightarrow> p1)
           in (Ok p2, g\<lparr>mg_payments := (mg_payments g)(i \<mapsto> p2)\<rparr>)))"

definition cancel_payment ::
  "mock_gateway \<Rightarrow> string \<Rightarrow> payment_result gateway_result \<times> mock_gateway" where
  "cancel_payment g i =
     (case mg_payments g i of
        None \<Rightarrow> (Err (gateway_error.NotFound (''Payment not found: '' @ i)), g)
      | Some p \<Rightarrow>
          (let p1 = p\<lparr>pres_status := payment_status.Canceled\<rparr>
           in (Ok p1, g\<lparr>mg_payments := (mg_payments g)(i \<mapsto> p1)\<rparr>)))"

definition refund_status_of :: "refund \<Rightarrow> payment_result \<Rightarrow> payment_status" where
  "refund_status_of r p =
     (case ref_amount r of
        Some amt \<Rightarrow>
          if sint (money_amount amt) < sint (money_amount (pres_amount p))
          then PartiallyRefunded else Refunded
      | None \<Rightarrow> Refunded)"

definition create_refund ::
  "mock_gateway \<Rightarrow> timestamp \<Rightarrow> refund \<Rightarrow> refund_result gateway_result \<times> mock_gateway" where
  "create_refund g now r =
     (case mg_payments g (ref_payment_id r) of
        None \<Rightarrow>
          (Err (gateway_error.NotFound (''Payment not found: '' @ ref_payment_id r)), g)
      | Some p \<Rightarrow>
          (let amount = (case ref_amount r of Some a \<Rightarrow> a | None \<Rightarrow> pres_amount p);
               res = refund_result_success now (ref_id r) (ref_payment_id r) amount;
               g1 = g\<lparr>mg_refunds := (mg_refunds g)(ref_id r \<mapsto> res)\<rparr>;
               g2 = (case mg_payments g1 (ref_payment_id r) of
                       Some q \<Rightarrow> g1\<lparr>mg_payments := (mg_payments g1)(ref_payment_id r \<mapsto>
                                   q\<lparr>pres_status := refund_status_of r q\<rparr>)\<rparr>
                     | None \<Rightarrow> g1)
           in (Ok res, g2)))"

definition create_customer ::
  "mock_gateway \<Rightarrow> customer \<Rightarrow> customer gateway_result \<times> mock_gateway" where
  "create_customer g c = (Ok c, g\<lparr>mg_customers := (mg_customers g)(cust_id c \<mapsto> c)\<rparr>)"

definition update_customer ::
  "mock_gateway \<Rightarrow> customer \<Rightarrow> customer gateway_result \<times> mock_gateway" where
  "update_customer g c =
     (if mg_customers g (cust_id c) = None
      then (Err (gateway_error.NotFound (''Customer not found: '' @ cust_id c)), g)
      else (Ok c, g\<lparr>mg_customers := (mg_customers g)(cust_id c \<mapsto> c)\<rparr>))"

definition delete_customer :: "mock_gateway \<Rightarrow> string \<Rightarrow> unit gateway_result \<times> mock_gateway" where
  "delete_customer g i =
     (Ok (), g\<lparr>mg_customers := (mg_customers g)(i := None),
              mg_payment_methods := (mg_payment_methods g)(i := None)\<rparr>)"

section \<open>Reachable states\<close>

inductive mg_step :: "mock_gateway \<Rightarrow> mock_gateway \<Rightarrow> bool" where
  set_mode: "mg_step g (with_failure_mode g mode)"
| clear_mode: "mg_step g (clear_failure_mode g)"
| seed_customer: "mg_step g (add_customer g c)"
| seed_payment: "mg_step g (add_payment g r)"
| create_payment: "mg_step g (snd (create_payment g now uuid p))"
| capture_payment: "mg_step g (snd (capture_payment g i amount))"
| cancel_payment: "mg_step g (snd (cancel_payment g i))"
| create_refund: "mg_step g (snd (create_refund g now r))"
| create_customer: "mg_step g (snd (create_customer g c))"
| update_customer: "mg_step g (snd (update_customer g c))"
| delete_customer: "mg_step g (snd (delete_customer g i))"

text \<open>
  The books are consistent: payments, customers and refunds are stored under their own ids, and
  every refund is a successful refund of a payment that exists.
\<close>

definition books_ok :: "mock_gateway \<Rightarrow> bool" where
  "books_ok g \<longleftrightarrow>
     (\<forall>i p. mg_payments g i = Some p \<longrightarrow> pres_payment_id p = i) \<and>
     (\<forall>i c. mg_customers g i = Some c \<longrightarrow> cust_id c = i) \<and>
     (\<forall>i r. mg_refunds g i = Some r \<longrightarrow>
        rres_refund_id r = i \<and> rres_status r = refund_status.Succeeded \<and>
        mg_payments g (rres_payment_id r) \<noteq> None)"

lemma payment_result_fields [simp]:
  "pres_payment_id (payment_result_success now i pid a) = i"
  "pres_payment_id (payment_result_failed now i e) = i"
  "pres_status (payment_result_success now i pid a) = payment_status.Succeeded"
  "pres_status (payment_result_failed now i e) = payment_status.Failed"
  "pres_amount (payment_result_success now i pid a) = a"
  "pres_error_message (payment_result_success now i pid a) = None"
  "pres_error_message (payment_result_failed now i e) = Some e"
  "pres_metadata (payment_result_success now i pid a) = Map.empty"
  "pres_metadata (payment_result_failed now i e) = Map.empty"
  by (simp_all add: payment_result_success_def payment_result_failed_def)

lemma refund_result_fields [simp]:
  "rres_refund_id (refund_result_success now i p a) = i"
  "rres_payment_id (refund_result_success now i p a) = p"
  "rres_amount (refund_result_success now i p a) = a"
  "rres_status (refund_result_success now i p a) = refund_status.Succeeded"
  by (simp_all add: refund_result_success_def)

lemma read_Ok_iff:
  "get_payment g i = Ok p \<longleftrightarrow> mg_payments g i = Some p"
  "get_customer g i = Ok c \<longleftrightarrow> mg_customers g i = Some c"
  "get_refund g i = Ok r \<longleftrightarrow> mg_refunds g i = Some r"
  by (auto simp: get_payment_def get_customer_def get_refund_def ok_or_def split: option.splits)

text \<open>Payments are never removed, and a write stores under the id it returns.\<close>

lemma create_payment_state:
  "\<exists>res. create_payment g now uuid p = (Ok res, g\<lparr>mg_payments := (mg_payments g)(pay_id p \<mapsto> res)\<rparr>) \<and>
    pres_payment_id res = pay_id p \<and>
    (case should_fail g p of
       Some e \<Rightarrow> pres_status res = payment_status.Failed \<and> pres_error_message res = Some e
     | None \<Rightarrow> pres_status res = payment_status.Succeeded \<and> pres_amount res = pay_amount p \<and>
         pres_metadata res ''customer_id'' = pay_customer_id p)"
  by (auto simp: create_payment_def Let_def split: option.split)

lemma create_refund_state:
  assumes "mg_payments g (ref_payment_id r) = Some p"
  shows "create_refund g now r =
    (Ok (refund_result_success now (ref_id r) (ref_payment_id r)
       (case ref_amount r of Some a \<Rightarrow> a | None \<Rightarrow> pres_amount p)),
     g\<lparr>mg_refunds := (mg_refunds g)(ref_id r \<mapsto>
          refund_result_success now (ref_id r) (ref_payment_id r)
            (case ref_amount r of Some a \<Rightarrow> a | None \<Rightarrow> pres_amount p)),
       mg_payments := (mg_payments g)(ref_payment_id r \<mapsto>
          p\<lparr>pres_status := refund_status_of r p\<rparr>)\<rparr>)"
  using assms by (simp add: create_refund_def Let_def)

lemma create_refund_missing:
  "mg_payments g (ref_payment_id r) = None \<Longrightarrow>
   create_refund g now r =
     (Err (gateway_error.NotFound (''Payment not found: '' @ ref_payment_id r)), g)"
  by (simp add: create_refund_def)

lemma books_payment:
  "books_ok g \<Longrightarrow> pres_payment_id p = i \<Longrightarrow> books_ok (g\<lparr>mg_payments := (mg_payments g)(i \<mapsto> p)\<rparr>)"
  by (auto simp: books_ok_def)

lemma books_refund:
  assumes "books_ok g"
  shows "books_ok (snd (create_refund g now r))"
proof (cases "mg_payments g (ref_payment_id r)")
  case None
  with assms show ?thesis by (simp add: create_refund_missing)
next
  case (Some p)
  with assms show ?thesis
    by (auto simp: create_refund_state books_ok_def)
qed

lemma mg_step_books: "mg_step g g' \<Longrightarrow> books_ok g \<Longrightarrow> books_ok g'"
proof (induction rule: mg_step.induct)
  case (create_payment g now uuid p)
  then show ?case using create_payment_state [of g now uuid p] by (auto intro: books_payment)
next
  case (capture_payment g i amount)
  then show ?case
    by (auto simp: capture_payment_def Let_def books_ok_def intro!: books_payment split: option.split)
next
  case (cancel_payment g i)
  then show ?case
    by (auto simp: cancel_payment_def Let_def books_ok_def intro!: books_payment split: option.split)
next
  case (create_refund g now r)
  then show ?case by (rule books_refund)
qed (auto simp: books_ok_def with_failure_mode_def clear_failure_mode_def add_customer_def
      add_payment_def create_customer_def update_customer_def delete_customer_def)

interpretation mock_books: invariant_machine "\<lambda>g. g = mg_new" mg_step books_ok
  by unfold_locales (simp add: books_ok_def mg_new_def, rule mg_step_books)

section \<open>Properties\<close>

definition demo_gateway :: mock_gateway where
  "demo_gateway = snd (create_payment mg_new 0 ''u'' (payment_new ''p'' (money_usd 1000)))"

lemma demo_gateway_payment:
  "mg_payments demo_gateway ''p'' =
     Some (payment_result_success 0 ''p'' (''mock_pi_'' @ ''u'') (money_usd 1000))"
  by (simp add: demo_gateway_def create_payment_def should_fail_def mg_new_def payment_new_def Let_def)

text \<open>
  creating a payment always returns a result, which a read under the payment's id then
  gives; it failed, with the reason, exactly when the failure mode rejects the payment, and
  otherwise has succeeded with the requested amount and the customer recorded. No other
  payment, customer or refund changes.
\<close>

theorem create_payment_recorded:
  "\<exists>res g'. create_payment g now uuid p = (Ok res, g') \<and> get_payment g' (pay_id p) = Ok res \<and>
    (case should_fail g p of
       Some e \<Rightarrow> pres_status res = payment_status.Failed \<and> pres_error_message res = Some e
     | None \<Rightarrow> pres_status res = payment_status.Succeeded \<and> pres_amount res = pay_amount p \<and>
         pres_metadata res ''customer_id'' = pay_customer_id p) \<and>
    (\<forall>i. i \<noteq> pay_id p \<longrightarrow> get_payment g' i = get_payment g i) \<and>
    mg_refunds g' = mg_refunds g \<and> mg_customers g' = mg_customers g"
  using create_payment_state [of g now uuid p] by (auto simp: get_payment_def)

theorem create_payment_recorded_witness:
  "\<exists>res g'. create_payment mg_new 0 ''u'' (payment_new ''p'' (money_usd 5)) = (Ok res, g') \<and>
    get_payment g' ''p'' = Ok res \<and> pres_status res = payment_status.Succeeded"
  using create_payment_recorded [of mg_new 0 "''u''" "payment_new ''p'' (money_usd 5)"]
  by (auto simp: should_fail_def mg_new_def payment_new_def)

text \<open>
  C21: refunding an existing payment succeeds with the requested amount, or the payment's whole
  amount when none is given; the refund can be read back, and the payment is marked partially
  refunded exactly when an amount below the payment's is given, fully refunded otherwise.
\<close>

theorem create_refund_effect:
  assumes "get_payment g (ref_payment_id r) = Ok p"
  shows "\<exists>res g'. create_refund g now r = (Ok res, g') \<and> get_refund g' (ref_id r) = Ok res \<and>
    rres_status res = refund_status.Succeeded \<and>
    rres_amount res = (case ref_amount r of Some a \<Rightarrow> a | None \<Rightarrow> pres_amount p) \<and>
    get_payment g' (ref_payment_id r) = Ok (p\<lparr>pres_status :=
      (if \<exists>a. ref_amount r = Some a \<and> sint (money_amount a) < sint (money_amount (pres_amount p))
       then PartiallyRefunded else Refunded)\<rparr>)"
proof -
  have "mg_payments g (ref_payment_id r) = Some p"
    using assms by (simp add: read_Ok_iff)
  then show ?thesis
    by (auto simp: create_refund_state get_refund_def get_payment_def refund_status_of_def
        split: option.split)
qed

theorem create_refund_effect_witness:
  "\<exists>res g'. create_refund demo_gateway 1 (refund_partial ''r'' ''p'' (money_usd 400)) = (Ok res, g') \<and>
    get_refund g' ''r'' = Ok res \<and>
    (\<exists>q. get_payment g' ''p'' = Ok q \<and> pres_status q = PartiallyRefunded)"
  using create_refund_effect [of demo_gateway "refund_partial ''r'' ''p'' (money_usd 400)" _ 1]
  by (auto simp: get_payment_def demo_gateway_payment refund_partial_def money_usd_def money_new_def)

text \<open>
  C30: in every reachable state the books are consistent: what a read returns carries the id it
  was asked for, and every refund that can be read has succeeded and refers to a payment that
  can be read.
\<close>

theorem reachable_books:
  assumes "mg_step\<^sup>*\<^sup>* mg_new g"
  shows "(\<forall>i p. get_payment g i = Ok p \<longrightarrow> pres_payment_id p = i) \<and>
    (\<forall>i c. get_customer g i = Ok c \<longrightarrow> cust_id c = i) \<and>
    (\<forall>i r. get_refund g i = Ok r \<longrightarrow> rres_refund_id r = i \<and>
       rres_status r = refund_status.Succeeded \<and>
       is_ok (get_payment g (rres_payment_id r)))"
proof -
  have "books_ok g" by (rule mock_books.reachable_inv [OF refl assms])
  then show ?thesis
    by (fastforce simp: books_ok_def read_Ok_iff get_payment_def ok_or_def split: option.splits)
qed

lemma demo_gateway_reached: "mg_step\<^sup>*\<^sup>* mg_new demo_gateway"
  by (simp add: demo_gateway_def mg_step.create_payment r_into_rtranclp)

theorem reachable_books_witness:
  "\<exists>p. get_payment demo_gateway ''p'' = Ok p \<and> pres_payment_id p = ''p''"
proof -
  obtain p where p: "get_payment demo_gateway ''p'' = Ok p"
    by (simp add: read_Ok_iff demo_gateway_payment)
  with reachable_books [OF demo_gateway_reached] show ?thesis by blast
qed

text \<open>
  pages of a customer's payments fit together: the first \<open>a\<close> payments followed by the next
  \<open>b\<close> are the first \<open>a + b\<close>, and a page long enough from the start lists exactly the payments
  whose metadata names the customer.
\<close>

theorem list_payments_pages:
  assumes "unat a + unat b < 2 ^ 64" and "enumerates ks (mg_payments g)"
  shows "\<exists>xs ys. list_payments ks g c a 0 = Ok xs \<and> list_payments ks g c b a = Ok ys \<and>
    list_payments ks g c (a + b) 0 = Ok (xs @ ys) \<and>
    (length ks \<le> unat a \<longrightarrow>
      set xs = {p. (\<exists>i. get_payment g i = Ok p) \<and> pres_metadata p ''customer_id'' = Some c})"
proof -
  let ?rows = "filter (belongs_to c) (values_in ks (mg_payments g))"
  have sum: "unat (a + b) = unat a + unat b"
    using assms(1) by (simp add: unat_word_ariths)
  have "length (values_in ks (mg_payments g)) \<le> length ks"
    by (induction ks) (auto split: option.split)
  then have len: "length ?rows \<le> length ks" using le_trans length_filter_le by blast
  have "set ?rows = {p. (\<exists>i. get_payment g i = Ok p) \<and> pres_metadata p ''customer_id'' = Some c}"
    using assms(2)
    by (auto simp: set_values_in enumerates_def read_Ok_iff belongs_to_def dom_def
        split: option.splits)
  with len show ?thesis by (auto simp: list_payments_def sum take_add)
qed

theorem list_payments_pages_witness:
  "\<exists>xs ys. list_payments [''p''] demo_gateway ''c'' 1 0 = Ok xs \<and>
    list_payments [''p''] demo_gateway ''c'' 2 1 = Ok ys \<and>
    list_payments [''p''] demo_gateway ''c'' (1 + 2) 0 = Ok (xs @ ys) \<and>
    (length [''p''] \<le> unat (1::usize) \<longrightarrow>
      set xs = {p. (\<exists>i. get_payment demo_gateway i = Ok p) \<and>
        pres_metadata p ''customer_id'' = Some ''c''})"
  by (rule list_payments_pages)
    (simp_all add: enumerates_def demo_gateway_def create_payment_def should_fail_def mg_new_def
      payment_new_def Let_def)

text \<open>
  refunds do not add up. Two partial refunds of one payment both succeed and leave it
  partially refunded, whatever their sum is, as long as each alone is below the amount paid.
\<close>

theorem partial_refunds_not_summed:
  assumes "get_payment g i = Ok p"
    and "sint (money_amount a) < sint (money_amount (pres_amount p))"
    and "sint (money_amount b) < sint (money_amount (pres_amount p))"
  shows "\<exists>r1 r2 g1 g2 q.
    create_refund g now1 (refund_partial u1 i a) = (Ok r1, g1) \<and>
    create_refund g1 now2 (refund_partial u2 i b) = (Ok r2, g2) \<and>
    rres_amount r1 = a \<and> rres_amount r2 = b \<and>
    get_payment g2 i = Ok q \<and> pres_status q = PartiallyRefunded \<and> pres_amount q = pres_amount p"
proof -
  have "mg_payments g i = Some p"
    using assms(1) by (simp add: read_Ok_iff)
  with assms(2,3) show ?thesis
    by (simp add: create_refund_state refund_partial_def refund_status_of_def get_payment_def)
qed

theorem partial_refunds_not_summed_witness:
  "\<exists>r1 r2 g1 g2 q.
    create_refund demo_gateway 1 (refund_partial ''a'' ''p'' (money_usd 600)) = (Ok r1, g1) \<and>
    create_refund g1 2 (refund_partial ''b'' ''p'' (money_usd 700)) = (Ok r2, g2) \<and>
    rres_amount r1 = money_usd 600 \<and> rres_amount r2 = money_usd 700 \<and>
    get_payment g2 ''p'' = Ok q \<and> pres_status q = PartiallyRefunded \<and>
    pres_amount q = pres_amount (payment_result_success 0 ''p'' (''mock_pi_'' @ ''u'') (money_usd 1000))"
  by (rule partial_refunds_not_summed)
    (simp_all add: get_payment_def demo_gateway_payment money_usd_def money_new_def)

end
