(* ===== verification/PaymentLocks.thy ===== *)
theory PaymentLocks
  imports MockPayment
begin

text \<open>
  The locking of \<open>core/payment/mock.rs\<close>: each operation of the mock gateway as the sequence of
  lock acquisitions and releases it performs, and threads that run such sequences concurrently.
  A lock is granted to a reader when no one writes and to a writer when no one holds it; the
  standard library's lock may make a reader wait longer while a writer waits, which does not
  change what a stuck state is.

  The lemmas show that operations never get stuck as long as at most one of them is a refund,
  and that two concurrent refunds can.
\<close>

section \<open>Locks and threads\<close>

datatype lock =
    CustomersLock | PaymentMethodsLock | FailureModeLock | PaymentsLock | RefundsLock

datatype lock_mode = Shared | Exclusive

datatype lock_action = Acquire lock lock_mode | Release lock

datatype operation =
    OpGetPayment | OpListPayments | OpGetCustomer | OpListPaymentMethods | OpGetRefund
  | OpWithFailureMode | OpClearFailureMode | OpAddCustomer | OpAddPayment
  | OpCreatePayment | OpCapturePayment | OpCancelPayment
  | OpCreateRefund bool  \<comment> \<open>whether the payment exists\<close>
  | OpCreateCustomer | OpUpdateCustomer | OpDeleteCustomer

definition guarded :: "lock \<Rightarrow> lock_mode \<Rightarrow> lock_action list" where
  "guarded l m = [Acquire l m, Release l]"

text \<open>
  A guard is dropped at the end of the block that holds it, the latest guard first;
  \<open>create_refund\<close> drops its read guard on the payments early and locks them again for writing.
\<close>

fun lock_program :: "operation \<Rightarrow> lock_action list" where
  "lock_program OpGetPayment = guarded PaymentsLock Shared"
| "lock_program OpListPayments = guarded PaymentsLock Shared"
| "lock_program OpGetCustomer = guarded CustomersLock Shared"
| "lock_program OpListPaymentMethods = guarded PaymentMethodsLock Shared"
| "lock_program OpGetRefund = guarded RefundsLock Shared"
| "lock_program OpWithFailureMode = guarded FailureModeLock Exclusive"
| "lock_program OpClearFailureMode = guarded FailureModeLock Exclusive"
| "lock_program OpAddCustomer = guarded CustomersLock Exclusive"
| "lock_program OpAddPayment = guarded PaymentsLock Exclusive"
| "lock_program OpCreatePayment =
     guarded FailureModeLock Shared @ guarded PaymentsLock Exclusive"
| "lock_program OpCapturePayment = guarded PaymentsLock Exclusive"
| "lock_program OpCancelPayment = guarded PaymentsLock Exclusive"
| "lock_program (OpCreateRefund exists) =
     (if exists then
        [Acquire PaymentsLock Shared, Acquire RefundsLock Exclusive, Release PaymentsLock,
         Acquire PaymentsLock Exclusive, Release PaymentsLock, Release RefundsLock]
      else guarded PaymentsLock Shared)"
| "lock_program OpCreateCustomer = guarded CustomersLock Exclusive"
| "lock_program OpUpdateCustomer = guarded CustomersLock Exclusive"
| "lock_program OpDeleteCustomer =
     [Acquire CustomersLock Exclusive, Acquire PaymentMethodsLock Exclusive,
      Release PaymentMethodsLock, Release CustomersLock]"

record thread =
  th_held :: "(lock \<times> lock_mode) list"
  th_rest :: "lock_action list"

definition start :: "operation \<Rightarrow> thread" where
  "start op = \<lparr>th_held = [], th_rest = lock_program op\<rparr>"

definition grantable :: "thread list \<Rightarrow> lock \<Rightarrow> lock_mode \<Rightarrow> bool" where
  "grantable ts l m \<longleftrightarrow>
     list_all (\<lambda>t. list_all (\<lambda>(l', m'). l' = l \<longrightarrow> m = Shared \<and> m' = Shared) (th_held t)) ts"

fun drop_lock :: "lock \<Rightarrow> (lock \<times> lock_mode) list \<Rightarrow> (lock \<times> lock_mode) list" where
  "drop_lock l [] = []"
| "drop_lock l ((l', m) # h) = (if l' = l then h else (l', m) # drop_lock l h)"

inductive lock_step :: "thread list \<Rightarrow> thread list \<Rightarrow> bool" where
  acquire:
    "i < length ts \<Longrightarrow> ts ! i = \<lparr>th_held = h, th_rest = Acquire l m # rest\<rparr> \<Longrightarrow>
     grantable ts l m \<Longrightarrow>
     lock_step ts (ts[i := \<lparr>th_held = (l, m) # h, th_rest = rest\<rparr>])"
| release:
    "i < length ts \<Longrightarrow> ts ! i = \<lparr>th_held = h, th_rest = Release l # rest\<rparr> \<Longrightarrow>
     lock_step ts (ts[i := \<lparr>th_held = drop_lock l h, th_rest = rest\<rparr>])"

inductive_cases lock_stepE: "lock_step ts ts'"

definition finished :: "thread list \<Rightarrow> bool" where
  "finished ts \<longleftrightarrow> list_all (\<lambda>t. th_rest t = []) ts"

section \<open>Disciplined threads\<close>

text \<open>
  The order of the locks. Payments and refunds are at the top: an ordered thread that holds one
  of them asks for nothing more.
\<close>

fun rank :: "lock \<Rightarrow> nat" where
  "rank CustomersLock = 0"
| "rank PaymentMethodsLock = 1"
| "rank FailureModeLock = 2"
| "rank PaymentsLock = 3"
| "rank RefundsLock = 3"

fun ordered_from :: "lock list \<Rightarrow> lock_action list \<Rightarrow> bool" where
  "ordered_from h [] = (h = [])"
| "ordered_from h (Acquire l m # rest) =
     (list_all (\<lambda>x. rank x < rank l) h \<and> ordered_from (l # h) rest)"
| "ordered_from h (Release l # rest) = (l \<in> set h \<and> ordered_from (remove1 l h) rest)"

fun top_from :: "lock list \<Rightarrow> lock_action list \<Rightarrow> bool" where
  "top_from h [] = (h = [])"
| "top_from h (Acquire l m # rest) = (rank l = 3 \<and> l \<notin> set h \<and> top_from (l # h) rest)"
| "top_from h (Release l # rest) = (l \<in> set h \<and> top_from (remove1 l h) rest)"

definition locks_of :: "thread \<Rightarrow> lock list" where
  "locks_of t = map fst (th_held t)"

lemma map_fst_drop_lock: "map fst (drop_lock l h) = remove1 l (map fst h)"
  by (induction l h rule: drop_lock.induct) auto

fun is_refund :: "operation \<Rightarrow> bool" where
  "is_refund (OpCreateRefund _) = True"
| "is_refund _ = False"

lemma programs_ordered: "\<not> is_refund op \<Longrightarrow> ordered_from [] (lock_program op)"
  by (cases op) (simp_all add: guarded_def)

lemma refund_top: "is_refund op \<Longrightarrow> top_from [] (lock_program op)"
  by (cases op) (simp_all add: guarded_def)

text \<open>All threads but the one at position \<open>k\<close> are ordered.\<close>

definition thread_ok :: "bool \<Rightarrow> thread \<Rightarrow> bool" where
  "thread_ok exceptional t \<longleftrightarrow>
     (if exceptional then top_from (locks_of t) (th_rest t)
      else ordered_from (locks_of t) (th_rest t))"

definition disciplined :: "nat \<Rightarrow> thread list \<Rightarrow> bool" where
  "disciplined k ts \<longleftrightarrow> (\<forall>i < length ts. thread_ok (i = k) (ts ! i))"

lemma thread_ok_next:
  "thread_ok e \<lparr>th_held = h, th_rest = Acquire l m # rest\<rparr> \<Longrightarrow>
   thread_ok e \<lparr>th_held = (l, m) # h, th_rest = rest\<rparr>"
  "thread_ok e \<lparr>th_held = h, th_rest = Release l # rest\<rparr> \<Longrightarrow>
   thread_ok e \<lparr>th_held = drop_lock l h, th_rest = rest\<rparr>"
  by (auto simp: thread_ok_def locks_of_def map_fst_drop_lock split: if_splits)

lemma disciplined_update:
  "disciplined k ts \<Longrightarrow> i < length ts \<Longrightarrow>
   (thread_ok (i = k) (ts ! i) \<Longrightarrow> thread_ok (i = k) t) \<Longrightarrow> disciplined k (ts[i := t])"
  by (auto simp: disciplined_def nth_list_update)

lemma disciplined_step:
  assumes "disciplined k ts" "lock_step ts ts'"
  shows "disciplined k ts'"
  using assms(2)
proof (cases rule: lock_step.cases)
  case (acquire i h l m rest)
  show ?thesis unfolding acquire(1)
    by (rule disciplined_update [OF assms(1) acquire(2)]) (simp only: acquire(3) thread_ok_next(1))
next
  case (release i h l rest)
  show ?thesis unfolding release(1)
    by (rule disciplined_update [OF assms(1) release(2)]) (simp only: release(3) thread_ok_next(2))
qed

interpretation lock_discipline: invariant_machine "disciplined k" lock_step "disciplined k" for k
  by unfold_locales (assumption, rule disciplined_step)

section \<open>Progress\<close>

text \<open>What an unfinished thread that cannot move is waiting for.\<close>

lemma blocked_wants:
  assumes "\<nexists>ts'. lock_step ts ts'" "i < length ts" "th_rest (ts ! i) \<noteq> []"
  obtains l m rest where "th_rest (ts ! i) = Acquire l m # rest" and "\<not> grantable ts l m"
proof -
  obtain a rest where a: "th_rest (ts ! i) = a # rest" using assms(3) by (cases "th_rest (ts ! i)") auto
  obtain h where t: "ts ! i = \<lparr>th_held = h, th_rest = a # rest\<rparr>" using a by (cases "ts ! i") auto
  show thesis
  proof (cases a)
    case (Acquire l m)
    with t assms(1,2) a that show thesis by (meson lock_step.acquire)
  next
    case (Release l)
    with t assms(1,2) show thesis by (meson lock_step.release)
  qed
qed

lemma blocked_holder:
  assumes "\<not> grantable ts l m"
  obtains j where "j < length ts" and "l \<in> set (locks_of (ts ! j))"
proof -
  from assms obtain t m' where "t \<in> set ts" "(l, m') \<in> set (th_held t)"
    by (auto simp: grantable_def list_all_iff)
  then obtain j where "j < length ts" "l \<in> set (locks_of (ts ! j))"
    by (auto simp: in_set_conv_nth locks_of_def) (metis fst_conv image_eqI in_set_conv_nth set_map nth_map length_map)
  then show thesis by (rule that)
qed

lemma holder_unfinished:
  assumes "disciplined k ts" "j < length ts" "l \<in> set (locks_of (ts ! j))"
  shows "th_rest (ts ! j) \<noteq> []"
proof
  assume "th_rest (ts ! j) = []"
  with assms show False by (auto simp: disciplined_def thread_ok_def split: if_splits)
qed

lemma ordered_wants_more:
  assumes "disciplined k ts" "j < length ts" "j \<noteq> k" "l \<in> set (locks_of (ts ! j))"
    and "th_rest (ts ! j) = Acquire l' m # rest"
  shows "rank l < rank l'"
  using assms by (auto simp: disciplined_def thread_ok_def list_all_iff)

lemma rank_le_3: "rank l \<le> 3"
  by (cases l) auto

text \<open>The exceptional thread is never the one that blocks itself or is blocked for good.\<close>

lemma exceptional_finished:
  assumes "disciplined k ts" "\<nexists>ts'. lock_step ts ts'" "k < length ts"
  shows "th_rest (ts ! k) = []"
proof (rule ccontr)
  assume "th_rest (ts ! k) \<noteq> []"
  then obtain l m rest where k: "th_rest (ts ! k) = Acquire l m # rest" "\<not> grantable ts l m"
    using blocked_wants [OF assms(2,3)] by blast
  obtain j where j: "j < length ts" "l \<in> set (locks_of (ts ! j))"
    using blocked_holder [OF k(2)] by blast
  have l: "rank l = 3" "l \<notin> set (locks_of (ts ! k))"
    using assms(1,3) k(1) by (auto simp: disciplined_def thread_ok_def)
  with j have "j \<noteq> k" by auto
  obtain l' m' rest' where "th_rest (ts ! j) = Acquire l' m' # rest'"
    using blocked_wants [OF assms(2) j(1) holder_unfinished [OF assms(1) j]] by blast
  with ordered_wants_more [OF assms(1) j(1) \<open>j \<noteq> k\<close> j(2)] l(1) rank_le_3 [of l'] show False
    by fastforce
qed

lemma no_ordered_waits:
  assumes "disciplined k ts" "\<nexists>ts'. lock_step ts ts'"
  shows "i < length ts \<Longrightarrow> i \<noteq> k \<Longrightarrow> th_rest (ts ! i) = Acquire l m # rest \<Longrightarrow> False"
proof (induction "3 - rank l" arbitrary: i l m rest rule: less_induct)
  case less
  have "th_rest (ts ! i) \<noteq> []" using less.prems(3) by simp
  then have "\<not> grantable ts l m"
    using blocked_wants [OF assms(2) less.prems(1)] less.prems(3) by (metis lock_action.inject(1) list.inject)
  then obtain j where j: "j < length ts" "l \<in> set (locks_of (ts ! j))"
    using blocked_holder by blast
  have un: "th_rest (ts ! j) \<noteq> []" by (rule holder_unfinished [OF assms(1) j])
  have "j \<noteq> k" using un exceptional_finished [OF assms] j(1) by blast
  obtain l' m' rest' where l': "th_rest (ts ! j) = Acquire l' m' # rest'"
    using blocked_wants [OF assms(2) j(1) un] by blast
  have "rank l < rank l'" using ordered_wants_more [OF assms(1) j(1) \<open>j \<noteq> k\<close> j(2) l'] .
  then have "3 - rank l' < 3 - rank l" using rank_le_3 [of l'] by linarith
  from less.hyps [OF this j(1) \<open>j \<noteq> k\<close> l'] show False .
qed

lemma disciplined_progress:
  assumes "disciplined k ts" "\<not> finished ts"
  shows "\<exists>ts'. lock_step ts ts'"
proof (rule ccontr)
  assume stuck: "\<nexists>ts'. lock_step ts ts'"
  obtain i where i: "i < length ts" "th_rest (ts ! i) \<noteq> []"
    using assms(2) by (auto simp: finished_def list_all_iff in_set_conv_nth)
  show False
  proof (cases "i = k")
    case True
    with i exceptional_finished [OF assms(1) stuck] show False by simp
  next
    case False
    obtain l m rest where "th_rest (ts ! i) = Acquire l m # rest"
      using blocked_wants [OF stuck i] by blast
    with no_ordered_waits [OF assms(1) stuck i(1) False] show False by blast
  qed
qed

lemma start_disciplined:
  assumes "length (filter is_refund ops) \<le> 1"
  shows "\<exists>k. disciplined k (map start ops)"
proof -
  have "\<exists>k. \<forall>i < length ops. is_refund (ops ! i) \<longrightarrow> i = k"
  proof (rule ccontr)
    assume "\<not> ?thesis"
    then obtain i j where ij: "i < length ops" "is_refund (ops ! i)" "j < length ops"
      "is_refund (ops ! j)" "i \<noteq> j"
      by metis
    then have "card {i, j} \<le> card {i. i < length ops \<and> is_refund (ops ! i)}"
      by (intro card_mono) auto
    with assms ij(5) show False by (simp add: length_filter_conv_card)
  qed
  then have "\<exists>k. \<forall>i < length ops. i = k \<longleftrightarrow> is_refund (ops ! i)"
    by (metis order.strict_iff_not)
  then obtain k where k: "i < length ops \<Longrightarrow> i = k \<longleftrightarrow> is_refund (ops ! i)" for i by blast
  have "thread_ok (i = k) (map start ops ! i)" if "i < length ops" for i
    unfolding k [OF that] using that
    by (simp add: thread_ok_def start_def locks_of_def programs_ordered refund_top)
  then have "disciplined k (map start ops)" by (simp add: disciplined_def)
  then show ?thesis ..
qed

section \<open>Properties\<close>

text \<open>
  C9: any number of concurrent operations of which at most one is a refund never deadlocks: in
  every state they can reach, either all have finished or some operation can take its next step.
\<close>

theorem single_refund_no_deadlock:
  assumes "length (filter is_refund ops) \<le> 1" and "lock_step\<^sup>*\<^sup>* (map start ops) ts"
  shows "finished ts \<or> (\<exists>ts'. lock_step ts ts')"
proof -
  obtain k where "disciplined k (map start ops)" using start_disciplined [OF assms(1)] by blast
  then have "disciplined k ts" using assms(2) by (rule lock_discipline.reachable_inv)
  then show ?thesis using disciplined_progress by blast
qed

theorem single_refund_no_deadlock_witness:
  "finished (map start [OpCreateRefund True, OpDeleteCustomer, OpCreatePayment]) \<or>
    (\<exists>ts'. lock_step (map start [OpCreateRefund True, OpDeleteCustomer, OpCreatePayment]) ts')"
  by (rule single_refund_no_deadlock [of "[OpCreateRefund True, OpDeleteCustomer, OpCreatePayment]"])
    simp_all

definition refund_1 :: "thread" where
  "refund_1 = \<lparr>th_held = [(RefundsLock, Exclusive)],
     th_rest = [Acquire PaymentsLock Exclusive, Release PaymentsLock, Release RefundsLock]\<rparr>"

definition refund_2 :: "thread" where
  "refund_2 = \<lparr>th_held = [(PaymentsLock, Shared)],
     th_rest = [Acquire RefundsLock Exclusive, Release PaymentsLock,
       Acquire PaymentsLock Exclusive, Release PaymentsLock, Release RefundsLock]\<rparr>"

lemma refunds_reach:
  "lock_step\<^sup>*\<^sup>* (map start [OpCreateRefund True, OpCreateRefund True]) [refund_1, refund_2]"
proof -
  let ?P = "lock_program (OpCreateRefund True)"
  let ?s0 = "map start [OpCreateRefund True, OpCreateRefund True]"
  let ?a1 = "\<lparr>th_held = [(PaymentsLock, Shared)], th_rest = drop 1 ?P\<rparr>"
  let ?a2 = "\<lparr>th_held = [(RefundsLock, Exclusive), (PaymentsLock, Shared)], th_rest = drop 2 ?P\<rparr>"
  have 1: "lock_step ?s0 [?a1, start (OpCreateRefund True)]"
    using lock_step.acquire [of 0 ?s0 "[]" PaymentsLock Shared "drop 1 ?P"]
    by (simp add: start_def grantable_def)
  have 2: "lock_step [?a1, start (OpCreateRefund True)] [?a1, refund_2]"
    using lock_step.acquire [of 1 "[?a1, start (OpCreateRefund True)]" "[]" PaymentsLock Shared "drop 1 ?P"]
    by (simp add: start_def grantable_def refund_2_def)
  have 3: "lock_step [?a1, refund_2] [?a2, refund_2]"
    using lock_step.acquire [of 0 "[?a1, refund_2]" "[(PaymentsLock, Shared)]" RefundsLock Exclusive "drop 2 ?P"]
    by (simp add: grantable_def refund_2_def)
  have 4: "lock_step [?a2, refund_2] [refund_1, refund_2]"
    using lock_step.release [of 0 "[?a2, refund_2]" "[(RefundsLock, Exclusive), (PaymentsLock, Shared)]"
        PaymentsLock "drop 3 ?P"]
    by (simp add: refund_1_def)
  show ?thesis
    by (rule converse_rtranclp_into_rtranclp [of lock_step, OF 1])
      (rule converse_rtranclp_into_rtranclp [of lock_step, OF 2],
       rule converse_rtranclp_into_rtranclp [of lock_step, OF 3],
       rule r_into_rtranclp [of lock_step, OF 4])
qed

text \<open>
  C4: two concurrent refunds can deadlock. One has locked the refunds and waits to lock the
  payments for writing; the other still reads the payments and waits for the refunds; neither
  has finished and no step is possible.
\<close>

theorem concurrent_refunds_deadlock:
  "\<exists>ts. lock_step\<^sup>*\<^sup>* (map start [OpCreateRefund True, OpCreateRefund True]) ts \<and>
     \<not> finished ts \<and> (\<nexists>ts'. lock_step ts ts')"
proof (intro exI conjI notI)
  show "lock_step\<^sup>*\<^sup>* (map start [OpCreateRefund True, OpCreateRefund True]) [refund_1, refund_2]"
    by (rule refunds_reach)
  show False if "finished [refund_1, refund_2]"
    using that by (simp add: finished_def refund_1_def)
  show False if "\<exists>ts'. lock_step [refund_1, refund_2] ts'"
    using that
    by (auto elim!: lock_stepE simp: less_Suc_eq refund_1_def refund_2_def grantable_def)
qed

end
