(* ===== verification/Pipeline.thy ===== *)
theory Pipeline
  imports GatewayTypes
begin

text \<open>
  \<open>api/middleware.rs\<close>, \<open>core/pipeline.rs\<close>, \<open>api/process.rs\<close>, \<open>core/auth_middleware.rs\<close>
  with \<open>api/auth.rs\<close>, and \<open>core/metrics_bridge.rs\<close>.

  Middlewares, routers and collectors are trait objects the caller supplies: each is a function
  that may read and change a world \<open>'w\<close>, threaded in the order of the calls. A request middleware
  is the pair of its two methods. The log records written for observability are not part of the
  world.
\<close>

section \<open>Middleware\<close>

datatype ('req, 'resp) middleware_action = Continue 'req | ShortCircuit 'resp

record ('w, 'req, 'resp, 'e) request_middleware =
  rm_request :: "'req \<Rightarrow> 'w \<Rightarrow> ('req, 'e) result \<times> 'w"
  rm_action :: "'req \<Rightarrow> 'w \<Rightarrow> (('req, 'resp) middleware_action, 'e) result \<times> 'w"

type_synonym ('w, 'resp, 'e) response_middleware = "'resp \<Rightarrow> 'w \<Rightarrow> ('resp, 'e) result \<times> 'w"

type_synonym ('w, 'req, 'resp, 'e) router = "'req \<Rightarrow> 'w \<Rightarrow> ('resp, 'e) result \<times> 'w"

text \<open>The trait \<open>Pipeline\<close>: its \<open>execute\<close>.\<close>

type_synonym ('w, 'req, 'resp, 'e) pipeline = "'req \<Rightarrow> 'w \<Rightarrow> ('resp, 'e) result \<times> 'w"

text \<open>The default \<open>process_request_action\<close> wraps the result of \<open>process_request\<close>.\<close>

definition default_action ::
  "('req \<Rightarrow> 'w \<Rightarrow> ('req, 'e) result \<times> 'w) \<Rightarrow>
   'req \<Rightarrow> 'w \<Rightarrow> (('req, 'resp) middleware_action, 'e) result \<times> 'w" where
  "default_action process_request r w =
     (case process_request r w of (res, w') \<Rightarrow> (map_ok Continue res, w'))"

definition plain_middleware ::
  "('req \<Rightarrow> 'w \<Rightarrow> ('req, 'e) result \<times> 'w) \<Rightarrow> ('w, 'req, 'resp, 'e) request_middleware" where
  "plain_middleware f = \<lparr>rm_request = f, rm_action = default_action f\<rparr>"

section \<open>The pipeline\<close>

definition pipeline_router ::
  "('req \<Rightarrow> 'w \<Rightarrow> ('resp, 'e) result \<times> 'w) \<Rightarrow> ('w, 'req, 'resp, 'e) router" where
  "pipeline_router handler r w = handler r w"

record ('w, 'req, 'resp, 'e) default_pipeline =
  dp_pre :: "('w, 'req, 'resp, 'e) request_middleware list"
  dp_router :: "('w, 'req, 'resp, 'e) router"
  dp_post :: "('w, 'resp, 'e) response_middleware list"

definition default_pipeline_new ::
  "('w, 'req, 'resp, 'e) request_middleware list \<Rightarrow> ('w, 'req, 'resp, 'e) router \<Rightarrow>
   ('w, 'resp, 'e) response_middleware list \<Rightarrow> ('w, 'req, 'resp, 'e) default_pipeline" where
  "default_pipeline_new pre router post =
     \<lparr>dp_pre = pre, dp_router = router, dp_post = post\<rparr>"

definition pre_middleware_count :: "('w, 'req, 'resp, 'e) default_pipeline \<Rightarrow> nat" where
  "pre_middleware_count p = length (dp_pre p)"

definition post_middleware_count :: "('w, 'req, 'resp, 'e) default_pipeline \<Rightarrow> nat" where
  "post_middleware_count p = length (dp_post p)"

fun run_pre ::
  "('w, 'req, 'resp, 'e) request_middleware list \<Rightarrow> ('req, 'resp) middleware_action \<Rightarrow> 'w \<Rightarrow>
   (('req, 'resp) middleware_action, 'e) result \<times> 'w" where
  "run_pre [] state w = (Ok state, w)"
| "run_pre (mw # pre) (Continue req) w =
     (case rm_action mw req w of
        (Ok state, w') \<Rightarrow> run_pre pre state w'
      | (Err e, w') \<Rightarrow> (Err e, w'))"
| "run_pre (mw # pre) (ShortCircuit resp) w = (Ok (ShortCircuit resp), w)"

fun run_post ::
  "('w, 'resp, 'e) response_middleware list \<Rightarrow> 'resp \<Rightarrow> 'w \<Rightarrow> ('resp, 'e) result \<times> 'w" where
  "run_post [] resp w = (Ok resp, w)"
| "run_post (mw # post) resp w =
     (case mw resp w of
        (Ok resp', w') \<Rightarrow> run_post post resp' w'
      | (Err e, w') \<Rightarrow> (Err e, w'))"

definition dispatch_state ::
  "('w, 'req, 'resp, 'e) router \<Rightarrow> ('req, 'resp) middleware_action \<Rightarrow> 'w \<Rightarrow>
   ('resp, 'e) result \<times> 'w" where
  "dispatch_state router state w =
     (case state of ShortCircuit resp \<Rightarrow> (Ok resp, w) | Continue req \<Rightarrow> router req w)"

definition execute ::
  "('w, 'req, 'resp, 'e) default_pipeline \<Rightarrow> ('w, 'req, 'resp, 'e) pipeline" where
  "execute p request w =
     (case run_pre (dp_pre p) (Continue request) w of
        (Err e, w1) \<Rightarrow> (Err e, w1)
      | (Ok state, w1) \<Rightarrow>
          (case dispatch_state (dp_router p) state w1 of
             (Err e, w2) \<Rightarrow> (Err e, w2)
           | (Ok response, w2) \<Rightarrow> run_post (dp_post p) response w2))"

section \<open>Gateways over a pipeline\<close>

record request_metadata =
  rq_request_id :: string
  rq_session_id :: "string option"
  rq_timestamp :: timestamp
  rq_labels :: "string \<rightharpoonup> string"

definition request_metadata_new :: "string \<Rightarrow> timestamp \<Rightarrow> request_metadata" where
  "request_metadata_new uuid now =
     \<lparr>rq_request_id = uuid, rq_session_id = None, rq_timestamp = now, rq_labels = Map.empty\<rparr>"

definition with_session :: "string \<Rightarrow> request_metadata \<Rightarrow> request_metadata" where
  "with_session session_id md = md\<lparr>rq_session_id := Some session_id\<rparr>"

definition with_label :: "string \<Rightarrow> string \<Rightarrow> request_metadata \<Rightarrow> request_metadata" where
  "with_label k v md = md\<lparr>rq_labels := (rq_labels md)(k \<mapsto> v)\<rparr>"

record 'p input_request =
  iq_payload :: 'p
  iq_metadata :: request_metadata

definition input_request_new :: "string \<Rightarrow> timestamp \<Rightarrow> 'p \<Rightarrow> 'p input_request" where
  "input_request_new uuid now payload =
     \<lparr>iq_payload = payload, iq_metadata = request_metadata_new uuid now\<rparr>"

definition input_request_with_metadata :: "'p \<Rightarrow> request_metadata \<Rightarrow> 'p input_request" where
  "input_request_with_metadata payload md = \<lparr>iq_payload = payload, iq_metadata = md\<rparr>"

datatype process_status = Success | Blocked | Failed

record response_metadata =
  rsm_request_id :: string
  rsm_duration_ms :: u64
  rsm_status :: process_status

record 'r output_response =
  or_payload :: 'r
  or_metadata :: response_metadata

definition output_response_ok :: "string \<Rightarrow> u64 \<Rightarrow> 'r \<Rightarrow> 'r output_response" where
  "output_response_ok request_id duration_ms payload =
     \<lparr>or_payload = payload, or_metadata =
        \<lparr>rsm_request_id = request_id, rsm_duration_ms = duration_ms, rsm_status = Success\<rparr>\<rparr>"

definition output_response_blocked :: "string \<Rightarrow> u64 \<Rightarrow> 'r \<Rightarrow> 'r output_response" where
  "output_response_blocked request_id duration_ms payload =
     \<lparr>or_payload = payload, or_metadata =
        \<lparr>rsm_request_id = request_id, rsm_duration_ms = duration_ms, rsm_status = Blocked\<rparr>\<rparr>"

text \<open>
  The traits \<open>Gateway\<close> and \<open>PipelineGateway\<close>, and what the second provides: \<open>clock\<close> reads the
  monotonic clock in nanoseconds.
\<close>

record ('w, 'req, 'resp) gateway =
  gw_process :: "'req input_request \<Rightarrow> 'w \<Rightarrow> 'resp output_response gateway_result \<times> 'w"
  gw_health_check :: "'w \<Rightarrow> health_check gateway_result \<times> 'w"

record ('w, 'req, 'resp, 'preq, 'presp) pipeline_gateway =
  pgw_pipeline :: "('w, 'preq, 'presp, gateway_error) pipeline"
  pgw_into_pipeline_req :: "'req input_request \<Rightarrow> 'preq"
  pgw_into_response :: "'presp \<Rightarrow> string \<Rightarrow> u64 \<Rightarrow> 'resp output_response gateway_result"

definition process_via_pipeline ::
  "('w \<Rightarrow> nat) \<Rightarrow> ('w, 'req, 'resp, 'preq, 'presp) pipeline_gateway \<Rightarrow>
   'req input_request \<Rightarrow> 'w \<Rightarrow> 'resp output_response gateway_result \<times> 'w" where
  "process_via_pipeline clock g request w =
     (let start = clock w; request_id = rq_request_id (iq_metadata request) in
      case pgw_pipeline g (pgw_into_pipeline_req g request) w of
        (Err e, w') \<Rightarrow> (Err e, w')
      | (Ok resp, w') \<Rightarrow>
          (pgw_into_response g resp request_id (of_nat ((clock w' - start) div 1000000)), w'))"

section \<open>Authentication\<close>

text \<open>
  The SDK's authenticator and authorizer are parameters. An authorization is anything other than
  \<open>Allow\<close>, or \<open>Allow\<close>.
\<close>

record auth_claims =
  ac_subject :: string
  ac_claims :: "string \<rightharpoonup> string"

datatype authn_result = AuthnSuccess string "string \<rightharpoonup> string" | AuthnFailure string

datatype auth_result = Allow | NotAllowed

record auth_context =
  ctx_subject :: string
  ctx_resource :: string
  ctx_action :: string
  ctx_environment :: "string \<rightharpoonup> string"

record ('w, 'req, 'creds) auth_middleware =
  am_authenticator :: "'creds \<Rightarrow> 'w \<Rightarrow> authn_result \<times> 'w"
  am_authorizer :: "(auth_context \<Rightarrow> string \<Rightarrow> 'w \<Rightarrow> auth_result \<times> 'w) option"
  am_extractor :: "'req \<Rightarrow> 'w \<Rightarrow> 'creds option \<times> 'w"
  am_required_permission :: "string option"

definition auth_new ::
  "('creds \<Rightarrow> 'w \<Rightarrow> authn_result \<times> 'w) \<Rightarrow> ('req \<Rightarrow> 'w \<Rightarrow> 'creds option \<times> 'w) \<Rightarrow>
   ('w, 'req, 'creds) auth_middleware" where
  "auth_new authenticator extractor =
     \<lparr>am_authenticator = authenticator, am_authorizer = None, am_extractor = extractor,
      am_required_permission = None\<rparr>"

definition auth_with_authz ::
  "('creds \<Rightarrow> 'w \<Rightarrow> authn_result \<times> 'w) \<Rightarrow>
   (auth_context \<Rightarrow> string \<Rightarrow> 'w \<Rightarrow> auth_result \<times> 'w) \<Rightarrow>
   ('req \<Rightarrow> 'w \<Rightarrow> 'creds option \<times> 'w) \<Rightarrow> string \<Rightarrow> ('w, 'req, 'creds) auth_middleware" where
  "auth_with_authz authenticator authorizer extractor permission =
     \<lparr>am_authenticator = authenticator, am_authorizer = Some authorizer,
      am_extractor = extractor, am_required_permission = Some permission\<rparr>"

definition denied_text :: "string \<Rightarrow> string \<Rightarrow> string" where
  "denied_text subject permission =
     ''subject '' @ [CHR 0x27] @ subject @ [CHR 0x27] @ '' does not have permission '' @
     [CHR 0x27] @ permission @ [CHR 0x27]"

definition authorize_step ::
  "('w, 'req, 'creds) auth_middleware \<Rightarrow> string \<Rightarrow> 'w \<Rightarrow> unit gateway_result \<times> 'w" where
  "authorize_step am subject w =
     (case (am_authorizer am, am_required_permission am) of
        (Some authorizer, Some permission) \<Rightarrow>
          (case authorizer
                  \<lparr>ctx_subject = subject, ctx_resource = '''', ctx_action = '''',
                   ctx_environment = Map.empty\<rparr> permission w of
             (Allow, w') \<Rightarrow> (Ok (), w')
           | (NotAllowed, w') \<Rightarrow> (Err (permission_denied (denied_text subject permission)), w'))
      | _ \<Rightarrow> (Ok (), w))"

definition auth_action ::
  "('w, 'req, 'creds) auth_middleware \<Rightarrow> 'req \<Rightarrow> 'w \<Rightarrow>
   ('req, 'resp) middleware_action gateway_result \<times> 'w" where
  "auth_action am req w =
     (case am_extractor am req w of
        (None, w1) \<Rightarrow> (Err (permission_denied ''missing credentials''), w1)
      | (Some creds, w1) \<Rightarrow>
          (case am_authenticator am creds w1 of
             (AuthnFailure err, w2) \<Rightarrow>
               (Err (permission_denied (''authentication failed: '' @ err)), w2)
           | (AuthnSuccess subject claims, w2) \<Rightarrow>
               (case authorize_step am subject w2 of
                  (Err e, w3) \<Rightarrow> (Err e, w3)
                | (Ok _, w3) \<Rightarrow> (Ok (Continue req), w3))))"

definition auth_request ::
  "('w, 'req, 'creds) auth_middleware \<Rightarrow> 'req \<Rightarrow> 'w \<Rightarrow> 'req gateway_result \<times> 'w" where
  "auth_request am req w =
     (case auth_action am req w of
        (Ok (Continue r), w') \<Rightarrow> (Ok r, w')
      | (Ok (ShortCircuit (_ :: unit)), w') \<Rightarrow> (Err (permission_denied ''auth short-circuit''), w')
      | (Err e, w') \<Rightarrow> (Err e, w'))"

definition auth_middleware_object ::
  "('w, 'req, 'creds) auth_middleware \<Rightarrow> ('w, 'req, 'resp, gateway_error) request_middleware" where
  "auth_middleware_object am = \<lparr>rm_request = auth_request am, rm_action = auth_action am\<rparr>"

section \<open>Metrics\<close>

record metric_fields =
  mf_provider :: string
  mf_model :: string
  mf_status :: string
  mf_latency_secs :: f64
  mf_input_tokens :: u64
  mf_output_tokens :: u64

text \<open>The trait \<open>MetricsCollector\<close> is its method, on the provider, the model, the status and the measures.\<close>

type_synonym 'w metrics_collector =
  "string \<Rightarrow> string \<Rightarrow> string \<Rightarrow> f64 \<Rightarrow> u64 \<Rightarrow> u64 \<Rightarrow> 'w \<Rightarrow> 'w"

type_synonym 'w field_extractor = "json \<Rightarrow> 'w \<Rightarrow> metric_fields option \<times> 'w"

record 'w metrics_middleware =
  mm_collector :: "'w metrics_collector"
  mm_extractor :: "'w field_extractor"

definition metrics_middleware_new ::
  "'w metrics_collector \<Rightarrow> 'w field_extractor \<Rightarrow> 'w metrics_middleware" where
  "metrics_middleware_new collector extractor = \<lparr>mm_collector = collector, mm_extractor = extractor\<rparr>"

definition metrics_process_response ::
  "'w metrics_middleware \<Rightarrow> ('w, json, gateway_error) response_middleware" where
  "metrics_process_response m response w =
     (case mm_extractor m response w of
        (Some measured, w') \<Rightarrow>
          (Ok response, mm_collector m (mf_provider measured) (mf_model measured) (mf_status measured)
             (mf_latency_secs measured) (mf_input_tokens measured) (mf_output_tokens measured) w')
      | (None, w') \<Rightarrow> (Ok response, w'))"

section \<open>How stages compose\<close>

lemma run_pre_short [simp]: "run_pre pre (ShortCircuit resp) w = (Ok (ShortCircuit resp), w)"
  by (cases pre) auto

lemma run_pre_append:
  "run_pre (xs @ ys) state w =
     (case run_pre xs state w of
        (Ok state', w') \<Rightarrow> run_pre ys state' w'
      | (Err e, w') \<Rightarrow> (Err e, w'))"
  by (induction xs state w rule: run_pre.induct) (auto split: prod.splits result.splits)

lemma run_post_append:
  "run_post (xs @ ys) resp w =
     (case run_post xs resp w of
        (Ok resp', w') \<Rightarrow> run_post ys resp' w'
      | (Err e, w') \<Rightarrow> (Err e, w'))"
  by (induction xs resp w rule: run_post.induct) (auto split: prod.splits result.splits)

lemma run_pre_plain:
  "run_pre (map plain_middleware fs) (Continue req) w =
     (case run_post fs req w of (Ok r, w') \<Rightarrow> (Ok (Continue r), w') | (Err e, w') \<Rightarrow> (Err e, w'))"
  by (induction fs req w rule: run_post.induct)
    (auto simp: plain_middleware_def default_action_def split: prod.splits result.splits)

lemma pipeline_fields [simp]:
  "dp_pre (default_pipeline_new pre router post) = pre"
  "dp_router (default_pipeline_new pre router post) = router"
  "dp_post (default_pipeline_new pre router post) = post"
  by (simp_all add: default_pipeline_new_def)

text \<open>
  The contract of a middleware that only admits or rejects: it never changes the request and
  never answers in place of the router. In front of a pipeline it decides first, and what it
  admits the rest of the pipeline treats as if it were not there.
\<close>

locale guard_middleware =
  fixes mw :: "('w, 'req, 'resp, 'e) request_middleware"
  assumes admits: "rm_action mw r w = (Ok a, w') \<Longrightarrow> a = Continue r"
begin

lemma guard_first:
  "execute (default_pipeline_new (mw # pre) router post) r w =
     (case rm_action mw r w of
        (Err e, w') \<Rightarrow> (Err e, w')
      | (Ok _, w') \<Rightarrow> execute (default_pipeline_new pre router post) r w')"
  using admits [of r w] by (auto simp: execute_def split: prod.splits result.splits)

lemma passed_guard:
  assumes "execute (default_pipeline_new (mw # pre) router post) r w = (Ok resp, w')"
  obtains w1 where "rm_action mw r w = (Ok (Continue r), w1)"
    and "execute (default_pipeline_new pre router post) r w1 = (Ok resp, w')"
  using assms admits [of r w] by (auto simp: guard_first split: prod.splits result.splits)

end

lemma auth_action_Ok_iff:
  "auth_action am req w = (Ok a, w') \<longleftrightarrow>
     a = Continue req \<and>
     (\<exists>creds w1 subject claims w2.
        am_extractor am req w = (Some creds, w1) \<and>
        am_authenticator am creds w1 = (AuthnSuccess subject claims, w2) \<and>
        authorize_step am subject w2 = (Ok (), w'))"
  by (auto simp: auth_action_def split: prod.splits option.splits authn_result.splits result.splits)

lemma authorize_step_with [simp]:
  "authorize_step (auth_with_authz authenticator authorizer extractor perm) subject w = (Ok (), w') \<longleftrightarrow>
     authorizer \<lparr>ctx_subject = subject, ctx_resource = '''', ctx_action = '''',
       ctx_environment = Map.empty\<rparr> perm w = (Allow, w')"
  by (auto simp: authorize_step_def auth_with_authz_def split: prod.split auth_result.split)

lemma auth_with_authz_fields [simp]:
  "am_extractor (auth_with_authz authenticator authorizer extractor perm) = extractor"
  "am_authenticator (auth_with_authz authenticator authorizer extractor perm) = authenticator"
  by (simp_all add: auth_with_authz_def)

interpretation auth_guard: guard_middleware
  "auth_middleware_object am :: ('w, 'req, 'resp, gateway_error) request_middleware" for am
  by unfold_locales (simp add: auth_middleware_object_def auth_action_Ok_iff)

section \<open>Properties\<close>

text \<open>
  C14: a middleware that short-circuits ends the request phase: the middlewares after it and the
  router have no effect at all, and the post-middlewares run on its response, in the state it
  left.
\<close>

theorem short_circuit_skips_router:
  assumes "run_pre pre1 (Continue req) w = (Ok (Continue req1), w1)"
    and "rm_action mw req1 w1 = (Ok (ShortCircuit resp), w2)"
  shows "execute (default_pipeline_new (pre1 @ mw # pre2) router post) req w = run_post post resp w2"
  using assms by (simp add: execute_def run_pre_append dispatch_state_def)

definition demo_shortcut :: "(nat, nat, nat, gateway_error) request_middleware" where
  "demo_shortcut = \<lparr>rm_request = (\<lambda>r w. (Ok r, w)), rm_action = (\<lambda>r w. (Ok (ShortCircuit (r + 1)), w))\<rparr>"

theorem short_circuit_skips_router_witness:
  "execute (default_pipeline_new ([] @ demo_shortcut # [demo_shortcut]) (\<lambda>r w. (Err (internal []), w))
      [\<lambda>x w. (Ok (2 * x), Suc w)]) 4 0 =
    run_post [\<lambda>x w. (Ok (2 * x), Suc w)] (5::nat) (0::nat)"
  by (rule short_circuit_skips_router [of _ _ _ 4 0]) (simp_all add: demo_shortcut_def)

text \<open>
  the first stage that fails ends the whole execution with its error and in its state: a
  failing request middleware stops before the router, a failing router before the
  post-middlewares, a failing post-middleware before those after it.
\<close>

theorem first_failure_decides:
  assumes "run_pre pre1 (Continue req) w = (Ok (Continue req1), w1)"
  shows "(rm_action mw req1 w1 = (Err e, w2) \<longrightarrow>
      execute (default_pipeline_new (pre1 @ mw # pre2) router post) req w = (Err e, w2)) \<and>
    (router req1 w1 = (Err e, w2) \<longrightarrow>
      execute (default_pipeline_new pre1 router post) req w = (Err e, w2)) \<and>
    (router req1 w1 = (Ok resp, w2) \<longrightarrow> run_post post1 resp w2 = (Ok resp1, w3) \<longrightarrow>
      pm resp1 w3 = (Err e, w4) \<longrightarrow>
      execute (default_pipeline_new pre1 router (post1 @ pm # post2)) req w = (Err e, w4))"
  using assms by (simp add: execute_def run_pre_append run_post_append dispatch_state_def)

theorem first_failure_decides_witness:
  "execute (default_pipeline_new [] (\<lambda>r w. (Err (internal []), Suc w)) [\<lambda>(x::nat) w. (Ok x, w + 5)])
     (1::nat) (0::nat) = (Err (internal []), Suc 0)"
  using first_failure_decides [of "[]" "1::nat" "0::nat" 1 0 undefined "internal []" "Suc 0" "[]"
      "\<lambda>r w. (Err (internal []), Suc w)" "[\<lambda>(x::nat) w. (Ok x, w + 5)]"]
  by simp

text \<open>
  with middlewares that implement only \<open>process_request\<close>, a pipeline is the sequential
  composition of all its stages: request stages in order, router, response stages in order.
\<close>

theorem plain_pipeline_composes:
  "execute (default_pipeline_new (map plain_middleware fs) router post) req w =
     (case run_post fs req w of
        (Err e, w1) \<Rightarrow> (Err e, w1)
      | (Ok req', w1) \<Rightarrow>
          (case router req' w1 of
             (Err e, w2) \<Rightarrow> (Err e, w2)
           | (Ok resp, w2) \<Rightarrow> run_post post resp w2))"
  by (simp add: execute_def run_pre_plain dispatch_state_def split: prod.split result.split)

text \<open>
  C15: a pipeline that starts with the authentication middleware answers only requests whose
  credentials were extracted and authenticated and whose subject was allowed the required
  permission; the rest of the pipeline then runs on the unchanged request.
\<close>

theorem auth_required:
  fixes req :: 'req and resp :: 'resp
  assumes "execute (default_pipeline_new
      (auth_middleware_object (auth_with_authz authenticator authorizer extractor perm) # pre)
      router post) req w = (Ok resp, w')"
  shows "\<exists>creds w1 subject claims w2 w3.
    extractor req w = (Some creds, w1) \<and>
    authenticator creds w1 = (AuthnSuccess subject claims, w2) \<and>
    authorizer \<lparr>ctx_subject = subject, ctx_resource = '''', ctx_action = '''',
      ctx_environment = Map.empty\<rparr> perm w2 = (Allow, w3) \<and>
    execute (default_pipeline_new pre router post) req w3 = (Ok resp, w')"
proof -
  let ?am = "auth_with_authz authenticator authorizer extractor perm"
  obtain w1 where "rm_action (auth_middleware_object ?am) req w =
      (Ok (Continue req) :: ('req, 'resp) middleware_action gateway_result, w1)"
    and rest: "execute (default_pipeline_new pre router post) req w1 = (Ok resp, w')"
    by (rule auth_guard.passed_guard [OF assms])
  then have "auth_action ?am req w =
      (Ok (Continue req) :: ('req, 'resp) middleware_action gateway_result, w1)"
    by (simp add: auth_middleware_object_def)
  with rest show ?thesis unfolding auth_action_Ok_iff authorize_step_with auth_with_authz_fields by blast
qed

definition demo_extract :: "nat \<Rightarrow> nat \<Rightarrow> nat option \<times> nat" where
  "demo_extract r w = (if r = 0 then None else Some r, w)"

definition demo_authenticate :: "nat \<Rightarrow> nat \<Rightarrow> authn_result \<times> nat" where
  "demo_authenticate c w = (AuthnSuccess ''bob'' Map.empty, Suc w)"

definition demo_authorize :: "auth_context \<Rightarrow> string \<Rightarrow> nat \<Rightarrow> auth_result \<times> nat" where
  "demo_authorize c p w = (if ctx_subject c = ''bob'' then Allow else NotAllowed, w)"

definition demo_route :: "nat \<Rightarrow> nat \<Rightarrow> nat gateway_result \<times> nat" where
  "demo_route r w = (Ok (r + 1), w)"

theorem auth_required_witness:
  "\<exists>creds w1 subject claims w2 w3.
    demo_extract 7 0 = (Some creds, w1) \<and>
    demo_authenticate creds w1 = (AuthnSuccess subject claims, w2) \<and>
    demo_authorize \<lparr>ctx_subject = subject, ctx_resource = '''', ctx_action = '''',
      ctx_environment = Map.empty\<rparr> ''read'' w2 = (Allow, w3) \<and>
    execute (default_pipeline_new [] demo_route []) 7 w3 = (Ok 8, 1)"
  by (rule auth_required)
    (simp add: execute_def auth_middleware_object_def auth_action_def auth_with_authz_def
      authorize_step_def dispatch_state_def demo_extract_def demo_authenticate_def
      demo_authorize_def demo_route_def)

text \<open>
  a request without credentials is refused before any other stage: the result is a
  permission error, and the state is the one the extractor left.
\<close>

theorem missing_credentials_denied:
  assumes "extractor req w = (None, w1)"
  shows "execute (default_pipeline_new
      (auth_middleware_object (auth_new authenticator extractor) # pre) router post) req w =
    (Err (permission_denied ''missing credentials''), w1)"
  using assms
  by (simp add: auth_guard.guard_first) (simp add: auth_middleware_object_def auth_action_def auth_new_def)

theorem missing_credentials_denied_witness:
  "execute (default_pipeline_new
      (auth_middleware_object (auth_new (\<lambda>(c::nat) w. (AuthnFailure [], w)) (\<lambda>r w. (None, Suc w))) # [])
      (\<lambda>r w. (Ok (), w)) []) (1::nat) (0::nat) =
    (Err (permission_denied ''missing credentials''), 1)"
  by (rule missing_credentials_denied) simp

end
