(* ===== verification/Retry.thy ===== *)
theory Retry
  imports Pipeline
begin

text \<open>
  \<open>core/retry.rs\<close>: backoff delays, the retry loop and its builder. A \<open>Duration\<close> is its number
  of nanoseconds. The inner middleware and the sleeper act on the world \<open>'w\<close>; \<open>subsec\<close> reads the
  sub-second nanoseconds of the system clock, which seed the jitter.
\<close>

type_synonym duration = nat

definition from_millis :: "u64 \<Rightarrow> duration" where
  "from_millis ms = unat ms * 1000000"

text \<open>\<open>as_millis() as u64\<close> keeps the low 64 bits.\<close>

definition as_millis_u64 :: "duration \<Rightarrow> u64" where
  "as_millis_u64 d = of_nat (d div 1000000)"

datatype backoff_strategy = Fixed duration | Exponential duration bool

fun compute_delay :: "('w \<Rightarrow> u64) \<Rightarrow> backoff_strategy \<Rightarrow> u32 \<Rightarrow> 'w \<Rightarrow> duration" where
  "compute_delay subsec (Fixed delay) attempt w = delay"
| "compute_delay subsec (Exponential base jitter) attempt w =
     (let multiplier = saturating_pow 2 (unat attempt);
          base_ms = as_millis_u64 base;
          delay_ms = saturating_mul base_ms multiplier
      in if jitter then
           (let nanos = subsec w;
                jitter_ms = (if 0 < delay_ms then nanos mod delay_ms else 0)
            in from_millis (saturating_add delay_ms jitter_ms))
         else from_millis delay_ms)"

type_synonym retry_predicate = "gateway_error \<Rightarrow> bool"

definition default_retry_predicate :: retry_predicate where
  "default_retry_predicate err = is_retryable err"

text \<open>The trait \<open>Sleeper\<close> is its method; it takes the time it is asked to.\<close>

type_synonym 'w sleeper = "duration \<Rightarrow> 'w \<Rightarrow> 'w"

record ('w, 'req, 'resp) retry_middleware =
  rt_max_attempts :: u32
  rt_backoff :: backoff_strategy
  rt_predicate :: retry_predicate
  rt_inner :: "('w, 'req, 'resp, gateway_error) request_middleware"
  rt_sleeper :: "'w sleeper"

definition retry_middleware_new ::
  "u32 \<Rightarrow> backoff_strategy \<Rightarrow> retry_predicate \<Rightarrow> ('w, 'req, 'resp, gateway_error) request_middleware \<Rightarrow>
   'w sleeper \<Rightarrow> ('w, 'req, 'resp) retry_middleware" where
  "retry_middleware_new max_attempts backoff predicate inner sleeper =
     \<lparr>rt_max_attempts = max_attempts, rt_backoff = backoff, rt_predicate = predicate,
      rt_inner = inner, rt_sleeper = sleeper\<rparr>"

text \<open>The \<open>for\<close> loop over the attempt numbers; \<open>last_error\<close> is the local variable.\<close>

fun retry_loop ::
  "('w \<Rightarrow> u64) \<Rightarrow> ('w, 'req, 'resp) retry_middleware \<Rightarrow> 'req \<Rightarrow> nat list \<Rightarrow>
   gateway_error option \<Rightarrow> 'w \<Rightarrow> 'req gateway_result \<times> 'w" where
  "retry_loop subsec rt req [] last_error w =
     (Err (case last_error of
             Some e \<Rightarrow> e
           | None \<Rightarrow> internal ''retry loop exited without result or error''), w)"
| "retry_loop subsec rt req (attempt # attempts) last_error w =
     (case rm_request (rt_inner rt) req w of
        (Ok response, w1) \<Rightarrow> (Ok response, w1)
      | (Err err, w1) \<Rightarrow>
          (let is_last_attempt = (unat (rt_max_attempts rt) \<le> attempt + 1);
               retry = rt_predicate rt err
           in if is_last_attempt \<or> \<not> retry then (Err err, w1)
              else
                (let delay = compute_delay subsec (rt_backoff rt) (of_nat attempt) w1;
                     w2 = rt_sleeper rt delay w1
                 in retry_loop subsec rt req attempts (Some err) w2)))"

definition retry_request ::
  "('w \<Rightarrow> u64) \<Rightarrow> ('w, 'req, 'resp) retry_middleware \<Rightarrow> 'req \<Rightarrow> 'w \<Rightarrow> 'req gateway_result \<times> 'w" where
  "retry_request subsec rt req w =
     retry_loop subsec rt req [0..<unat (rt_max_attempts rt)] None w"

text \<open>The trait object: only \<open>process_request\<close> is implemented.\<close>

definition retry_middleware_object ::
  "('w \<Rightarrow> u64) \<Rightarrow> ('w, 'req, 'resp) retry_middleware \<Rightarrow>
   ('w, 'req, 'resp, gateway_error) request_middleware" where
  "retry_middleware_object subsec rt = plain_middleware (retry_request subsec rt)"

section \<open>Builder\<close>

record 'w retry_builder =
  rb_max_attempts :: u32
  rb_backoff :: backoff_strategy
  rb_predicate :: retry_predicate
  rb_sleeper :: "'w sleeper option"

definition retry_builder_new :: "'w retry_builder" where
  "retry_builder_new =
     \<lparr>rb_max_attempts = 3, rb_backoff = Exponential (from_millis 200) True,
      rb_predicate = default_retry_predicate, rb_sleeper = None\<rparr>"

text \<open>The builder panics on zero attempts.\<close>

definition rb_set_max_attempts :: "u32 \<Rightarrow> 'w retry_builder \<Rightarrow> 'w retry_builder option" where
  "rb_set_max_attempts n b = (if 0 < n then Some (b\<lparr>rb_max_attempts := n\<rparr>) else None)"

definition rb_fixed_backoff :: "duration \<Rightarrow> 'w retry_builder \<Rightarrow> 'w retry_builder" where
  "rb_fixed_backoff delay b = b\<lparr>rb_backoff := Fixed delay\<rparr>"

definition rb_exponential_backoff :: "duration \<Rightarrow> bool \<Rightarrow> 'w retry_builder \<Rightarrow> 'w retry_builder" where
  "rb_exponential_backoff base jitter b = b\<lparr>rb_backoff := Exponential base jitter\<rparr>"

definition rb_retry_predicate :: "retry_predicate \<Rightarrow> 'w retry_builder \<Rightarrow> 'w retry_builder" where
  "rb_retry_predicate p b = b\<lparr>rb_predicate := p\<rparr>"

text \<open>\<open>tokio_sleep\<close> is the runtime's sleep, used when no sleeper was injected.\<close>

definition rb_build_with ::
  "'w sleeper \<Rightarrow> 'w retry_builder \<Rightarrow>
   ('w, 'req, 'resp, gateway_error) request_middleware \<Rightarrow> ('w, 'req, 'resp) retry_middleware" where
  "rb_build_with tokio_sleep b inner =
     retry_middleware_new (rb_max_attempts b) (rb_backoff b) (rb_predicate b) inner
       (case rb_sleeper b of Some s \<Rightarrow> s | None \<Rightarrow> tokio_sleep)"

text \<open>\<open>build\<close> hands the same fields to a specification, which \<open>wrap\<close> finishes.\<close>

record 'w retry_spec =
  rs_max_attempts :: u32
  rs_backoff :: backoff_strategy
  rs_predicate :: retry_predicate
  rs_sleeper :: "'w sleeper option"

definition rb_build :: "'w retry_builder \<Rightarrow> 'w retry_spec" where
  "rb_build b =
     \<lparr>rs_max_attempts = rb_max_attempts b, rs_backoff = rb_backoff b,
      rs_predicate = rb_predicate b, rs_sleeper = rb_sleeper b\<rparr>"

definition rs_wrap ::
  "'w sleeper \<Rightarrow> 'w retry_spec \<Rightarrow>
   ('w, 'req, 'resp, gateway_error) request_middleware \<Rightarrow> ('w, 'req, 'resp) retry_middleware" where
  "rs_wrap tokio_sleep s inner =
     retry_middleware_new (rs_max_attempts s) (rs_backoff s) (rs_predicate s) inner
       (case rs_sleeper s of Some sl \<Rightarrow> sl | None \<Rightarrow> tokio_sleep)"

section \<open>Delays\<close>

lemma saturating_mul_pow:
  "unat (saturating_mul b (saturating_pow 2 n)) = min u64_max (unat b * 2 ^ n)"
proof (cases "unat b = 0")
  case False
  then have "min u64_max (unat b * min u64_max (2 ^ n)) = min u64_max (unat b * 2 ^ n)"
  proof (cases "u64_max \<le> (2::nat) ^ n")
    case True
    have "u64_max \<le> unat b * u64_max" using False by simp
    moreover have "u64_max \<le> unat b * 2 ^ n"
      using True False by (metis le_trans mult_le_mono1 nat_mult_1 One_nat_def Suc_leI neq0_conv)
    ultimately show ?thesis using True by (simp add: min_def)
  qed (simp add: min_def)
  then show ?thesis by simp
qed simp

text \<open>The delay without jitter, in milliseconds, by the documented formula.\<close>

definition base_delay_ms :: "duration \<Rightarrow> nat \<Rightarrow> nat" where
  "base_delay_ms base attempt = min u64_max (unat (as_millis_u64 base) * 2 ^ attempt)"

lemma compute_delay_plain:
  "compute_delay subsec (Exponential base False) attempt w =
     base_delay_ms base (unat attempt) * 1000000"
  by (simp add: from_millis_def base_delay_ms_def saturating_mul_pow del: unat_saturating)

lemma compute_delay_jitter:
  "\<exists>j. compute_delay subsec (Exponential base True) attempt w =
      min u64_max (base_delay_ms base (unat attempt) + j) * 1000000 \<and>
    (if base_delay_ms base (unat attempt) = 0 then j = 0 else j < base_delay_ms base (unat attempt))"
proof -
  let ?d = "saturating_mul (as_millis_u64 base) (saturating_pow 2 (unat attempt))"
  let ?j = "if 0 < ?d then subsec w mod ?d else 0"
  have d: "unat ?d = base_delay_ms base (unat attempt)"
    by (simp add: base_delay_ms_def saturating_mul_pow del: unat_saturating)
  have j: "if unat ?d = 0 then unat ?j = 0 else unat ?j < unat ?d"
    by (auto simp: unat_mod word_less_nat_alt simp del: unat_saturating)
  have "compute_delay subsec (Exponential base True) attempt w =
      min u64_max (unat ?d + unat ?j) * 1000000"
    by (simp only: compute_delay.simps Let_def from_millis_def unat_saturating(1) if_True)
  with j d show ?thesis by metis
qed

section \<open>The attempts\<close>

text \<open>The world before attempt \<open>n\<close>, when all earlier attempts failed and were waited for.\<close>

fun world_before ::
  "('w \<Rightarrow> u64) \<Rightarrow> ('w, 'req, 'resp) retry_middleware \<Rightarrow> 'req \<Rightarrow> 'w \<Rightarrow> nat \<Rightarrow> 'w" where
  "world_before subsec rt req w 0 = w"
| "world_before subsec rt req w (Suc n) =
     (let w1 = snd (rm_request (rt_inner rt) req (world_before subsec rt req w n))
      in rt_sleeper rt (compute_delay subsec (rt_backoff rt) (of_nat n) w1) w1)"

definition nth_attempt ::
  "('w \<Rightarrow> u64) \<Rightarrow> ('w, 'req, 'resp) retry_middleware \<Rightarrow> 'req \<Rightarrow> 'w \<Rightarrow> nat \<Rightarrow>
   'req gateway_result \<times> 'w" where
  "nth_attempt subsec rt req w n = rm_request (rt_inner rt) req (world_before subsec rt req w n)"

definition to_be_retried ::
  "('w, 'req, 'resp) retry_middleware \<Rightarrow> 'req gateway_result \<Rightarrow> bool" where
  "to_be_retried rt res = (case res of Ok _ \<Rightarrow> False | Err e \<Rightarrow> rt_predicate rt e)"

lemma retry_loop_attempts:
  assumes "k < unat (rt_max_attempts rt)"
  shows "\<exists>n. k \<le> n \<and> n < unat (rt_max_attempts rt) \<and>
    (\<forall>i. k \<le> i \<and> i < n \<longrightarrow> to_be_retried rt (fst (nth_attempt subsec rt req w i))) \<and>
    (n + 1 < unat (rt_max_attempts rt) \<longrightarrow>
       \<not> to_be_retried rt (fst (nth_attempt subsec rt req w n))) \<and>
    retry_loop subsec rt req [k..<unat (rt_max_attempts rt)] last_error
      (world_before subsec rt req w k) = nth_attempt subsec rt req w n"
  using assms
proof (induction "unat (rt_max_attempts rt) - k" arbitrary: k last_error)
  case (Suc d)
  let ?m = "unat (rt_max_attempts rt)"
  obtain res w1 where att: "nth_attempt subsec rt req w k = (res, w1)" by fastforce
  have upt: "[k..<?m] = k # [Suc k..<?m]" using Suc.prems by (rule upt_conv_Cons)
  show ?case
  proof (cases "to_be_retried rt res \<and> Suc k < ?m")
    case True
    then obtain e where e: "res = Err e" "rt_predicate rt e"
      by (auto simp: to_be_retried_def split: result.splits)
    from Suc.hyps(2) have "d = ?m - Suc k" by simp
    from Suc.hyps(1) [OF this, of "Some e"] True obtain n where n: "Suc k \<le> n" "n < ?m"
      "\<forall>i. Suc k \<le> i \<and> i < n \<longrightarrow> to_be_retried rt (fst (nth_attempt subsec rt req w i))"
      "n + 1 < ?m \<longrightarrow> \<not> to_be_retried rt (fst (nth_attempt subsec rt req w n))"
      "retry_loop subsec rt req [Suc k..<?m] (Some e) (world_before subsec rt req w (Suc k)) =
        nth_attempt subsec rt req w n"
      by blast
    have "retry_loop subsec rt req [k..<?m] last_error (world_before subsec rt req w k) =
        nth_attempt subsec rt req w n"
      using n(5) att e True by (simp add: upt nth_attempt_def Let_def)
    moreover have "to_be_retried rt (fst (nth_attempt subsec rt req w i))" if "k \<le> i" "i < n" for i
      using n(3) that att True by (cases "i = k") auto
    ultimately show ?thesis using n(1,2,4) by (intro exI [of _ n]) auto
  next
    case False
    then have "retry_loop subsec rt req [k..<?m] last_error (world_before subsec rt req w k) =
        nth_attempt subsec rt req w k"
      using att by (auto simp: upt nth_attempt_def to_be_retried_def Let_def split: result.splits)
    with False att Suc.prems show ?thesis by (intro exI [of _ k]) auto
  qed
qed simp

lemma retry_loop_inner:
  "retry_loop subsec (rt\<lparr>rt_inner := plain_middleware (rm_request (rt_inner rt))\<rparr>) req ks le w =
   retry_loop subsec rt req ks le w"
  by (induction ks arbitrary: le w)
    (auto simp: plain_middleware_def Let_def split: prod.split result.split)

section \<open>Properties\<close>

text \<open>
  C12: with at least one attempt allowed the retry middleware makes some number of attempts, each
  but the last a failure the predicate accepts, each followed by the wait the backoff computes
  for it, and returns the last attempt's outcome unchanged. It stops early only on success or on
  an error the predicate rejects, and never attempts more often than allowed.
\<close>

theorem retry_attempts:
  assumes "0 < rt_max_attempts rt"
  shows "\<exists>n < unat (rt_max_attempts rt).
    (\<forall>i < n. to_be_retried rt (fst (nth_attempt subsec rt req w i))) \<and>
    (n + 1 < unat (rt_max_attempts rt) \<longrightarrow>
       \<not> to_be_retried rt (fst (nth_attempt subsec rt req w n))) \<and>
    retry_request subsec rt req w = nth_attempt subsec rt req w n"
proof -
  have "0 < unat (rt_max_attempts rt)" using assms by (simp add: word_less_nat_alt)
  from retry_loop_attempts [OF this, of subsec req w None] show ?thesis
    by (auto simp: retry_request_def)
qed

definition demo_flaky :: "(nat list, nat, nat, gateway_error) request_middleware" where
  "demo_flaky = plain_middleware (\<lambda>r w.
     if length w < 2 then (Err (gateway_error.Timeout ''t''), w) else (Ok r, w))"

definition demo_retry :: "(nat list, nat, nat) retry_middleware" where
  "demo_retry = rb_build_with (\<lambda>d w. d # w)
     (rb_exponential_backoff (from_millis 10) False retry_builder_new) demo_flaky"

lemma demo_retry_run: "retry_request (\<lambda>_. 0) demo_retry 7 [] = (Ok 7, [20000000, 10000000])"
  by (simp add: retry_request_def demo_retry_def demo_flaky_def rb_build_with_def retry_middleware_new_def
      retry_builder_new_def rb_exponential_backoff_def default_retry_predicate_def
      plain_middleware_def upt_rec Let_def from_millis_def as_millis_u64_def saturating_mul_def
      saturating_pow_def u64_max_def)

theorem retry_attempts_witness:
  "\<exists>n. n < unat (3::u32) \<and>
    retry_request (\<lambda>_. 0) demo_retry 7 [] = nth_attempt (\<lambda>_. 0) demo_retry 7 [] n"
  using retry_attempts [of demo_retry "\<lambda>_. 0" 7 "[]"]
  by (auto simp: demo_retry_def rb_build_with_def retry_middleware_new_def retry_builder_new_def rb_exponential_backoff_def)

text \<open>
  C34: the delays. A fixed backoff waits its delay. An exponential one waits, in whole
  milliseconds, the base times two to the attempt number, at most \<open>2 ^ 64 - 1\<close>; jitter adds
  less than that again, so a wait is at least the plain delay and, before saturation, below
  twice it.
\<close>

theorem backoff_delays:
  "compute_delay subsec (Fixed d) attempt w = d \<and>
   compute_delay subsec (Exponential base False) attempt w =
     min u64_max (unat (as_millis_u64 base) * 2 ^ unat attempt) * 1000000 \<and>
   (\<exists>j. compute_delay subsec (Exponential base True) attempt w =
       min u64_max (min u64_max (unat (as_millis_u64 base) * 2 ^ unat attempt) + j) * 1000000 \<and>
     (if min u64_max (unat (as_millis_u64 base) * 2 ^ unat attempt) = 0 then j = 0
      else j < min u64_max (unat (as_millis_u64 base) * 2 ^ unat attempt)))"
  using compute_delay_plain [of subsec base attempt w] compute_delay_jitter [of subsec base attempt w]
  unfolding base_delay_ms_def by (intro conjI) simp_all

text \<open>
  an exponential backoff with a base below one millisecond never waits at all, with or
  without jitter, at any attempt.
\<close>

theorem submillisecond_base_never_waits:
  assumes "base < 1000000"
  shows "compute_delay subsec (Exponential base jitter) attempt w = 0"
proof -
  have "base_delay_ms base (unat attempt) = 0"
    using assms by (simp add: base_delay_ms_def as_millis_u64_def)
  then show ?thesis
    using compute_delay_plain [of subsec base attempt w] compute_delay_jitter [of subsec base attempt w]
    by (cases jitter) (auto simp del: compute_delay.simps)
qed

theorem submillisecond_base_never_waits_witness:
  "compute_delay (\<lambda>_. 5) (Exponential 999999 True) 10 () = 0"
  by (rule submillisecond_base_never_waits) simp


end
