(* ===== verification/RateLimit.thy ===== *)
theory RateLimit
  imports Pipeline
begin

text \<open>
  \<open>core/rate_limit.rs\<close>: the token bucket. Its arithmetic is that of doubles, rounding included.
  An \<open>Instant\<close> is its number of nanoseconds; every operation takes the instant at which the
  lock was obtained, and the difference to an earlier instant is zero where the clock would run
  backwards. The bucket's state is what the mutex protects, so concurrent calls are sequences of
  the operations below.
\<close>

definition default_capacity :: u64 where
  "default_capacity = 100"

definition default_refill_rate :: f64 where
  "default_refill_rate = Fin 10"

text \<open>The literal \<open>0.001\<close> is the double next to it.\<close>

definition min_refill_rate :: f64 where
  "min_refill_rate = round_f64 (1 / 1000)"

record rate_limiter_builder =
  rlb_capacity :: u64
  rlb_refill_rate :: f64

definition rate_limiter_builder_new :: rate_limiter_builder where
  "rate_limiter_builder_new =
     \<lparr>rlb_capacity = default_capacity, rlb_refill_rate = default_refill_rate\<rparr>"

definition rlb_set_capacity :: "u64 \<Rightarrow> rate_limiter_builder \<Rightarrow> rate_limiter_builder" where
  "rlb_set_capacity c b = b\<lparr>rlb_capacity := max c 1\<rparr>"

definition rlb_set_refill_rate :: "f64 \<Rightarrow> rate_limiter_builder \<Rightarrow> rate_limiter_builder" where
  "rlb_set_refill_rate rate b = b\<lparr>rlb_refill_rate := max_f64 rate min_refill_rate\<rparr>"

record bucket_state =
  bs_tokens :: f64
  bs_last_refill :: nat

record rate_limiter =
  rl_state :: bucket_state
  rl_capacity :: u64
  rl_refill_rate :: f64

definition rlb_build :: "nat \<Rightarrow> rate_limiter_builder \<Rightarrow> rate_limiter" where
  "rlb_build now b =
     \<lparr>rl_state = \<lparr>bs_tokens = f64_of_u64 (rlb_capacity b), bs_last_refill = now\<rparr>,
      rl_capacity = rlb_capacity b, rl_refill_rate = rlb_refill_rate b\<rparr>"

definition rate_limiter_new :: "nat \<Rightarrow> u64 \<Rightarrow> f64 \<Rightarrow> rate_limiter" where
  "rate_limiter_new now capacity rate =
     rlb_build now (rlb_set_refill_rate rate (rlb_set_capacity capacity rate_limiter_builder_new))"

text \<open>\<open>as_secs_f64\<close>: whole seconds plus the nanoseconds divided by ten to the ninth.\<close>

definition as_secs_f64 :: "nat \<Rightarrow> f64" where
  "as_secs_f64 ns =
     add_f64 (round_f64 (of_nat (ns div 1000000000)))
       (div_f64_const (round_f64 (of_nat (ns mod 1000000000))) 1000000000)"

definition refill :: "nat \<Rightarrow> rate_limiter \<Rightarrow> rate_limiter" where
  "refill now rl =
     (let s = rl_state rl;
          elapsed = as_secs_f64 (now - bs_last_refill s);
          new_tokens = add_f64 (bs_tokens s) (mul_f64 elapsed (rl_refill_rate rl))
      in rl\<lparr>rl_state := \<lparr>bs_tokens = min_f64 new_tokens (f64_of_u64 (rl_capacity rl)),
              bs_last_refill = now\<rparr>\<rparr>)"

definition exceeded_text :: "rate_limiter \<Rightarrow> string" where
  "exceeded_text rl =
     ''capacity '' @ show_nat (unat (rl_capacity rl)) @ '', refill rate '' @
     show_f64 (rl_refill_rate rl) @ ''/s '' @ map char_of [226, 128, 148 :: nat] @
     '' try again shortly''"

definition try_acquire :: "nat \<Rightarrow> rate_limiter \<Rightarrow> unit gateway_result \<times> rate_limiter" where
  "try_acquire now rl =
     (let rl1 = refill now rl; s = rl_state rl1 in
      if ge_f64 (bs_tokens s) (Fin 1)
      then (Ok (), rl1\<lparr>rl_state := s\<lparr>bs_tokens := sub_f64 (bs_tokens s) (Fin 1)\<rparr>\<rparr>)
      else (Err (RateLimitExceeded (exceeded_text rl)), rl1))"

definition available_tokens :: "nat \<Rightarrow> rate_limiter \<Rightarrow> u64 \<times> rate_limiter" where
  "available_tokens now rl =
     (let rl1 = refill now rl in (f64_to_u64 (bs_tokens (rl_state rl1)), rl1))"

text \<open>
  As a middleware: \<open>clock\<close> reads the time, \<open>read_limiter\<close> and \<open>write_limiter\<close> access the
  limiter inside the world.
\<close>

definition rate_limit_request ::
  "('w \<Rightarrow> nat) \<Rightarrow> ('w \<Rightarrow> rate_limiter) \<Rightarrow> (rate_limiter \<Rightarrow> 'w \<Rightarrow> 'w) \<Rightarrow>
   'req \<Rightarrow> 'w \<Rightarrow> 'req gateway_result \<times> 'w" where
  "rate_limit_request clock read_limiter write_limiter request w =
     (case try_acquire (clock w) (read_limiter w) of
        (Ok _, rl) \<Rightarrow> (Ok request, write_limiter rl w)
      | (Err e, rl) \<Rightarrow> (Err e, write_limiter rl w))"

definition rate_limit_object ::
  "('w \<Rightarrow> nat) \<Rightarrow> ('w \<Rightarrow> rate_limiter) \<Rightarrow> (rate_limiter \<Rightarrow> 'w \<Rightarrow> 'w) \<Rightarrow>
   ('w, 'req, 'resp, gateway_error) request_middleware" where
  "rate_limit_object clock read_limiter write_limiter =
     plain_middleware (rate_limit_request clock read_limiter write_limiter)"

section \<open>The bucket's invariant\<close>

definition capacity_f64 :: "rate_limiter \<Rightarrow> rat" where
  "capacity_f64 rl = rnd (of_nat (unat (rl_capacity rl)))"

definition bucket_ok :: "rate_limiter \<Rightarrow> bool" where
  "bucket_ok rl \<longleftrightarrow>
     (\<exists>q. bs_tokens (rl_state rl) = Fin q \<and> 0 \<le> q \<and> q \<le> capacity_f64 rl) \<and>
     nonneg_f64 (rl_refill_rate rl) \<and> 1 \<le> unat (rl_capacity rl)"

lemma refill_fields [simp]:
  "rl_capacity (refill now rl) = rl_capacity rl"
  "rl_refill_rate (refill now rl) = rl_refill_rate rl"
  "bs_last_refill (rl_state (refill now rl)) = now"
  by (simp_all add: refill_def Let_def)

lemma capacity_nonneg: "0 \<le> capacity_f64 rl"
  unfolding capacity_f64_def by (rule rnd_nonneg) (rule of_nat_0_le_iff)

lemma nonneg_secs: "nonneg_f64 (as_secs_f64 ns)"
  unfolding as_secs_f64_def by (intro nonneg_add nonneg_div nonneg_round) simp_all

lemma refill_ok:
  assumes "bucket_ok rl"
  shows "bucket_ok (refill now rl)"
proof -
  obtain q where q: "bs_tokens (rl_state rl) = Fin q" "0 \<le> q" using assms by (auto simp: bucket_ok_def)
  have "nonneg_f64 (add_f64 (bs_tokens (rl_state rl))
      (mul_f64 (as_secs_f64 (now - bs_last_refill (rl_state rl))) (rl_refill_rate rl)))"
    using assms q by (intro nonneg_add nonneg_mul nonneg_secs) (auto simp: bucket_ok_def)
  from min_f64_nonneg [OF this capacity_nonneg [of rl]] show ?thesis
    using assms
    by (auto simp: bucket_ok_def refill_def Let_def capacity_f64_def f64_of_u64_Fin)
qed

lemma ge_one_Fin: "ge_f64 (Fin q) (Fin 1) \<longleftrightarrow> 1 \<le> q"
  by (auto simp: ge_f64_def cmp_ord_def)

lemma take_token:
  assumes "bucket_ok rl" "bs_tokens (rl_state rl) = Fin q" "1 \<le> q"
  shows "sub_f64 (Fin q) (Fin 1) = Fin (rnd (q - 1)) \<and> 0 \<le> rnd (q - 1) \<and>
    rnd (q - 1) \<le> capacity_f64 rl"
proof -
  have "q - 1 \<le> capacity_f64 rl" using assms by (auto simp: bucket_ok_def)
  then have le: "rnd (q - 1) \<le> capacity_f64 rl"
    using rnd_mono [of "q - 1" "capacity_f64 rl"] by (simp add: capacity_f64_def)
  have ge: "0 \<le> rnd (q - 1)" using assms(3) by (intro rnd_nonneg) simp
  have "capacity_f64 rl \<le> 2 ^ 64" using rnd_u64_bounds by (simp add: capacity_f64_def)
  also have "(2::rat) ^ 64 < f64_limit" by (rule pow2_less_limit) simp
  finally have "\<bar>rnd (q - 1)\<bar> < f64_limit" using le ge by simp
  with le ge show ?thesis by (simp add: sub_f64_def round_f64_Fin)
qed

lemma try_acquire_ok:
  assumes "bucket_ok rl"
  shows "bucket_ok (snd (try_acquire now rl))"
proof -
  have ok: "bucket_ok (refill now rl)" using assms by (rule refill_ok)
  then obtain q where q: "bs_tokens (rl_state (refill now rl)) = Fin q" by (auto simp: bucket_ok_def)
  show ?thesis
  proof (cases "1 \<le> q")
    case True
    with ok take_token [OF ok q] show ?thesis
      by (simp add: try_acquire_def Let_def q ge_one_Fin bucket_ok_def capacity_f64_def)
  next
    case False
    with ok show ?thesis by (simp add: try_acquire_def Let_def q ge_one_Fin)
  qed
qed

lemma min_rate_Fin: "\<exists>q. min_refill_rate = Fin q \<and> 0 \<le> q"
proof -
  have "rnd (1 / 1000) \<le> rnd (of_int 1)" by (rule rnd_mono) simp
  moreover have "rnd (of_int 1) = 1" by (subst rnd_of_int) simp_all
  moreover have "0 \<le> rnd (1 / 1000)" by (rule rnd_nonneg) simp
  moreover have "(2::rat) ^ 1 < f64_limit" by (rule pow2_less_limit) simp
  ultimately have "\<bar>rnd (1 / 1000)\<bar> < f64_limit" by simp
  with \<open>0 \<le> rnd (1 / 1000)\<close> show ?thesis by (simp add: min_refill_rate_def round_f64_Fin)
qed

lemma max_rate_nonneg: "nonneg_f64 (max_f64 rate min_refill_rate)"
proof -
  obtain q where q: "min_refill_rate = Fin q" "0 \<le> q" using min_rate_Fin by blast
  show ?thesis unfolding q(1) using q(2) by (cases rate) (auto simp: max_f64_def cmp_ord_def)
qed

lemma new_ok: "bucket_ok (rate_limiter_new now capacity rate)"
proof -
  have "1 \<le> unat (max capacity 1)"
    by (auto simp: max_def word_le_nat_alt not_le)
  then show ?thesis
    using rnd_u64_bounds(1) [of "max capacity 1"]
    by (simp add: bucket_ok_def rate_limiter_new_def rlb_build_def rlb_set_refill_rate_def
        rlb_set_capacity_def rate_limiter_builder_new_def capacity_f64_def f64_of_u64_Fin
        max_rate_nonneg)
qed

inductive limiter_step :: "rate_limiter \<Rightarrow> rate_limiter \<Rightarrow> bool" where
  "limiter_step rl (snd (try_acquire now rl))"
| "limiter_step rl (snd (available_tokens now rl))"

interpretation limiter: invariant_machine
  "\<lambda>rl. \<exists>now capacity rate. rl = rate_limiter_new now capacity rate" limiter_step bucket_ok
proof unfold_locales
  show "bucket_ok rl'" if "bucket_ok rl" "limiter_step rl rl'" for rl rl'
    using that(2,1)
    by (induction rule: limiter_step.induct) (auto simp: available_tokens_def Let_def
        intro: try_acquire_ok refill_ok)
qed (auto intro: new_ok)

section \<open>A burst without time passing\<close>

lemma as_secs_zero [simp]: "as_secs_f64 0 = Fin 0"
  using limit_pos by (simp add: as_secs_f64_def round_f64_exact)

lemma refill_same_instant:
  assumes "bs_tokens (rl_state rl) = Fin q" "rnd q = q" "0 \<le> q" "q \<le> capacity_f64 rl"
    and "rl_refill_rate rl = Fin r" "bs_last_refill (rl_state rl) = now"
  shows "refill now rl = rl"
proof -
  have "capacity_f64 rl \<le> 2 ^ 64" using rnd_u64_bounds by (simp add: capacity_f64_def)
  also have "(2::rat) ^ 64 < f64_limit" by (rule pow2_less_limit) simp
  finally have "\<bar>q\<bar> < f64_limit" using assms(3,4) by simp
  then have "add_f64 (Fin q) (mul_f64 (Fin 0) (Fin r)) = Fin q"
    using assms(2) limit_pos by (simp add: round_f64_exact)
  moreover have "min_f64 (Fin q) (f64_of_u64 (rl_capacity rl)) = Fin q"
    using assms(4) by (simp add: min_f64_def f64_of_u64_Fin capacity_f64_def)
  ultimately show ?thesis using assms by (simp add: refill_def Let_def)
qed

fun acquire_times :: "nat \<Rightarrow> nat \<Rightarrow> rate_limiter \<Rightarrow> rate_limiter" where
  "acquire_times now 0 rl = rl"
| "acquire_times now (Suc n) rl = snd (try_acquire now (acquire_times now n rl))"

lemma rnd_nat [simp]: "k \<le> 2 ^ 53 \<Longrightarrow> rnd (of_nat k) = of_nat k"
  by (rule rnd_of_nat)

lemma acquire_whole:
  assumes "unat (rl_capacity rl) \<le> 2 ^ 53" "k \<le> unat (rl_capacity rl)"
    and "rl_state rl = \<lparr>bs_tokens = Fin (of_nat k), bs_last_refill = now\<rparr>"
    and "rl_refill_rate rl = Fin r"
  shows "try_acquire now rl =
    (if 1 \<le> k
     then (Ok (), rl\<lparr>rl_state := \<lparr>bs_tokens = Fin (of_nat (k - 1)), bs_last_refill = now\<rparr>\<rparr>)
     else (Err (RateLimitExceeded (exceeded_text rl)), rl))"
proof -
  have k: "k \<le> 2 ^ 53" using assms(1,2) by simp
  have cap: "capacity_f64 rl = of_nat (unat (rl_capacity rl))"
    unfolding capacity_f64_def by (rule rnd_of_nat) (rule assms(1))
  have "refill now rl = rl"
  proof (rule refill_same_instant)
    show "(of_nat k :: rat) \<le> capacity_f64 rl"
      unfolding cap of_nat_le_iff by (rule assms(2))
  qed (use assms k in simp_all)
  moreover have "sub_f64 (Fin (of_nat k)) (Fin 1) = Fin (of_nat (k - 1))" if "1 \<le> k"
  proof -
    have "(of_nat k - 1 :: rat) = of_int (int (k - 1))" using that by simp
    moreover have "round_f64 (of_int (int (k - 1))) = Fin (of_int (int (k - 1)))"
      by (rule round_f64_of_int) (use k in simp)
    ultimately show ?thesis using that by (simp add: sub_f64_def)
  qed
  ultimately show ?thesis
    using assms(3) by (simp add: try_acquire_def Let_def ge_one_Fin)
qed

lemma acquire_times_state:
  assumes "unat (rl_capacity rl) \<le> 2 ^ 53" "rl_refill_rate rl = Fin r"
    and "rl_state rl = \<lparr>bs_tokens = Fin (of_nat (unat (rl_capacity rl))), bs_last_refill = now\<rparr>"
  shows "n \<le> unat (rl_capacity rl) \<Longrightarrow> acquire_times now n rl =
    rl\<lparr>rl_state := \<lparr>bs_tokens = Fin (of_nat (unat (rl_capacity rl) - n)), bs_last_refill = now\<rparr>\<rparr>"
proof (induction n)
  case 0
  then show ?case using assms(3) by (cases rl) simp
next
  case (Suc n)
  let ?rl = "rl\<lparr>rl_state := \<lparr>bs_tokens = Fin (of_nat (unat (rl_capacity rl) - n)), bs_last_refill = now\<rparr>\<rparr>"
  have "try_acquire now ?rl = (Ok (), ?rl\<lparr>rl_state := \<lparr>bs_tokens =
      Fin (of_nat (unat (rl_capacity rl) - n - 1)), bs_last_refill = now\<rparr>\<rparr>)"
    using acquire_whole [of ?rl "unat (rl_capacity rl) - n" now r] assms(1,2) Suc.prems
    by simp
  with Suc show ?case by simp
qed

section \<open>Properties\<close>

text \<open>
  C22: in every state the limiter can reach, whatever rate it was built with (NaN, infinities and
  negative values included) and however the clock behaves, the number of tokens is a finite
  double between zero and the capacity; so a query never reports more tokens than the capacity.
\<close>

theorem tokens_bounded:
  assumes "limiter_step\<^sup>*\<^sup>* (rate_limiter_new now capacity rate) rl"
  shows "\<exists>q. bs_tokens (rl_state rl) = Fin q \<and> 0 \<le> q \<and>
    q \<le> rnd (of_nat (unat (rl_capacity rl)))"
proof -
  have "bucket_ok rl" using assms by (intro limiter.reachable_inv) auto
  then show ?thesis by (auto simp: bucket_ok_def capacity_f64_def)
qed

theorem tokens_bounded_witness:
  "\<exists>q. bs_tokens (rl_state (snd (try_acquire 5 (rate_limiter_new 9 2 NaN)))) = Fin q \<and> 0 \<le> q \<and>
    q \<le> rnd (of_nat (unat (rl_capacity (snd (try_acquire 5 (rate_limiter_new 9 2 NaN))))))"
  by (rule tokens_bounded [of 9 2 NaN]) (rule r_into_rtranclp, rule limiter_step.intros)

text \<open>
  while no time passes a limiter of capacity \<open>c\<close>, at most \<open>2 ^ 53\<close>, and any finite rate
  grants exactly the first \<open>c\<close> requests and rejects the next with \<open>RateLimitExceeded\<close>.
\<close>

theorem burst_is_capacity:
  assumes "1 \<le> unat c" "unat c \<le> 2 ^ 53"
    and "rl_refill_rate (rate_limiter_new now c rate) = Fin r"
  shows "(\<forall>n < unat c. fst (try_acquire now (acquire_times now n (rate_limiter_new now c rate))) = Ok ()) \<and>
    (\<exists>msg. fst (try_acquire now (acquire_times now (unat c) (rate_limiter_new now c rate))) =
       Err (RateLimitExceeded msg))"
proof -
  let ?rl = "rate_limiter_new now c rate"
  have "1 \<le> c" using assms(1) by (simp add: word_le_nat_alt)
  then have c: "max c 1 = c" by (rule max_absorb1)
  then have cap: "rl_capacity ?rl = c"
    by (simp add: rate_limiter_new_def rlb_build_def rlb_set_refill_rate_def rlb_set_capacity_def
        rate_limiter_builder_new_def)
  have st: "rl_state ?rl = \<lparr>bs_tokens = Fin (of_nat (unat (rl_capacity ?rl))), bs_last_refill = now\<rparr>"
    using c f64_of_u64_exact [OF assms(2)]
    by (simp add: rate_limiter_new_def rlb_build_def rlb_set_refill_rate_def rlb_set_capacity_def
        rate_limiter_builder_new_def)
  have cap53: "unat (rl_capacity ?rl) \<le> 2 ^ 53" using assms(2) by (simp add: cap)
  let ?at = "\<lambda>n. ?rl\<lparr>rl_state := \<lparr>bs_tokens = Fin (of_nat (unat c - n)), bs_last_refill = now\<rparr>\<rparr>"
  have at: "acquire_times now n ?rl = ?at n" if "n \<le> unat c" for n
    using acquire_times_state [OF cap53 assms(3) st, of n] that by (simp add: cap)
  have step: "try_acquire now (?at n) = (if 1 \<le> unat c - n
     then (Ok (), (?at n)\<lparr>rl_state := \<lparr>bs_tokens = Fin (of_nat (unat c - n - 1)), bs_last_refill = now\<rparr>\<rparr>)
     else (Err (RateLimitExceeded (exceeded_text (?at n))), ?at n))" for n
    using assms(2,3) by (intro acquire_whole [of _ _ _ r]) (simp_all add: cap)
  show ?thesis
  proof (intro conjI allI impI)
    show "fst (try_acquire now (acquire_times now n ?rl)) = Ok ()" if "n < unat c" for n
      using that step [of n] by (simp add: at)
    show "\<exists>msg. fst (try_acquire now (acquire_times now (unat c) ?rl)) = Err (RateLimitExceeded msg)"
      using step [of "unat c"] by (simp add: at)
  qed
qed

lemma min_rate_small: "max_f64 (Fin 10) min_refill_rate = Fin 10"
proof -
  have "rnd (1 / 1000) \<le> rnd (of_int 1)" by (rule rnd_mono) simp
  moreover have "rnd (of_int 1) = 1" by (subst rnd_of_int) simp_all
  ultimately have "rnd (1 / 1000) \<le> 1" by simp
  moreover have "1 < f64_limit" using pow2_less_limit [of 0] by simp
  ultimately show ?thesis
    using limit_pos by (auto simp: min_refill_rate_def round_f64_def Let_def max_f64_def)
qed

theorem burst_is_capacity_witness:
  "fst (try_acquire 7 (acquire_times 7 2 (rate_limiter_new 7 3 (Fin 10)))) = Ok () \<and>
    (\<exists>msg. fst (try_acquire 7 (acquire_times 7 3 (rate_limiter_new 7 3 (Fin 10)))) =
       Err (RateLimitExceeded msg))"
proof -
  have "rl_refill_rate (rate_limiter_new 7 3 (Fin 10)) = Fin 10"
    by (simp add: rate_limiter_new_def rlb_build_def rlb_set_refill_rate_def min_rate_small)
  from burst_is_capacity [OF _ _ this] show ?thesis by simp
qed

lemma rnd_below_2_54: "rnd (2 ^ 54 - 1) = 2 ^ 54"
proof -
  have "ilog2 (2 ^ 54 - 1 :: rat) = 53" by (rule ilog2_eqI) (simp_all add: power_int_def)
  then have u: "ulp_exp (2 ^ 54 - 1 :: rat) = 1" by (simp add: ulp_exp_def)
  have "round_even ((2 ^ 54 - 1) / 2 :: rat) = 2 ^ 53"
    by (subst round_even_half [of _ "2 ^ 53 - 1"]) simp_all
  then show ?thesis using u by (simp add: rnd_def)
qed

lemma full_bucket_stays:
  assumes "rl_capacity rl = 2 ^ 54" "rl_refill_rate rl = Fin r"
    and "rl_state rl = \<lparr>bs_tokens = Fin (2 ^ 54), bs_last_refill = now\<rparr>"
  shows "try_acquire now rl = (Ok (), rl)"
proof -
  have "refill now rl = rl"
    by (rule refill_same_instant [of _ "2 ^ 54" r])
      (use assms rnd_pow2 [of 54] in \<open>simp_all add: capacity_f64_def\<close>)
  moreover have "(2::rat) ^ 54 < f64_limit" by (rule pow2_less_limit) simp
  then have "sub_f64 (Fin (2 ^ 54)) (Fin 1) = Fin (2 ^ 54)"
    using rnd_below_2_54 round_f64_Fin [of "2 ^ 54 - 1"] by (simp add: sub_f64_def)
  ultimately show ?thesis
    using assms(3) by (simp add: try_acquire_def Let_def ge_one_Fin)
qed

text \<open>
  a capacity of \<open>2 ^ 54\<close> is never used up: subtracting one token from that many rounds back
  to the same double, so however often a token is taken at the same instant, the limiter is
  unchanged and grants the next request.
\<close>

theorem large_capacity_never_drains:
  assumes "rl_refill_rate (rate_limiter_new now (2 ^ 54) rate) = Fin r"
  shows "acquire_times now n (rate_limiter_new now (2 ^ 54) rate) = rate_limiter_new now (2 ^ 54) rate \<and>
    fst (try_acquire now (acquire_times now n (rate_limiter_new now (2 ^ 54) rate))) = Ok ()"
proof -
  let ?rl = "rate_limiter_new now (2 ^ 54) rate"
  have cap: "rl_capacity ?rl = 2 ^ 54"
    by (simp add: rate_limiter_new_def rlb_build_def rlb_set_refill_rate_def rlb_set_capacity_def
        rate_limiter_builder_new_def)
  have st: "rl_state ?rl = \<lparr>bs_tokens = Fin (2 ^ 54), bs_last_refill = now\<rparr>"
    using rnd_pow2 [of 54] f64_of_u64_Fin [of "2 ^ 54"]
    by (simp add: rate_limiter_new_def rlb_build_def rlb_set_refill_rate_def rlb_set_capacity_def
        rate_limiter_builder_new_def)
  have one: "try_acquire now ?rl = (Ok (), ?rl)"
    using cap assms st by (rule full_bucket_stays)
  have "acquire_times now n ?rl = ?rl"
    by (induction n) (simp_all only: acquire_times.simps one snd_conv)
  then show ?thesis by (simp only: one fst_conv)
qed

theorem large_capacity_never_drains_witness:
  "acquire_times 0 100 (rate_limiter_new 0 (2 ^ 54) (Fin 10)) = rate_limiter_new 0 (2 ^ 54) (Fin 10) \<and>
    fst (try_acquire 0 (acquire_times 0 100 (rate_limiter_new 0 (2 ^ 54) (Fin 10)))) = Ok ()"
  by (rule large_capacity_never_drains)
    (simp add: rate_limiter_new_def rlb_build_def rlb_set_refill_rate_def min_rate_small)

lemma nonneg_add_mono:
  assumes "nonneg_f64 a" "nonneg_f64 b" "ge_f64 b (Fin 1)"
  shows "ge_f64 (add_f64 a b) (Fin 1) \<or> add_f64 a b = NaN"
proof (cases "\<exists>p q. a = Fin p \<and> b = Fin q")
  case True
  then obtain p q where pq: "a = Fin p" "b = Fin q" by blast
  with assms have "1 \<le> p + q" by (simp add: ge_one_Fin)
  then have "rnd (of_int 1) \<le> rnd (p + q)" by (intro rnd_mono) simp
  moreover have "rnd (of_int 1) = 1" by (subst rnd_of_int) simp_all
  ultimately have "1 \<le> rnd (p + q)" by simp
  then show ?thesis using pq limit_pos
    by (auto simp: round_f64_def Let_def ge_one_Fin) (auto simp: ge_f64_def)
next
  case False
  with assms show ?thesis by (cases a; cases b) (auto simp: ge_f64_def)
qed

lemma secs_whole: "k \<le> 2 ^ 53 \<Longrightarrow> as_secs_f64 (k * 1000000000) = Fin (of_nat k)"
proof -
  assume "k \<le> 2 ^ 53"
  then have "int k \<le> int (2 ^ 53)" by (simp only: of_nat_le_iff)
  then have "\<bar>int k\<bar> \<le> 2 ^ 53" by simp
  then have "round_f64 (of_nat k) = Fin (of_nat k)" using round_f64_of_int [of "int k"] by simp
  then show ?thesis using limit_pos by (simp add: as_secs_f64_def round_f64_exact)
qed

text \<open>
  an empty limiter recovers. In every reachable state with a finite rate \<open>r\<close>, a request
  made \<open>k\<close> whole seconds after the last refill is granted once \<open>k * r\<close> is at least one token.
\<close>

theorem limiter_recovers:
  assumes "limiter_step\<^sup>*\<^sup>* (rate_limiter_new now0 capacity rate) rl"
    and "rl_refill_rate rl = Fin r" "1 \<le> of_nat k * r" "k \<le> 2 ^ 53"
  shows "fst (try_acquire (bs_last_refill (rl_state rl) + k * 1000000000) rl) = Ok ()"
proof -
  let ?now = "bs_last_refill (rl_state rl) + k * 1000000000"
  have ok: "bucket_ok rl" using assms(1) by (intro limiter.reachable_inv) auto
  then obtain q where q: "bs_tokens (rl_state rl) = Fin q" "0 \<le> q" by (auto simp: bucket_ok_def)
  have "rnd (of_int 1) \<le> rnd (of_nat k * r)" using assms(3) by (intro rnd_mono) simp
  moreover have one: "rnd (of_int 1) = 1" by (subst rnd_of_int) simp_all
  ultimately have ge: "1 \<le> rnd (of_nat k * r)" by simp
  have big: "ge_f64 (round_f64 (of_nat k * r)) (Fin 1)"
    using ge limit_pos by (auto simp: round_f64_def Let_def ge_one_Fin) (auto simp: ge_f64_def)
  let ?sum = "add_f64 (Fin q) (round_f64 (of_nat k * r))"
  have "ge_f64 ?sum (Fin 1) \<or> ?sum = NaN"
    using q(2) assms(3) big by (intro nonneg_add_mono nonneg_round) auto
  moreover have "(of_nat 1 :: rat) \<le> of_nat (unat (rl_capacity rl))"
    using ok unfolding of_nat_le_iff by (simp add: bucket_ok_def)
  then have "rnd (of_int 1) \<le> rnd (of_nat (unat (rl_capacity rl)))"
    by (intro rnd_mono) (simp only: of_nat_1 of_int_1)
  then have "1 \<le> capacity_f64 rl" unfolding capacity_f64_def one .
  ultimately have "ge_f64 (min_f64 ?sum (Fin (capacity_f64 rl))) (Fin 1)"
    by (cases ?sum) (auto simp: min_f64_def ge_one_Fin)
  moreover have "bs_tokens (rl_state (refill ?now rl)) = min_f64 ?sum (Fin (capacity_f64 rl))"
    using q assms(2,4)
    by (simp add: refill_def Let_def secs_whole f64_of_u64_Fin capacity_f64_def)
  ultimately show ?thesis by (simp add: try_acquire_def Let_def)
qed

lemma demo_limiter_rate: "rl_refill_rate (snd (try_acquire 0 (rate_limiter_new 0 1 (Fin 10)))) = Fin 10"
  by (auto simp: try_acquire_def Let_def rate_limiter_new_def rlb_build_def rlb_set_refill_rate_def
      min_rate_small)

theorem limiter_recovers_witness:
  "fst (try_acquire (bs_last_refill (rl_state (snd (try_acquire 0 (rate_limiter_new 0 1 (Fin 10)))))
      + 1 * 1000000000) (snd (try_acquire 0 (rate_limiter_new 0 1 (Fin 10))))) = Ok ()"
  by (rule limiter_recovers [OF r_into_rtranclp [of limiter_step, OF limiter_step.intros(1)]
        demo_limiter_rate]) simp_all

section \<open>The limiter as a guard of a pipeline\<close>

interpretation limiter_guard: guard_middleware
  "rate_limit_object clock read_limiter write_limiter ::
     ('w, 'req, 'resp, gateway_error) request_middleware" for clock read_limiter write_limiter
  by unfold_locales
    (auto simp: rate_limit_object_def plain_middleware_def default_action_def
      rate_limit_request_def split: prod.splits result.splits)

text \<open>
  in a pipeline that starts with the limiter, a request it rejects ends there with
  \<open>RateLimitExceeded\<close>, and one it grants is executed by the rest of the pipeline unchanged.
\<close>

theorem limited_pipeline:
  "execute (default_pipeline_new (rate_limit_object clock rd wr # pre) router post) req w =
     (case try_acquire (clock w) (rd w) of
        (Ok _, rl) \<Rightarrow> execute (default_pipeline_new pre router post) req (wr rl w)
      | (Err e, rl) \<Rightarrow> (Err e, wr rl w)) \<and>
   (fst (try_acquire (clock w) (rd w)) = Ok () \<or>
    fst (try_acquire (clock w) (rd w)) = Err (RateLimitExceeded (exceeded_text (rd w))))"
  unfolding limiter_guard.guard_first
  by (auto simp: rate_limit_object_def plain_middleware_def default_action_def
      rate_limit_request_def try_acquire_def Let_def split: prod.split result.split)

end
