(* ===== verification/ServiceCache.thy ===== *)
theory ServiceCache
  imports GatewayTypes
begin

text \<open>
  \<open>state.rs\<close>: the lazily initialised service caches. A service is known by its identity (the
  shared pointer). The locks are never held while a factory runs, so a call is two critical
  sections with the factory in between: the fast path and the store. Both are modelled as
  functions on the protected state; the whole call without interference composes them, and
  \<open>cs_step\<close> and \<open>cc_step\<close> interleave any number of calls. The traits of \<open>provider.rs\<close> are records.
\<close>

section \<open>CachedService\<close>

type_synonym 's cached_service = "'s option"

definition cs_new :: "'s cached_service" where
  "cs_new = None"

definition cs_is_initialized :: "'s cached_service \<Rightarrow> bool" where
  "cs_is_initialized c \<longleftrightarrow> c \<noteq> None"

definition cs_reset :: "'s cached_service \<Rightarrow> 's cached_service" where
  "cs_reset c = None"

definition cs_get :: "'s cached_service \<Rightarrow> 's option" where
  "cs_get c = c"

text \<open>The critical section that stores: keep what another call has stored meanwhile.\<close>

definition cs_store :: "'s \<Rightarrow> 's cached_service \<Rightarrow> 's \<times> 's cached_service" where
  "cs_store new_service c =
     (let c' = (if c = None then Some new_service else c)
      in (the c', c'))"

definition get_or_init ::
  "('w \<Rightarrow> 's gateway_result \<times> 'w) \<Rightarrow> 's cached_service \<Rightarrow> 'w \<Rightarrow>
   's gateway_result \<times> 's cached_service \<times> 'w" where
  "get_or_init init c w =
     (case cs_get c of
        Some service \<Rightarrow> (Ok service, c, w)
      | None \<Rightarrow>
          (case init w of
             (Err e, w') \<Rightarrow> (Err e, c, w')
           | (Ok new_service, w') \<Rightarrow>
               (case cs_store new_service c of (service, c') \<Rightarrow> (Ok service, c', w'))))"

datatype 's call = Started | Initialising | Finished "'s gateway_result"

record 's cs_system =
  css_cache :: "'s cached_service"
  css_calls :: "'s call list"

inductive cs_step :: "'s cs_system \<Rightarrow> 's cs_system \<Rightarrow> bool" where
  new_call: "cs_step s (s\<lparr>css_calls := css_calls s @ [Started]\<rparr>)"
| fast_path:
    "i < length (css_calls s) \<Longrightarrow> css_calls s ! i = Started \<Longrightarrow>
     cs_step s (s\<lparr>css_calls := (css_calls s)[i :=
       (case css_cache s of Some service \<Rightarrow> Finished (Ok service) | None \<Rightarrow> Initialising)]\<rparr>)"
| init_failed:
    "i < length (css_calls s) \<Longrightarrow> css_calls s ! i = Initialising \<Longrightarrow>
     cs_step s (s\<lparr>css_calls := (css_calls s)[i := Finished (Err e)]\<rparr>)"
| init_done:
    "i < length (css_calls s) \<Longrightarrow> css_calls s ! i = Initialising \<Longrightarrow>
     cs_step s (s\<lparr>css_cache := snd (cs_store new_service (css_cache s)),
                 css_calls := (css_calls s)[i := Finished (Ok (fst (cs_store new_service (css_cache s))))]\<rparr>)"

text \<open>Whatever has been handed out is what the cache holds.\<close>

definition handed_out :: "'s cs_system \<Rightarrow> bool" where
  "handed_out s \<longleftrightarrow>
     (\<forall>service. Finished (Ok service) \<in> set (css_calls s) \<longrightarrow> css_cache s = Some service)"

lemma cs_store_Some [simp]: "cs_store n (Some s) = (s, Some s)"
  by (simp add: cs_store_def)

lemma cs_store_None [simp]: "cs_store n None = (n, Some n)"
  by (simp add: cs_store_def)

lemma set_update_dest: "x \<in> set (xs[i := y]) \<Longrightarrow> x = y \<or> x \<in> set xs"
  using set_update_subset_insert [of xs i y] by blast

lemma cs_step_handed_out: "cs_step s s' \<Longrightarrow> handed_out s \<Longrightarrow> handed_out s'"
proof (induction rule: cs_step.induct)
  case (fast_path i s)
  then show ?case by (auto simp: handed_out_def dest!: set_update_dest split: option.splits)
next
  case (init_failed i s e)
  then show ?case by (auto simp: handed_out_def dest!: set_update_dest)
next
  case (init_done i s new_service)
  then show ?case
    by (cases "css_cache s") (auto simp: handed_out_def dest!: set_update_dest)
qed (auto simp: handed_out_def)

definition cs_initial :: "'s cs_system \<Rightarrow> bool" where
  "cs_initial s \<longleftrightarrow> css_cache s = cs_new \<and> css_calls s = []"

interpretation one_service: invariant_machine cs_initial cs_step handed_out
  by unfold_locales (simp add: cs_initial_def handed_out_def, rule cs_step_handed_out)

section \<open>ConfiguredCache\<close>

record ('s, 'c) configured_cache =
  cc_service :: "'s option"
  cc_config :: "'c option"

definition cc_new :: "('s, 'c) configured_cache" where
  "cc_new = \<lparr>cc_service = None, cc_config = None\<rparr>"

definition cc_is_initialized :: "('s, 'c) configured_cache \<Rightarrow> bool" where
  "cc_is_initialized c \<longleftrightarrow> cc_service c \<noteq> None"

definition cc_current_config :: "('s, 'c) configured_cache \<Rightarrow> 'c option" where
  "cc_current_config c = cc_config c"

definition cc_reset :: "('s, 'c) configured_cache \<Rightarrow> ('s, 'c) configured_cache" where
  "cc_reset c = c\<lparr>cc_service := None, cc_config := None\<rparr>"

definition cc_lookup :: "'c \<Rightarrow> ('s, 'c) configured_cache \<Rightarrow> 's option" where
  "cc_lookup config c =
     (case (cc_service c, cc_config c) of
        (Some service, Some cached_config) \<Rightarrow> if cached_config = config then Some service else None
      | _ \<Rightarrow> None)"

definition cc_store :: "'c \<Rightarrow> 's \<Rightarrow> ('s, 'c) configured_cache \<Rightarrow> ('s, 'c) configured_cache" where
  "cc_store config new_service c = c\<lparr>cc_service := Some new_service, cc_config := Some config\<rparr>"

definition get_or_init_with_config ::
  "('c \<Rightarrow> 'w \<Rightarrow> 's gateway_result \<times> 'w) \<Rightarrow> 'c \<Rightarrow> ('s, 'c) configured_cache \<Rightarrow> 'w \<Rightarrow>
   's gateway_result \<times> ('s, 'c) configured_cache \<times> 'w" where
  "get_or_init_with_config init config c w =
     (case cc_lookup config c of
        Some service \<Rightarrow> (Ok service, c, w)
      | None \<Rightarrow>
          (case init config w of
             (Err e, w') \<Rightarrow> (Err e, c, w')
           | (Ok new_service, w') \<Rightarrow> (Ok new_service, cc_store config new_service c, w')))"

record ('s, 'c) cc_system =
  ccs_cache :: "('s, 'c) configured_cache"
  ccs_calls :: "('c \<times> 's call) list"

text \<open>\<open>makes c s\<close>: the factory called with the configuration \<open>c\<close> may give the service \<open>s\<close>.\<close>

inductive cc_step :: "('c \<Rightarrow> 's \<Rightarrow> bool) \<Rightarrow> ('s, 'c) cc_system \<Rightarrow> ('s, 'c) cc_system \<Rightarrow> bool"
  for makes where
  cc_new_call: "cc_step makes s (s\<lparr>ccs_calls := ccs_calls s @ [(config, Started)]\<rparr>)"
| cc_fast_path:
    "i < length (ccs_calls s) \<Longrightarrow> ccs_calls s ! i = (config, Started) \<Longrightarrow>
     cc_step makes s (s\<lparr>ccs_calls := (ccs_calls s)[i := (config,
       case cc_lookup config (ccs_cache s) of
         Some service \<Rightarrow> Finished (Ok service) | None \<Rightarrow> Initialising)]\<rparr>)"
| cc_init_failed:
    "i < length (ccs_calls s) \<Longrightarrow> ccs_calls s ! i = (config, Initialising) \<Longrightarrow>
     cc_step makes s (s\<lparr>ccs_calls := (ccs_calls s)[i := (config, Finished (Err e))]\<rparr>)"
| cc_init_done:
    "i < length (ccs_calls s) \<Longrightarrow> ccs_calls s ! i = (config, Initialising) \<Longrightarrow>
     makes config new_service \<Longrightarrow>
     cc_step makes s (s\<lparr>ccs_cache := cc_store config new_service (ccs_cache s),
       ccs_calls := (ccs_calls s)[i := (config, Finished (Ok new_service))]\<rparr>)"
| cc_do_reset: "cc_step makes s (s\<lparr>ccs_cache := cc_reset (ccs_cache s)\<rparr>)"

definition paired :: "('c \<Rightarrow> 's \<Rightarrow> bool) \<Rightarrow> ('s, 'c) cc_system \<Rightarrow> bool" where
  "paired makes s \<longleftrightarrow>
     (\<forall>config service. cc_lookup config (ccs_cache s) = Some service \<longrightarrow> makes config service) \<and>
     (\<forall>config service. (config, Finished (Ok service)) \<in> set (ccs_calls s) \<longrightarrow> makes config service)"

lemma cc_lookup_store [simp]:
  "cc_lookup config (cc_store config' s c) = (if config' = config then Some s else None)"
  by (simp add: cc_lookup_def cc_store_def)

lemma cc_lookup_reset [simp]: "cc_lookup config (cc_reset c) = None"
  by (simp add: cc_lookup_def cc_reset_def)

lemma cc_step_paired: "cc_step makes s s' \<Longrightarrow> paired makes s \<Longrightarrow> paired makes s'"
proof (induction rule: cc_step.induct)
  case (cc_fast_path i s config)
  then show ?case by (auto simp: paired_def dest!: set_update_dest split: option.splits)
next
  case (cc_init_failed i s config e)
  then show ?case by (auto simp: paired_def dest!: set_update_dest)
next
  case (cc_init_done i s config new_service)
  then show ?case by (auto simp: paired_def dest!: set_update_dest split: if_splits)
qed (auto simp: paired_def)

definition cc_initial :: "('s, 'c) cc_system \<Rightarrow> bool" where
  "cc_initial s \<longleftrightarrow> ccs_cache s = cc_new \<and> ccs_calls s = []"

interpretation config_pairs: invariant_machine cc_initial "cc_step makes" "paired makes" for makes
  by unfold_locales
    (simp add: cc_initial_def paired_def cc_new_def cc_lookup_def, rule cc_step_paired)

section \<open>Provider traits\<close>

text \<open>
  \<open>provider.rs\<close>: what a provider with a lazily made service offers. Neither trait has a default
  method, and nothing in the crate implements them.
\<close>

record ('w, 's) lazy_init =
  li_get_service :: "'w \<Rightarrow> 's gateway_result \<times> 'w"
  li_is_initialized :: "'w \<Rightarrow> bool"
  li_reset :: "'w \<Rightarrow> 'w"

record ('w, 's, 'c) lazy_init_with_config =
  lic_get_service_with_config :: "'c \<Rightarrow> 'w \<Rightarrow> 's gateway_result \<times> 'w"

section \<open>Properties\<close>


definition race_end :: "nat cs_system" where
  "race_end = \<lparr>css_cache = Some 1, css_calls = [Finished (Ok 1), Finished (Ok 1)]\<rparr>"

lemma race_reached: "cs_step\<^sup>*\<^sup>* \<lparr>css_cache = cs_new, css_calls = []\<rparr> race_end"
proof -
  let ?s = "\<lambda>c calls. \<lparr>css_cache = c, css_calls = calls\<rparr> :: nat cs_system"
  have 1: "cs_step (?s cs_new []) (?s None [Started])"
    using new_call [of "?s cs_new []"] by (simp add: cs_new_def)
  have 2: "cs_step (?s None [Started]) (?s None [Started, Started])"
    using new_call [of "?s None [Started]"] by simp
  have 3: "cs_step (?s None [Started, Started]) (?s None [Initialising, Started])"
    using fast_path [of 0 "?s None [Started, Started]"] by simp
  have 4: "cs_step (?s None [Initialising, Started]) (?s None [Initialising, Initialising])"
    using fast_path [of 1 "?s None [Initialising, Started]"] by simp
  have 5: "cs_step (?s None [Initialising, Initialising]) (?s (Some 1) [Finished (Ok 1), Initialising])"
    using init_done [of 0 "?s None [Initialising, Initialising]" 1] by simp
  have 6: "cs_step (?s (Some 1) [Finished (Ok 1), Initialising]) race_end"
    using init_done [of 1 "?s (Some 1) [Finished (Ok 1), Initialising]" 2] by (simp add: race_end_def)
  show ?thesis
    by (rule converse_rtranclp_into_rtranclp [of cs_step, OF 1],
        rule converse_rtranclp_into_rtranclp [of cs_step, OF 2],
        rule converse_rtranclp_into_rtranclp [of cs_step, OF 3],
        rule converse_rtranclp_into_rtranclp [of cs_step, OF 4],
        rule converse_rtranclp_into_rtranclp [of cs_step, OF 5],
        rule r_into_rtranclp [of cs_step, OF 6])
qed


text \<open>
  a successful \<open>get_or_init\<close> is remembered: a second call returns the same service without
  running its factory, until \<open>reset\<close>, after which the factory decides again. A failing factory
  leaves the cache empty, so the next call tries again.
\<close>

theorem get_or_init_remembers:
  "(\<forall>service c' w'. get_or_init init c w = (Ok service, c', w') \<longrightarrow>
      get_or_init init2 c' w2 = (Ok service, c', w2) \<and>
      get_or_init init2 (cs_reset c') w2 = get_or_init init2 cs_new w2) \<and>
   (\<forall>e c' w'. get_or_init init c w = (Err e, c', w') \<longrightarrow> c' = cs_new \<and> c = cs_new)"
  by (cases c)
    (auto simp: get_or_init_def cs_get_def cs_reset_def cs_new_def split: prod.splits result.splits)

theorem get_or_init_remembers_witness:
  "get_or_init (\<lambda>w. (Ok (9::nat), Suc w)) (Some 4) (0::nat) = (Ok 4, Some 4, 0)"
  using get_or_init_remembers [of "\<lambda>w. (Ok (4::nat), Suc w)" None "0::nat" "\<lambda>w. (Ok 9, Suc w)" 0]
  by (simp add: get_or_init_def cs_get_def)

text \<open>
  C33: a call of \<open>get_or_init_with_config\<close> that succeeds returns a service made for exactly the
  configuration it asked for, whatever other calls with other configurations and resets do
  meanwhile.
\<close>

theorem configured_service_matches:
  assumes "cc_initial s" and "(cc_step makes)\<^sup>*\<^sup>* s s'"
    and "(config, Finished (Ok service)) \<in> set (ccs_calls s')"
  shows "makes config service"
proof -
  have "paired makes s'" using assms(1,2) by (rule config_pairs.reachable_inv)
  with assms(3) show ?thesis by (simp add: paired_def)
qed

definition cc_demo :: "(nat \<times> nat call) list \<Rightarrow> (nat, nat) cc_system" where
  "cc_demo calls = \<lparr>ccs_cache = cc_new, ccs_calls = calls\<rparr>"

definition cc_demo_end :: "(nat, nat) cc_system" where
  "cc_demo_end = \<lparr>ccs_cache = cc_store 3 4 cc_new, ccs_calls = [(3, Finished (Ok 4))]\<rparr>"

lemma cc_demo_reached: "(cc_step (\<lambda>c s. s = Suc c))\<^sup>*\<^sup>* (cc_demo []) cc_demo_end"
proof -
  let ?step = "cc_step (\<lambda>c s. s = Suc c)"
  have 1: "?step (cc_demo []) (cc_demo [(3, Started)])"
    using cc_new_call [of _ "cc_demo []" 3] by (simp add: cc_demo_def)
  have 2: "?step (cc_demo [(3, Started)]) (cc_demo [(3, Initialising)])"
    using cc_fast_path [of 0 "cc_demo [(3, Started)]" 3]
    by (simp add: cc_demo_def cc_lookup_def cc_new_def)
  have 3: "?step (cc_demo [(3, Initialising)]) cc_demo_end"
    using cc_init_done [of 0 "cc_demo [(3, Initialising)]" 3 "\<lambda>c s. s = Suc c" 4]
    by (simp add: cc_demo_def cc_demo_end_def)
  show ?thesis
    by (rule converse_rtranclp_into_rtranclp [of ?step, OF 1],
        rule converse_rtranclp_into_rtranclp [of ?step, OF 2],
        rule r_into_rtranclp [of ?step, OF 3])
qed

theorem configured_service_matches_witness: "(\<lambda>c s. s = Suc c) (3::nat) 4"
  by (rule configured_service_matches [OF _ cc_demo_reached])
    (simp_all add: cc_initial_def cc_demo_def cc_demo_end_def)
end
