(* ===== verification/NotificationApi.thy ===== *)
theory NotificationApi
  imports GatewayTypes
begin

text \<open>
  \<open>api/notification.rs\<close>: channels, configuration, notifications with their constructors and
  builders, receipts. Identifiers and times are arguments.
\<close>

datatype notification_channel = Email | Sms | Push | InApp | Webhook | Console

definition notification_channel_default :: notification_channel where
  "notification_channel_default = Console"

text \<open>The derived \<open>Debug\<close> name.\<close>

fun channel_debug :: "notification_channel \<Rightarrow> string" where
  "channel_debug Email = ''Email''"
| "channel_debug Sms = ''Sms''"
| "channel_debug Push = ''Push''"
| "channel_debug InApp = ''InApp''"
| "channel_debug Webhook = ''Webhook''"
| "channel_debug Console = ''Console''"

record email_config =
  em_smtp_host :: string
  em_smtp_port :: u16
  em_username :: "string option"
  em_password :: "string option"
  em_from_email :: string
  em_from_name :: "string option"
  em_use_tls :: bool

record sms_config =
  sms_provider :: string
  sms_account_id :: string
  sms_auth_token :: string
  sms_from_number :: string

record push_config =
  push_provider :: string
  push_api_key :: string
  push_options :: "string \<rightharpoonup> string"

record webhook_config =
  wh_url :: string
  wh_auth_header :: "string option"
  wh_auth_value :: "string option"

record notification_config =
  nc_default_channel :: notification_channel
  nc_email :: "email_config option"
  nc_sms :: "sms_config option"
  nc_push :: "push_config option"
  nc_webhook :: "webhook_config option"

definition notification_config_default :: notification_config where
  "notification_config_default =
     \<lparr>nc_default_channel = Console, nc_email = None, nc_sms = None, nc_push = None,
      nc_webhook = None\<rparr>"

datatype notification_priority = Low | Normal | High | Critical

definition notification_priority_default :: notification_priority where
  "notification_priority_default = Normal"

record notification =
  nt_id :: string
  nt_channel :: notification_channel
  nt_recipient :: string
  nt_subject :: "string option"
  nt_body :: string
  nt_html_body :: "string option"
  nt_template_id :: "string option"
  nt_template_vars :: "string \<rightharpoonup> json"
  nt_metadata :: "string \<rightharpoonup> string"
  nt_priority :: notification_priority
  nt_scheduled_at :: "timestamp option"

definition notification_new ::
  "string \<Rightarrow> notification_channel \<Rightarrow> string \<Rightarrow> string \<Rightarrow> notification" where
  "notification_new uuid channel recipient body =
     \<lparr>nt_id = uuid, nt_channel = channel, nt_recipient = recipient, nt_subject = None,
      nt_body = body, nt_html_body = None, nt_template_id = None, nt_template_vars = Map.empty,
      nt_metadata = Map.empty, nt_priority = Normal, nt_scheduled_at = None\<rparr>"

definition notification_email :: "string \<Rightarrow> string \<Rightarrow> string \<Rightarrow> string \<Rightarrow> notification" where
  "notification_email uuid recipient subject body =
     \<lparr>nt_id = uuid, nt_channel = Email, nt_recipient = recipient, nt_subject = Some subject,
      nt_body = body, nt_html_body = None, nt_template_id = None, nt_template_vars = Map.empty,
      nt_metadata = Map.empty, nt_priority = Normal, nt_scheduled_at = None\<rparr>"

definition notification_sms :: "string \<Rightarrow> string \<Rightarrow> string \<Rightarrow> notification" where
  "notification_sms uuid recipient body = notification_new uuid Sms recipient body"

definition notification_push :: "string \<Rightarrow> string \<Rightarrow> string \<Rightarrow> string \<Rightarrow> notification" where
  "notification_push uuid recipient title body =
     (notification_new uuid Push recipient body)\<lparr>nt_subject := Some title\<rparr>"

definition notification_console :: "string \<Rightarrow> string \<Rightarrow> notification" where
  "notification_console uuid body = notification_new uuid Console ''console'' body"

definition nt_with_subject :: "string \<Rightarrow> notification \<Rightarrow> notification" where
  "nt_with_subject s n = n\<lparr>nt_subject := Some s\<rparr>"

definition nt_with_html :: "string \<Rightarrow> notification \<Rightarrow> notification" where
  "nt_with_html h n = n\<lparr>nt_html_body := Some h\<rparr>"

definition nt_with_template :: "string \<Rightarrow> notification \<Rightarrow> notification" where
  "nt_with_template t n = n\<lparr>nt_template_id := Some t\<rparr>"

definition nt_with_var :: "string \<Rightarrow> json \<Rightarrow> notification \<Rightarrow> notification" where
  "nt_with_var k v n = n\<lparr>nt_template_vars := (nt_template_vars n)(k \<mapsto> v)\<rparr>"

definition nt_with_priority :: "notification_priority \<Rightarrow> notification \<Rightarrow> notification" where
  "nt_with_priority p n = n\<lparr>nt_priority := p\<rparr>"

definition nt_schedule :: "timestamp \<Rightarrow> notification \<Rightarrow> notification" where
  "nt_schedule t n = n\<lparr>nt_scheduled_at := Some t\<rparr>"

datatype notification_status =
  Pending | Sent | Delivered | Opened | Failed | Bounced | Complained

record notification_receipt =
  nr_notification_id :: string
  nr_provider_id :: "string option"
  nr_status :: notification_status
  nr_message :: "string option"
  nr_timestamp :: timestamp
  nr_metadata :: "string \<rightharpoonup> string"

definition receipt_success :: "timestamp \<Rightarrow> string \<Rightarrow> notification_receipt" where
  "receipt_success now i =
     \<lparr>nr_notification_id = i, nr_provider_id = None, nr_status = Sent, nr_message = None,
      nr_timestamp = now, nr_metadata = Map.empty\<rparr>"

definition receipt_failed :: "timestamp \<Rightarrow> string \<Rightarrow> string \<Rightarrow> notification_receipt" where
  "receipt_failed now i msg =
     \<lparr>nr_notification_id = i, nr_provider_id = None, nr_status = Failed, nr_message = Some msg,
      nr_timestamp = now, nr_metadata = Map.empty\<rparr>"

definition receipt_with_provider_id :: "string \<Rightarrow> notification_receipt \<Rightarrow> notification_receipt" where
  "receipt_with_provider_id i r = r\<lparr>nr_provider_id := Some i\<rparr>"

end
