(* ===== verification/Text.thy ===== *)
theory Text
  imports Prelude
begin

text \<open>
  Operations of \<open>str\<close> on UTF-8 text that several components use: whitespace and \<open>trim\<close>, \<open>lines\<close>,
  \<open>split\<close> and \<open>replace\<close>, with the facts about text that is put together from lines.
\<close>

section \<open>Whitespace\<close>

text \<open>
  The length in bytes of the whitespace character at the head of a text, 0 if there is none: the
  characters with the property \<open>White_Space\<close>, as they are encoded.
\<close>

definition byte_at :: "string \<Rightarrow> nat \<Rightarrow> nat" where
  "byte_at s i = (if i < length s then of_char (s ! i) else 0)"

definition white1 :: "nat \<Rightarrow> bool" where
  "white1 a \<longleftrightarrow> a = 32 \<or> (9 \<le> a \<and> a \<le> 13)"

definition white2 :: "nat \<Rightarrow> nat \<Rightarrow> bool" where
  "white2 a b \<longleftrightarrow> a = 194 \<and> (b = 133 \<or> b = 160)"

definition white3 :: "nat \<Rightarrow> nat \<Rightarrow> nat \<Rightarrow> bool" where
  "white3 a b c \<longleftrightarrow>
     a = 225 \<and> b = 154 \<and> c = 128 \<or>
     a = 226 \<and> b = 128 \<and> (128 \<le> c \<and> c \<le> 138 \<or> c = 168 \<or> c = 169 \<or> c = 175) \<or>
     a = 226 \<and> b = 129 \<and> c = 159 \<or>
     a = 227 \<and> b = 128 \<and> c = 128"

lemmas white_defs = white1_def white2_def white3_def

definition whitespace_length :: "string \<Rightarrow> nat" where
  "whitespace_length s =
     (if white1 (byte_at s 0) then 1
      else if white2 (byte_at s 0) (byte_at s 1) then 2
      else if white3 (byte_at s 0) (byte_at s 1) (byte_at s 2) then 3
      else 0)"

function trim_start :: "string \<Rightarrow> string" where
  "trim_start s =
     (if s = [] \<or> whitespace_length s = 0 then s else trim_start (drop (whitespace_length s) s))"
  by auto
termination by (relation "measure length") auto

declare trim_start.simps [simp del]

text \<open>The length of the whitespace character a text ends with; UTF-8 is self-synchronising.\<close>

definition ends_with_space :: "string \<Rightarrow> nat \<Rightarrow> bool" where
  "ends_with_space s k \<longleftrightarrow> k \<le> length s \<and> whitespace_length (drop (length s - k) s) = k"

definition trailing_whitespace :: "string \<Rightarrow> nat" where
  "trailing_whitespace s =
     (if ends_with_space s 1 then 1 else if ends_with_space s 2 then 2
      else if ends_with_space s 3 then 3 else 0)"

function trim_end :: "string \<Rightarrow> string" where
  "trim_end s =
     (if s = [] \<or> trailing_whitespace s = 0 then s
      else trim_end (take (length s - trailing_whitespace s) s))"
  by auto
termination by (relation "measure length") auto

declare trim_end.simps [simp del]

definition str_trim :: "string \<Rightarrow> string" where
  "str_trim s = trim_end (trim_start s)"

section \<open>Lines, splitting and replacing\<close>

abbreviation newline :: char where "newline \<equiv> CHR 0x0A"
abbreviation carriage_return :: char where "carriage_return \<equiv> CHR 0x0D"

text \<open>\<open>str::lines\<close>: a line ends at a newline, a carriage return before it is not part of it.\<close>

definition line_of :: "string \<Rightarrow> string" where
  "line_of s = (if s \<noteq> [] \<and> last s = carriage_return then butlast s else s)"

fun lines_from :: "string \<Rightarrow> string \<Rightarrow> string list" where
  "lines_from acc [] = (if acc = [] then [] else [acc])"
| "lines_from acc (c # s) =
     (if c = newline then line_of acc # lines_from [] s else lines_from (acc @ [c]) s)"

definition text_lines :: "string \<Rightarrow> string list" where
  "text_lines s = lines_from [] s"

text \<open>\<open>str::split\<close> by a separator that is not empty.\<close>

function split_from :: "string \<Rightarrow> string \<Rightarrow> string \<Rightarrow> string list" where
  "split_from sep acc s =
     (if s = [] then [acc]
      else if sep \<noteq> [] \<and> starts_with s sep then acc # split_from sep [] (drop (length sep) s)
      else split_from sep (acc @ [hd s]) (tl s))"
  by auto
termination by (relation "measure (\<lambda>(sep, acc, s). length s)") auto

declare split_from.simps [simp del]

definition split_text :: "string \<Rightarrow> string \<Rightarrow> string list" where
  "split_text sep s = split_from sep [] s"

text \<open>
  \<open>str::replace\<close>: the matches from left to right that do not overlap. The empty pattern matches
  at every character boundary.
\<close>

fun replace_empty :: "string \<Rightarrow> string \<Rightarrow> string" where
  "replace_empty to [] = to"
| "replace_empty to (c # s) = (if is_continuation c then [] else to) @ c # replace_empty to s"

function replace_match :: "string \<Rightarrow> string \<Rightarrow> string \<Rightarrow> string" where
  "replace_match from to s =
     (if s = [] then []
      else if from \<noteq> [] \<and> starts_with s from
      then to @ replace_match from to (drop (length from) s)
      else hd s # replace_match from to (tl s))"
  by auto
termination by (relation "measure (\<lambda>(from, to, s). length s)") auto

declare replace_match.simps [simp del]

definition replace_text :: "string \<Rightarrow> string \<Rightarrow> string \<Rightarrow> string" where
  "replace_text from to s = (if from = [] then replace_empty to s else replace_match from to s)"

text \<open>Characters are counted, as \<open>format!("{:<w$}")\<close> does.\<close>

definition char_count :: "string \<Rightarrow> nat" where
  "char_count s = length (filter (\<lambda>c. \<not> is_continuation c) s)"

definition pad_left_aligned :: "nat \<Rightarrow> string \<Rightarrow> string" where
  "pad_left_aligned w s = s @ replicate (w - char_count s) (CHR '' '')"

section \<open>Trimmed text\<close>

lemma byte_at_append: "i < length s \<Longrightarrow> byte_at (s @ t) i = byte_at s i"
  by (simp add: byte_at_def nth_append)

lemma byte_at_less: "byte_at s i \<noteq> 0 \<Longrightarrow> i < length s"
  by (simp add: byte_at_def split: if_splits)

lemma white_nonzero:
  "white1 a \<Longrightarrow> a \<noteq> 0" "white2 a b \<Longrightarrow> b \<noteq> 0" "white3 a b c \<Longrightarrow> c \<noteq> 0"
  unfolding white_defs by linarith+

lemma whitespace_length_le: "whitespace_length s \<le> length s"
proof -
  have "byte_at s 0 \<noteq> 0 \<Longrightarrow> 1 \<le> length s" "byte_at s 1 \<noteq> 0 \<Longrightarrow> 2 \<le> length s"
    "byte_at s 2 \<noteq> 0 \<Longrightarrow> 3 \<le> length s"
    using byte_at_less [of s 0] byte_at_less [of s 1] byte_at_less [of s 2] by linarith+
  moreover note white_nonzero(1) [of "byte_at s 0"] white_nonzero(2) [of "byte_at s 0" "byte_at s 1"]
    white_nonzero(3) [of "byte_at s 0" "byte_at s 1" "byte_at s 2"]
  ultimately have "white1 (byte_at s 0) \<Longrightarrow> 1 \<le> length s" "white2 (byte_at s 0) (byte_at s 1) \<Longrightarrow> 2 \<le> length s"
    "white3 (byte_at s 0) (byte_at s 1) (byte_at s 2) \<Longrightarrow> 3 \<le> length s" by blast+
  then show ?thesis unfolding whitespace_length_def by simp
qed

lemma whitespace_length_append:
  assumes "whitespace_length s \<noteq> 0"
  shows "whitespace_length (s @ t) = whitespace_length s"
proof -
  have keep: "byte_at (s @ t) i = byte_at s i" if "i < whitespace_length s" for i
    using that whitespace_length_le [of s] by (simp add: byte_at_append)
  consider "white1 (byte_at s 0)" | "\<not> white1 (byte_at s 0)" "white2 (byte_at s 0) (byte_at s 1)"
    | "\<not> white1 (byte_at s 0)" "\<not> white2 (byte_at s 0) (byte_at s 1)"
      "white3 (byte_at s 0) (byte_at s 1) (byte_at s 2)"
    using assms unfolding whitespace_length_def by (metis (no_types))
  then show ?thesis
  proof cases
    case 1
    then have "byte_at (s @ t) 0 = byte_at s 0" using keep [of 0] by (simp add: whitespace_length_def)
    with 1 show ?thesis by (simp add: whitespace_length_def)
  next
    case 2
    then have "byte_at (s @ t) 0 = byte_at s 0" "byte_at (s @ t) 1 = byte_at s 1"
      using keep [of 0] keep [of 1] by (simp_all add: whitespace_length_def)
    with 2 show ?thesis by (simp add: whitespace_length_def)
  next
    case 3
    then have "byte_at (s @ t) 0 = byte_at s 0" "byte_at (s @ t) 1 = byte_at s 1"
      "byte_at (s @ t) 2 = byte_at s 2"
      using keep [of 0] keep [of 1] keep [of 2] by (simp_all add: whitespace_length_def)
    with 3 show ?thesis by (simp add: whitespace_length_def)
  qed
qed

lemma trim_start_no_space: "trim_start s = [] \<or> whitespace_length (trim_start s) = 0"
proof (induction s rule: trim_start.induct)
  case (1 s)
  show ?case
  proof (cases "s = [] \<or> whitespace_length s = 0")
    case True
    then have "trim_start s = s" by (simp add: trim_start.simps)
    with True show ?thesis by auto
  next
    case False
    then have "trim_start s = trim_start (drop (whitespace_length s) s)" by (subst trim_start.simps) simp
    with 1 [OF False] show ?thesis by simp
  qed
qed

lemma trim_end_prefix: "\<exists>t. s = trim_end s @ t"
proof (induction s rule: trim_end.induct)
  case (1 s)
  show ?case
  proof (cases "s = [] \<or> trailing_whitespace s = 0")
    case True
    then show ?thesis by (simp add: trim_end.simps)
  next
    case False
    then have eq: "trim_end s = trim_end (take (length s - trailing_whitespace s) s)"
      by (subst trim_end.simps) simp
    obtain t where "take (length s - trailing_whitespace s) s = trim_end s @ t"
      using 1 [OF False] unfolding eq by blast
    then have "s = trim_end s @ t @ drop (length s - trailing_whitespace s) s"
      by (metis append.assoc append_take_drop_id)
    then show ?thesis by blast
  qed
qed

lemma trim_end_no_space: "trim_end s = [] \<or> trailing_whitespace (trim_end s) = 0"
proof (induction s rule: trim_end.induct)
  case (1 s)
  show ?case
  proof (cases "s = [] \<or> trailing_whitespace s = 0")
    case True
    then have "trim_end s = s" by (simp add: trim_end.simps)
    with True show ?thesis by auto
  next
    case False
    then have "trim_end s = trim_end (take (length s - trailing_whitespace s) s)"
      by (subst trim_end.simps) simp
    with 1 [OF False] show ?thesis by simp
  qed
qed

text \<open>A text that \<open>trim\<close> leaves as it is.\<close>

definition trimmed :: "string \<Rightarrow> bool" where
  "trimmed s \<longleftrightarrow> s = [] \<or> whitespace_length s = 0 \<and> trailing_whitespace s = 0"

lemma str_trim_trimmed [simp]: "trimmed s \<Longrightarrow> str_trim s = s"
  unfolding trimmed_def str_trim_def by (subst trim_start.simps, subst trim_end.simps) auto

lemma trimmed_str_trim [simp]: "trimmed (str_trim s)"
proof -
  obtain t where "trim_start s = str_trim s @ t" using trim_end_prefix str_trim_def by metis
  then have "str_trim s = [] \<or> whitespace_length (str_trim s) = 0"
    using trim_start_no_space [of s] whitespace_length_append by (metis Nil_is_append_conv)
  then show ?thesis using trim_end_no_space [of "trim_start s"] by (auto simp: trimmed_def str_trim_def)
qed

lemma trimmed_last:
  assumes "trimmed s" "s \<noteq> []"
  shows "last s \<noteq> carriage_return"
proof
  assume "last s = carriage_return"
  then have "drop (length s - 1) s = [carriage_return]"
    using assms(2) by (cases s rule: rev_cases) auto
  moreover have "whitespace_length [carriage_return] = 1"
    by (simp add: whitespace_length_def byte_at_def white_defs)
  moreover have "1 \<le> length s" using assms(2) by (cases s) simp_all
  ultimately have "ends_with_space s 1" unfolding ends_with_space_def by simp
  with assms show False by (auto simp: trimmed_def trailing_whitespace_def)
qed

lemma set_trim_start: "set (trim_start s) \<subseteq> set s"
proof (induction s rule: trim_start.induct)
  case (1 s)
  show ?case
  proof (cases "s = [] \<or> whitespace_length s = 0")
    case True
    then show ?thesis by (simp add: trim_start.simps)
  next
    case False
    then have "trim_start s = trim_start (drop (whitespace_length s) s)" by (subst trim_start.simps) simp
    then show ?thesis using 1 [OF False] set_drop_subset [of "whitespace_length s" s] by simp
  qed
qed

lemma set_str_trim: "set (str_trim s) \<subseteq> set s"
  using set_trim_start [of s] trim_end_prefix [of "trim_start s"]
  unfolding str_trim_def by (metis le_sup_iff set_append)

section \<open>Lines\<close>

lemma lines_from_line:
  "newline \<notin> set l \<Longrightarrow> lines_from acc (l @ newline # s) = line_of (acc @ l) # lines_from [] s"
  by (induction l arbitrary: acc) auto

lemma text_lines_line: "newline \<notin> set l \<Longrightarrow> text_lines (l @ newline # s) = line_of l # text_lines s"
  using lines_from_line [of l "[]" s] by (simp add: text_lines_def)

lemma text_lines_join:
  assumes "ls \<noteq> []" "\<forall>l \<in> set ls. newline \<notin> set l \<and> line_of l = l"
  shows "text_lines (join_with [newline] ls @ [newline]) = ls"
  using assms
proof (induction ls)
  case (Cons l ls)
  have nil: "text_lines [] = []" by (simp add: text_lines_def)
  show ?case
  proof (cases ls)
    case Nil
    then show ?thesis using Cons.prems text_lines_line [of l "[]"] by (simp add: nil)
  next
    case (Cons l' ls')
    then show ?thesis
      using Cons.IH Cons.prems text_lines_line [of l "join_with [newline] ls @ [newline]"] by simp
  qed
qed simp

lemma lines_from_no_newline:
  "newline \<notin> set acc \<Longrightarrow> l \<in> set (lines_from acc s) \<Longrightarrow> newline \<notin> set l"
proof (induction acc s rule: lines_from.induct)
  case (2 acc c s)
  then show ?case by (auto simp: line_of_def split: if_splits dest: in_set_butlastD)
qed (auto split: if_splits)

lemma text_lines_no_newline: "l \<in> set (text_lines s) \<Longrightarrow> newline \<notin> set l"
  unfolding text_lines_def using lines_from_no_newline [of "[]"] by simp

lemma trimmed_line: "trimmed l \<Longrightarrow> line_of l = l"
  using trimmed_last by (auto simp: line_of_def)

end
