(* ===== verification/ConsoleNotifier.thy ===== *)
theory ConsoleNotifier
  imports NotificationApi Text
begin

text \<open>
  \<open>core/notification/console.rs\<close>: formatting with truncation and word wrap, and the notifier
  whose state is the map of receipts and what it has printed. Text is UTF-8: truncation slices at
  a byte offset and panics (\<open>None\<close>) inside a character; padding counts characters. \<open>ks\<close> is the
  iteration order of the receipts.
\<close>

section \<open>Formatting\<close>

definition truncate_text :: "string \<Rightarrow> nat \<Rightarrow> string option" where
  "truncate_text s max_len =
     (if length s \<le> max_len then Some s
      else map_option (\<lambda>t. t @ ''...'') (slice_to s (max_len - 3)))"

function split_words :: "string \<Rightarrow> string \<Rightarrow> string list" where
  "split_words word [] = (if word = [] then [] else [word])"
| "split_words word (c # s) =
     (case whitespace_length (c # s) of
        0 \<Rightarrow> split_words (word @ [c]) s
      | Suc k \<Rightarrow> (if word = [] then [] else [word]) @ split_words [] (drop k s))"
  by pat_completeness auto
termination by (relation "measure (\<lambda>(word, s). length s)") auto

definition split_whitespace :: "string \<Rightarrow> string list" where
  "split_whitespace s = split_words [] s"

fun wrap_loop :: "nat \<Rightarrow> string list \<Rightarrow> string list \<Rightarrow> string \<Rightarrow> string list \<times> string" where
  "wrap_loop max_width [] lines current_line = (lines, current_line)"
| "wrap_loop max_width (word # ws) lines current_line =
     (if current_line = [] then wrap_loop max_width ws lines word
      else if length current_line + 1 + length word \<le> max_width
      then wrap_loop max_width ws lines (current_line @ '' '' @ word)
      else wrap_loop max_width ws (lines @ [current_line]) word)"

definition word_wrap :: "string \<Rightarrow> nat \<Rightarrow> string list" where
  "word_wrap txt max_width =
     (case wrap_loop max_width (split_whitespace txt) [] [] of
        (lines, current_line) \<Rightarrow>
          (let lines1 = (if current_line = [] then lines else lines @ [current_line])
           in if lines1 = [] then [''''] else lines1))"

definition pad_centered :: "nat \<Rightarrow> string \<Rightarrow> string" where
  "pad_centered w s =
     (let fill = w - char_count s; left = fill div 2
      in replicate left (CHR '' '') @ s @ replicate (fill - left) (CHR '' ''))"

text \<open>The box drawing characters, in UTF-8.\<close>

definition utf8 :: "nat list \<Rightarrow> string" where
  "utf8 bytes = map char_of bytes"

definition box_vertical :: string where "box_vertical = utf8 [226, 148, 130]"

definition box_rule :: "nat list \<Rightarrow> nat list \<Rightarrow> string" where
  "box_rule left right =
     utf8 left @ concat (replicate 61 (utf8 [226, 148, 128])) @ utf8 right @ [CHR 0x0A]"

definition box_top :: string where
  "box_top = CHR 0x0A # box_rule [226, 148, 140] [226, 148, 144]"

definition box_middle :: string where
  "box_middle = box_rule [226, 148, 156] [226, 148, 164]"

definition box_bottom :: string where
  "box_bottom = box_rule [226, 148, 148] [226, 148, 152]"

definition box_line :: "string \<Rightarrow> string" where
  "box_line s = box_vertical @ '' '' @ s @ '' '' @ box_vertical @ [CHR 0x0A]"

definition format_notification :: "notification \<Rightarrow> string option" where
  "format_notification n =
     Option.bind (truncate_text (nt_recipient n) 48) (\<lambda>recipient.
     Option.bind
       (case nt_subject n of
          None \<Rightarrow> Some ''''
        | Some subject \<Rightarrow>
            map_option (\<lambda>t. box_line (''Subject:   '' @ pad_left_aligned 48 t)) (truncate_text subject 48))
       (\<lambda>subject_line.
     Some (box_top @
       box_line (pad_centered 59 (channel_debug (nt_channel n) @ '' Notification'')) @
       box_middle @
       box_line (''ID:        '' @ pad_left_aligned 48 (nt_id n)) @
       box_line (''To:        '' @ pad_left_aligned 48 recipient) @
       subject_line @
       box_middle @
       concat (map (\<lambda>l. box_line (pad_left_aligned 59 l)) (word_wrap (nt_body n) 59)) @
       box_bottom)))"

section \<open>The notifier\<close>

record console_notifier =
  cn_sent :: "string \<rightharpoonup> notification_receipt"
  cn_verbose :: bool
  cn_printed :: "string list"

definition cn_new :: console_notifier where
  "cn_new = \<lparr>cn_sent = Map.empty, cn_verbose = True, cn_printed = []\<rparr>"

definition cn_silent :: console_notifier where
  "cn_silent = \<lparr>cn_sent = Map.empty, cn_verbose = False, cn_printed = []\<rparr>"

definition cn_with_verbose :: "bool \<Rightarrow> console_notifier \<Rightarrow> console_notifier" where
  "cn_with_verbose v c = c\<lparr>cn_verbose := v\<rparr>"

definition get_status ::
  "timestamp \<Rightarrow> console_notifier \<Rightarrow> string \<Rightarrow> notification_receipt gateway_result" where
  "get_status now c i =
     (case cn_sent c i of
        Some receipt \<Rightarrow> Ok receipt
      | None \<Rightarrow>
          Ok \<lparr>nr_notification_id = i, nr_provider_id = None, nr_status = Pending,
              nr_message = Some ''Notification not found'', nr_timestamp = now,
              nr_metadata = Map.empty\<rparr>)"

definition list_sent ::
  "string list \<Rightarrow> console_notifier \<Rightarrow> usize \<Rightarrow> usize \<Rightarrow> notification_receipt list gateway_result" where
  "list_sent ks c limit offset =
     Ok (take (unat limit) (drop (unat offset) (values_in ks (cn_sent c))))"

definition cn_health_check :: "timestamp \<Rightarrow> health_check gateway_result" where
  "cn_health_check now = Ok (healthy now)"

definition send ::
  "console_notifier \<Rightarrow> timestamp \<Rightarrow> string \<Rightarrow> notification \<Rightarrow>
   (notification_receipt gateway_result \<times> console_notifier) option" where
  "send c now uuid n =
     Option.bind
       (if cn_verbose c
        then map_option (\<lambda>formatted. c\<lparr>cn_printed := cn_printed c @ [formatted]\<rparr>)
               (format_notification n)
        else Some c)
       (\<lambda>c1.
          let receipt = \<lparr>nr_notification_id = nt_id n, nr_provider_id = Some (''console-'' @ uuid),
                nr_status = Delivered, nr_message = None, nr_timestamp = now,
                nr_metadata = Map.empty\<rparr>
          in Some (Ok receipt, c1\<lparr>cn_sent := (cn_sent c1)(nt_id n \<mapsto> receipt)\<rparr>))"

text \<open>\<open>clock\<close> and \<open>uuid\<close> give the time and identifier of the \<open>k\<close>-th call.\<close>

fun send_batch_loop ::
  "(nat \<Rightarrow> timestamp) \<Rightarrow> (nat \<Rightarrow> string) \<Rightarrow> nat \<Rightarrow> notification list \<Rightarrow> notification_receipt list \<Rightarrow>
   console_notifier \<Rightarrow> (notification_receipt list gateway_result \<times> console_notifier) option" where
  "send_batch_loop clock uuid k [] receipts c = Some (Ok receipts, c)"
| "send_batch_loop clock uuid k (n # ns) receipts c =
     (case send c (clock k) (uuid k) n of
        None \<Rightarrow> None
      | Some (Err e, c') \<Rightarrow> Some (Err e, c')
      | Some (Ok receipt, c') \<Rightarrow> send_batch_loop clock uuid (Suc k) ns (receipts @ [receipt]) c')"

definition send_batch ::
  "console_notifier \<Rightarrow> (nat \<Rightarrow> timestamp) \<Rightarrow> (nat \<Rightarrow> string) \<Rightarrow> notification list \<Rightarrow>
   (notification_receipt list gateway_result \<times> console_notifier) option" where
  "send_batch c clock uuid ns = send_batch_loop clock uuid 0 ns [] c"

definition cancel :: "console_notifier \<Rightarrow> string \<Rightarrow> bool gateway_result \<times> console_notifier" where
  "cancel c i =
     (case cn_sent c i of
        Some receipt \<Rightarrow>
          if nr_status receipt = Pending
          then (Ok True, c\<lparr>cn_sent := (cn_sent c)(i \<mapsto>
                  receipt\<lparr>nr_status := Failed, nr_message := Some ''Cancelled''\<rparr>)\<rparr>)
          else (Ok False, c)
      | None \<Rightarrow> (Ok False, c))"

section \<open>Word wrap\<close>

lemma split_words_nonempty: "[] \<notin> set (split_words word s)"
  by (induction word s rule: split_words.induct) (auto split: nat.split)

abbreviation join_words :: "string list \<Rightarrow> string" where
  "join_words \<equiv> join_with '' ''"

lemma join_words_snoc: "g \<noteq> [] \<Longrightarrow> join_words (g @ [w]) = join_words g @ '' '' @ w"
proof (induction g)
  case (Cons x g)
  then show ?case by (cases g) auto
qed simp

lemma join_words_eq_Nil: "[] \<notin> set g \<Longrightarrow> join_words g = [] \<longleftrightarrow> g = []"
  by (cases g rule: list.exhaust; cases "tl g") auto

text \<open>
  A text is wrapped into groups of consecutive words: each fits the width or is a single word, and
  the first word of the next group would not have fitted.
\<close>

definition fits :: "nat \<Rightarrow> string list \<Rightarrow> bool" where
  "fits w g \<longleftrightarrow> length (join_words g) \<le> w \<or> length g \<le> 1"

definition full_before :: "nat \<Rightarrow> string list \<Rightarrow> string list \<Rightarrow> bool" where
  "full_before w a b \<longleftrightarrow> w < length (join_words a) + 1 + length (hd b)"

lemma successively_snoc:
  "successively P (xs @ [y]) \<longleftrightarrow> successively P xs \<and> (xs \<noteq> [] \<longrightarrow> P (last xs) y)"
  by (cases "xs = []") (simp_all add: successively_append_iff)

lemma wrap_loop_groups:
  assumes "[] \<notin> set ws" "[] \<notin> set g" "fits w g" "g \<noteq> [] \<or> groups = []"
    and "successively (full_before w) (groups @ (if g = [] then [] else [g]))"
    and "[] \<notin> set groups" "list_all (fits w) groups"
  shows "\<exists>groups' g'.
    wrap_loop w ws (map join_words groups) (join_words g) = (map join_words groups', join_words g') \<and>
    concat groups' @ g' = concat groups @ g @ ws \<and> [] \<notin> set g' \<and> [] \<notin> set groups' \<and>
    list_all (fits w) groups' \<and> fits w g' \<and> (g' \<noteq> [] \<or> groups' = []) \<and>
    successively (full_before w) (groups' @ (if g' = [] then [] else [g']))"
  using assms
proof (induction ws arbitrary: groups g)
  case Nil
  then show ?case by (intro exI [of _ groups] exI [of _ g]) simp
next
  case (Cons word ws)
  have word: "word \<noteq> []" "[] \<notin> set ws" using Cons.prems(1) by auto
  consider "g = []" | "g \<noteq> []" "length (join_words g) + 1 + length word \<le> w"
    | "g \<noteq> []" "w < length (join_words g) + 1 + length word" by linarith
  then show ?case
  proof cases
    case 1
    with Cons.prems word have "groups = []" by simp
    with 1 word Cons.IH [of "[word]" "[]"] show ?thesis by (simp add: fits_def)
  next
    case 2
    have ne: "join_words g \<noteq> []" using 2(1) Cons.prems(2) by (simp add: join_words_eq_Nil)
    have snoc: "join_words (g @ [word]) = join_words g @ '' '' @ word"
      using 2(1) by (rule join_words_snoc)
    have "hd (g @ [word]) = hd g" using 2(1) by simp
    then have succ: "successively (full_before w) (groups @ [g @ [word]])"
      using Cons.prems(5) 2(1) by (simp add: successively_snoc full_before_def)
    have "fits w (g @ [word])" using 2(2) by (simp add: fits_def snoc)
    with Cons.IH [of "g @ [word]" groups] Cons.prems word succ 2 ne show ?thesis
      by (simp add: snoc)
  next
    case 3
    have ne: "join_words g \<noteq> []" using 3(1) Cons.prems(2) by (simp add: join_words_eq_Nil)
    have "successively (full_before w) ((groups @ [g]) @ [[word]])"
      using Cons.prems(5) 3 by (simp only: successively_snoc) (simp add: full_before_def successively_snoc)
    with Cons.IH [of "[word]" "groups @ [g]"] Cons.prems word 3 ne show ?thesis
      by (simp add: fits_def)
  qed
qed

section \<open>Truncation\<close>

lemma truncate_text_None_iff:
  "truncate_text s n = None \<longleftrightarrow> n < length s \<and> \<not> is_char_boundary s (n - 3)"
  by (auto simp: truncate_text_def slice_to_def)

lemma format_None_iff:
  "format_notification n = None \<longleftrightarrow>
     truncate_text (nt_recipient n) 48 = None \<or> (\<exists>s. nt_subject n = Some s \<and> truncate_text s 48 = None)"
  by (cases "truncate_text (nt_recipient n) 48"; cases "nt_subject n")
    (auto simp: format_notification_def split: bind_splits)

section \<open>The notifier's states\<close>

lemma send_silent:
  "\<not> cn_verbose c \<Longrightarrow> \<exists>r. send c now uuid n = Some (Ok r, c\<lparr>cn_sent := (cn_sent c)(nt_id n \<mapsto> r)\<rparr>) \<and>
     nr_notification_id r = nt_id n \<and> nr_status r = Delivered"
  by (simp add: send_def Let_def)

lemma send_Some:
  "send c now uuid n = Some (res, c') \<Longrightarrow>
   \<exists>r. res = Ok r \<and> cn_sent c' = (cn_sent c)(nt_id n \<mapsto> r) \<and> cn_verbose c' = cn_verbose c \<and>
     nr_notification_id r = nt_id n \<and> nr_status r = Delivered"
  by (auto simp: send_def Let_def bind_eq_Some_conv split: if_splits)

inductive cn_step :: "console_notifier \<Rightarrow> console_notifier \<Rightarrow> bool" where
  "send c now uuid n = Some (res, c') \<Longrightarrow> cn_step c c'"
| "send_batch c clock uuids ns = Some (res, c') \<Longrightarrow> cn_step c c'"
| "cn_step c (snd (cancel c i))"

definition all_delivered :: "console_notifier \<Rightarrow> bool" where
  "all_delivered c \<longleftrightarrow>
     (\<forall>i r. cn_sent c i = Some r \<longrightarrow> nr_notification_id r = i \<and> nr_status r = Delivered)"

lemma send_delivered:
  "send c now uuid n = Some (res, c') \<Longrightarrow> all_delivered c \<Longrightarrow> all_delivered c'"
  by (drule send_Some) (auto simp: all_delivered_def split: if_splits)

lemma send_batch_delivered:
  "send_batch_loop clock uuid k ns rs c = Some (res, c') \<Longrightarrow> all_delivered c \<Longrightarrow> all_delivered c'"
proof (induction clock uuid k ns rs c rule: send_batch_loop.induct)
  case (2 clock uuid k n ns receipts c)
  from "2.prems"(1) obtain r c1 where s: "send c (clock k) (uuid k) n = Some (Ok r, c1)"
    and rest: "send_batch_loop clock uuid (Suc k) ns (receipts @ [r]) c1 = Some (res, c')"
    by (auto split: option.splits prod.splits result.splits dest: send_Some)
  from "2.IH" [OF s refl refl rest] send_delivered [OF s "2.prems"(2)] show ?case .
qed simp

lemma cancel_delivered: "all_delivered c \<Longrightarrow> cancel c i = (Ok False, c)"
  by (auto simp: all_delivered_def cancel_def split: option.split)

interpretation delivered: invariant_machine
  "\<lambda>c. c = cn_new \<or> c = cn_silent \<or> (\<exists>v. c = cn_with_verbose v cn_new)" cn_step all_delivered
proof unfold_locales
  show "all_delivered c'" if "all_delivered c" "cn_step c c'" for c c'
    using that(2,1)
    by (induction rule: cn_step.induct)
      (auto simp: cancel_delivered send_batch_def intro: send_delivered send_batch_delivered)
qed (auto simp: all_delivered_def cn_new_def cn_silent_def cn_with_verbose_def)

lemma batch_loop_result:
  "send_batch_loop clock uuid k ns rs c = Some (res, c') \<Longrightarrow>
   \<exists>out. res = Ok (rs @ out) \<and> map nr_notification_id out = map nt_id ns \<and>
     list_all (\<lambda>r. nr_status r = Delivered) out"
proof (induction clock uuid k ns rs c rule: send_batch_loop.induct)
  case (2 clock uuid k n ns receipts c)
  from "2.prems" obtain r c1 where s: "send c (clock k) (uuid k) n = Some (Ok r, c1)"
    and rest: "send_batch_loop clock uuid (Suc k) ns (receipts @ [r]) c1 = Some (res, c')"
    by (auto split: option.splits prod.splits result.splits dest: send_Some)
  from "2.IH" [OF s refl refl rest] send_Some [OF s] show ?case by auto
qed simp

section \<open>Properties\<close>

text \<open>
  word wrap keeps every word of the text in order and splits them into lines of words joined
  by single spaces. Each line fits the width unless it is one long word, and no line could have
  taken the first word of the next one. A text without words gives one empty line.
\<close>

theorem word_wrap_lines:
  "\<exists>groups. concat groups = split_whitespace txt \<and> [] \<notin> set groups \<and>
     word_wrap txt w = (if groups = [] then [''''] else map (join_with '' '') groups) \<and>
     list_all (\<lambda>g. length (join_with '' '' g) \<le> w \<or> length g = 1) groups \<and>
     successively (\<lambda>a b. w < length (join_with '' '' a) + 1 + length (hd b)) groups"
proof -
  let ?ws = "split_whitespace txt"
  have "[] \<notin> set ?ws" by (simp add: split_whitespace_def split_words_nonempty)
  then obtain groups g where *:
    "wrap_loop w ?ws [] [] = (map join_words groups, join_words g)"
    "concat groups @ g = ?ws" "[] \<notin> set g" "[] \<notin> set groups" "list_all (fits w) groups"
    "fits w g" "g \<noteq> [] \<or> groups = []"
    "successively (full_before w) (groups @ (if g = [] then [] else [g]))"
    using wrap_loop_groups [of ?ws "[]" w "[]"] by (auto simp: fits_def)
  let ?gs = "groups @ (if g = [] then [] else [g])"
  have "full_before w = (\<lambda>a b. w < length (join_words a) + 1 + length (hd b))"
    by (simp add: full_before_def fun_eq_iff)
  moreover have "word_wrap txt w = (if ?gs = [] then [''''] else map join_words ?gs)"
    using * by (auto simp: word_wrap_def join_words_eq_Nil Let_def)
  moreover have "list_all (\<lambda>g. length (join_words g) \<le> w \<or> length g = 1) ?gs"
  proof -
    have "length (join_words h) \<le> w \<or> length h = 1" if "fits w h" "h \<noteq> []" for h
      using that by (cases h) (auto simp: fits_def)
    with *(4-6) show ?thesis by (auto simp: list_all_iff)
  qed
  moreover have "concat ?gs = ?ws" "[] \<notin> set ?gs" using *(2,4) by auto
  ultimately show ?thesis using *(8) by (intro exI [of _ ?gs]) simp
qed

text \<open>
  C31: sending panics exactly when the notifier is verbose and the recipient or the subject is
  longer than 48 bytes with a character across byte 45; it never returns an error, and a silent
  notifier never panics.
\<close>

theorem send_panics_iff:
  "(send c now uuid n = None \<longleftrightarrow> cn_verbose c \<and>
     ((48 < length (nt_recipient n) \<and> \<not> is_char_boundary (nt_recipient n) 45) \<or>
      (\<exists>s. nt_subject n = Some s \<and> 48 < length s \<and> \<not> is_char_boundary s 45))) \<and>
   (\<forall>e c'. send c now uuid n \<noteq> Some (Err e, c'))"
  by (auto simp: send_def Let_def format_None_iff truncate_text_None_iff bind_eq_None_conv
      split: bind_splits)

text \<open>
  what was sent can be looked up: after a successful \<open>send\<close> the status of that notification
  is the receipt returned, marked delivered, and other notifications keep theirs.
\<close>

theorem send_then_status:
  assumes "send c now uuid n = Some (res, c')"
  shows "\<exists>r. res = Ok r \<and> get_status t c' (nt_id n) = Ok r \<and> nr_status r = Delivered \<and>
    (\<forall>i. i \<noteq> nt_id n \<longrightarrow> get_status t c' i = get_status t c i)"
  using send_Some [OF assms] by (auto simp: get_status_def)

theorem send_then_status_witness:
  "\<exists>r c'. send cn_silent 0 ''u'' (notification_console ''i'' ''hello'') = Some (Ok r, c') \<and>
    get_status 9 c' ''i'' = Ok r"
proof -
  obtain r c' where s: "send cn_silent 0 ''u'' (notification_console ''i'' ''hello'') = Some (Ok r, c')"
    by (simp add: send_def cn_silent_def Let_def)
  from send_then_status [OF this, of 9] s show ?thesis
    by (auto simp: notification_console_def notification_new_def)
qed

text \<open>
  a batch that returns gives one delivered receipt per notification, in the same order.
\<close>

theorem batch_receipts_in_order:
  assumes "send_batch c clock uuid ns = Some (res, c')"
  shows "\<exists>rs. res = Ok rs \<and> map nr_notification_id rs = map nt_id ns \<and>
    list_all (\<lambda>r. nr_status r = Delivered) rs"
  using batch_loop_result [OF assms [unfolded send_batch_def]] by simp

theorem batch_receipts_in_order_witness:
  "\<exists>rs c'. send_batch cn_silent (\<lambda>_. 0) (\<lambda>_. ''u'')
      [notification_console ''i'' ''a'', notification_console ''j'' ''b''] = Some (Ok rs, c') \<and>
    map nr_notification_id rs = [''i'', ''j'']"
proof -
  obtain res c' where b: "send_batch cn_silent (\<lambda>_. 0) (\<lambda>_. ''u'')
      [notification_console ''i'' ''a'', notification_console ''j'' ''b''] = Some (res, c')"
    by (simp add: send_batch_def send_def cn_silent_def Let_def)
  from batch_receipts_in_order [OF b]
  obtain rs where "res = Ok rs" "map nr_notification_id rs = [''i'', ''j'']"
    by (auto simp: notification_console_def notification_new_def)
  with b show ?thesis by (intro exI [of _ rs] exI [of _ c'] conjI) simp_all
qed

text \<open>
  nothing can ever be cancelled: in every reachable state every receipt is already marked
  delivered, also for notifications scheduled for later, so \<open>cancel\<close> answers \<open>false\<close> and
  changes nothing.
\<close>

theorem cancel_never_succeeds:
  assumes "cn_step\<^sup>*\<^sup>* (cn_with_verbose v cn_new) c"
  shows "cancel c i = (Ok False, c)"
proof -
  have "all_delivered c" using assms by (intro delivered.reachable_inv) auto
  then show ?thesis by (rule cancel_delivered)
qed

theorem cancel_never_succeeds_witness:
  "cancel (snd (the (send (cn_with_verbose False cn_new) 0 ''u''
      (nt_schedule 99 (notification_console ''i'' ''x''))))) ''i'' =
    (Ok False, snd (the (send (cn_with_verbose False cn_new) 0 ''u''
      (nt_schedule 99 (notification_console ''i'' ''x'')))))"
proof (rule cancel_never_succeeds)
  let ?c = "cn_with_verbose False cn_new" and ?n = "nt_schedule 99 (notification_console ''i'' ''x'')"
  have "\<not> cn_verbose ?c" by (simp add: cn_with_verbose_def)
  from send_silent [OF this, of 0 "''u''" ?n]
  obtain r where "send ?c 0 ''u'' ?n = Some (Ok r, ?c\<lparr>cn_sent := (cn_sent ?c)(nt_id ?n \<mapsto> r)\<rparr>)"
    by blast
  then show "cn_step\<^sup>*\<^sup>* ?c (snd (the (send ?c 0 ''u'' ?n)))"
    using cn_step.intros(1) by (metis option.sel snd_conv r_into_rtranclp)
qed

end
