(* ===== verification/FileApi.thy ===== *)
theory FileApi
  imports GatewayTypes
begin

text \<open>
  \<open>api/file.rs\<close>: storage configuration, file metadata and information, listing and upload
  options, with their constructors and builders.
\<close>

datatype file_storage_type = Local | S3 | Gcs | Azure | Memory

definition file_storage_type_default :: file_storage_type where
  "file_storage_type_default = Local"

record file_storage_config =
  fc_storage_type :: file_storage_type
  fc_base_path :: string
  fc_region :: "string option"
  fc_access_key :: "string option"
  fc_secret_key :: "string option"
  fc_endpoint :: "string option"
  fc_options :: "string \<rightharpoonup> string"

definition file_storage_config_default :: file_storage_config where
  "file_storage_config_default =
     \<lparr>fc_storage_type = Local, fc_base_path = ''.'', fc_region = None, fc_access_key = None,
      fc_secret_key = None, fc_endpoint = None, fc_options = Map.empty\<rparr>"

definition file_storage_config_local :: "string \<Rightarrow> file_storage_config" where
  "file_storage_config_local base_path =
     file_storage_config_default\<lparr>fc_storage_type := Local, fc_base_path := base_path\<rparr>"

definition file_storage_config_s3 :: "string \<Rightarrow> string \<Rightarrow> file_storage_config" where
  "file_storage_config_s3 bucket region =
     file_storage_config_default
       \<lparr>fc_storage_type := S3, fc_base_path := bucket, fc_region := Some region\<rparr>"

definition file_storage_config_memory :: file_storage_config where
  "file_storage_config_memory =
     file_storage_config_default\<lparr>fc_storage_type := Memory, fc_base_path := ''/''\<rparr>"

record file_metadata =
  fm_content_type :: "string option"
  fm_content_encoding :: "string option"
  fm_cache_control :: "string option"
  fm_custom :: "string \<rightharpoonup> string"

definition file_metadata_default :: file_metadata where
  "file_metadata_default =
     \<lparr>fm_content_type = None, fm_content_encoding = None, fm_cache_control = None,
      fm_custom = Map.empty\<rparr>"

definition fm_with_content_type :: "string \<Rightarrow> file_metadata" where
  "fm_with_content_type ct = file_metadata_default\<lparr>fm_content_type := Some ct\<rparr>"

definition fm_with_custom :: "string \<Rightarrow> string \<Rightarrow> file_metadata \<Rightarrow> file_metadata" where
  "fm_with_custom k v m = m\<lparr>fm_custom := (fm_custom m)(k \<mapsto> v)\<rparr>"

record file_info =
  fi_path :: string
  fi_size :: u64
  fi_content_type :: "string option"
  fi_last_modified :: timestamp
  fi_created_at :: "timestamp option"
  fi_etag :: "string option"
  fi_is_directory :: bool
  fi_metadata :: "string \<rightharpoonup> string"

definition file_info_new :: "timestamp \<Rightarrow> string \<Rightarrow> u64 \<Rightarrow> file_info" where
  "file_info_new now path sz =
     \<lparr>fi_path = path, fi_size = sz, fi_content_type = None, fi_last_modified = now,
      fi_created_at = None, fi_etag = None, fi_is_directory = False, fi_metadata = Map.empty\<rparr>"

definition file_info_directory :: "timestamp \<Rightarrow> string \<Rightarrow> file_info" where
  "file_info_directory now path =
     \<lparr>fi_path = path, fi_size = 0, fi_content_type = None, fi_last_modified = now,
      fi_created_at = None, fi_etag = None, fi_is_directory = True, fi_metadata = Map.empty\<rparr>"

record list_options =
  lo_prefix :: "string option"
  lo_delimiter :: "string option"
  lo_max_results :: "usize option"
  lo_continuation_token :: "string option"
  lo_include_metadata :: bool

definition list_options_default :: list_options where
  "list_options_default =
     \<lparr>lo_prefix = None, lo_delimiter = None, lo_max_results = None,
      lo_continuation_token = None, lo_include_metadata = False\<rparr>"

definition lo_with_prefix :: "string \<Rightarrow> list_options" where
  "lo_with_prefix prefix = list_options_default\<lparr>lo_prefix := Some prefix\<rparr>"

definition lo_with_max_results :: "usize \<Rightarrow> list_options \<Rightarrow> list_options" where
  "lo_with_max_results m opts = opts\<lparr>lo_max_results := Some m\<rparr>"

record list_result =
  lr_files :: "file_info list"
  lr_prefixes :: "string list"
  lr_next_continuation_token :: "string option"
  lr_is_truncated :: bool

record upload_options =
  uo_metadata :: file_metadata
  uo_overwrite :: bool
  uo_checksum :: "string option"

definition upload_options_default :: upload_options where
  "upload_options_default =
     \<lparr>uo_metadata = file_metadata_default, uo_overwrite = False, uo_checksum = None\<rparr>"

definition uo_overwriting :: upload_options where
  "uo_overwriting = upload_options_default\<lparr>uo_overwrite := True\<rparr>"

definition uo_with_content_type :: "string \<Rightarrow> upload_options \<Rightarrow> upload_options" where
  "uo_with_content_type ct opts =
     opts\<lparr>uo_metadata := (uo_metadata opts)\<lparr>fm_content_type := Some ct\<rparr>\<rparr>"

record presigned_url =
  pu_url :: string
  pu_expires_at :: timestamp
  pu_method :: string

end
