(* ===== verification/Paths.thy ===== *)
theory Paths
  imports Prelude
begin

text \<open>
  \<open>std::path\<close> on Unix as far as the crate uses it: a \<open>PathBuf\<close> is its bytes; \<open>join\<close>, the
  components a path has (from the front for lookups, from the back for \<open>parent\<close> and
  \<open>file_name\<close>), following the standard library's parser.
\<close>

abbreviation slash :: char where "slash \<equiv> CHR ''/''"

definition is_absolute :: "string \<Rightarrow> bool" where
  "is_absolute p \<longleftrightarrow> p \<noteq> [] \<and> hd p = slash"

text \<open>\<open>Path::join\<close>: an absolute argument replaces the path.\<close>

definition path_join :: "string \<Rightarrow> string \<Rightarrow> string" where
  "path_join base p =
     (if is_absolute p then p
      else if base = [] \<or> last base = slash then base @ p
      else base @ slash # p)"

datatype path_component = RootDir | CurDir | ParentDir | NormalName string

text \<open>A segment between separators; empty segments and \<open>.\<close> inside a path are skipped.\<close>

definition segment_component :: "string \<Rightarrow> path_component option" where
  "segment_component s =
     (if s = '''' \<or> s = ''.'' then None
      else if s = ''..'' then Some ParentDir
      else Some (NormalName s))"

fun segments :: "string \<Rightarrow> string list" where
  "segments [] = [[]]"
| "segments (c # p) =
     (if c = slash then [] # segments p
      else case segments p of [] \<Rightarrow> [[c]] | s # ss \<Rightarrow> (c # s) # ss)"

text \<open>The bytes before the part the parser splits: the root, or a leading \<open>.\<close>.\<close>

definition before_body :: "string \<Rightarrow> nat" where
  "before_body p = (if is_absolute p \<or> p = ''.'' \<or> starts_with p ''./'' then 1 else 0)"

text \<open>\<open>Path::components\<close>.\<close>

definition components :: "string \<Rightarrow> path_component list" where
  "components p =
     (if is_absolute p then [RootDir]
      else if p = ''.'' \<or> starts_with p ''./'' then [CurDir] else []) @
     List.map_filter segment_component (segments (drop (before_body p) p))"

text \<open>The last segment of the body and the path before it, its separator removed.\<close>

definition last_segment :: "string \<Rightarrow> string" where
  "last_segment p = rev (takeWhile (\<lambda>c. c \<noteq> slash) (rev (drop (before_body p) p)))"

definition drop_last_segment :: "string \<Rightarrow> string" where
  "drop_last_segment p =
     take (length p - (length (last_segment p) +
             (if slash \<in> set (drop (before_body p) p) then 1 else 0))) p"

lemma drop_last_segment_shorter:
  assumes "before_body p < length p"
  shows "length (drop_last_segment p) < length p"
proof (cases "slash \<in> set (drop (before_body p) p)")
  case True
  with assms show ?thesis by (auto simp: drop_last_segment_def)
next
  case False
  then have tw: "takeWhile (\<lambda>c. c \<noteq> slash) (rev (drop (before_body p) p)) = rev (drop (before_body p) p)"
    unfolding takeWhile_eq_all_conv set_rev by blast
  have "last_segment p = drop (before_body p) p" unfolding last_segment_def tw by (rule rev_rev_ident)
  with assms show ?thesis by (auto simp: drop_last_segment_def)
qed

text \<open>\<open>Components::next_back\<close>: the last component and what is left of the path.\<close>

function next_back :: "string \<Rightarrow> (path_component \<times> string) option" where
  "next_back p =
     (if before_body p < length p
      then case segment_component (last_segment p) of
             Some c \<Rightarrow> Some (c, drop_last_segment p)
           | None \<Rightarrow> next_back (drop_last_segment p)
      else if is_absolute p then Some (RootDir, [])
      else if before_body p = 1 then Some (CurDir, [])
      else None)"
  by auto
termination by (relation "measure length") (auto intro: drop_last_segment_shorter)

declare next_back.simps [simp del]

text \<open>\<open>as_path\<close> after taking the last component: trailing separators and \<open>.\<close> are removed.\<close>

function trim_right :: "string \<Rightarrow> string" where
  "trim_right p =
     (if before_body p < length p \<and> segment_component (last_segment p) = None
      then trim_right (drop_last_segment p) else p)"
  by auto
termination by (relation "measure length") (auto intro: drop_last_segment_shorter)

declare trim_right.simps [simp del]

definition path_parent :: "string \<Rightarrow> string option" where
  "path_parent p =
     (case next_back p of
        None \<Rightarrow> None
      | Some (RootDir, _) \<Rightarrow> None
      | Some (_, rest) \<Rightarrow> Some (trim_right rest))"

definition path_file_name :: "string \<Rightarrow> string option" where
  "path_file_name p =
     (case next_back p of Some (NormalName s, _) \<Rightarrow> Some s | _ \<Rightarrow> None)"

lemma length_trim_right: "length (trim_right p) \<le> length p"
proof (induction p rule: trim_right.induct)
  case (1 p)
  then show ?case
    using drop_last_segment_shorter [of p] by (subst trim_right.simps) auto
qed

lemma next_back_shorter: "next_back p = Some (c, r) \<Longrightarrow> length r < length p"
proof (induction p rule: next_back.induct)
  case (1 p)
  show ?case
  proof (cases "before_body p < length p")
    case True
    with "1.prems" have "r = drop_last_segment p \<or>
        segment_component (last_segment p) = None \<and> next_back (drop_last_segment p) = Some (c, r)"
      by (subst (asm) next_back.simps) (auto split: option.splits)
    with 1 True drop_last_segment_shorter [of p] show ?thesis by auto
  next
    case False
    with "1.prems" have "r = []" "before_body p = 1 \<or> is_absolute p"
      by (subst (asm) next_back.simps, auto split: if_splits)+
    then show ?thesis by (cases p) (auto simp: before_body_def is_absolute_def starts_with_def)
  qed
qed

lemma path_parent_shorter: "path_parent p = Some q \<Longrightarrow> length q < length p"
  unfolding path_parent_def
  by (auto split: option.splits path_component.splits dest!: next_back_shorter
      intro: le_less_trans [OF length_trim_right])

end
