(* ===== verification/FileSystem.thy ===== *)
theory FileSystem
  imports Paths GatewayTypes
begin

text \<open>
  The file operations of the standard library (\<open>std::fs\<close>, which \<open>tokio::fs\<close> wraps) on a
  tree of files and directories: what a process sees of a Unix file system without symbolic
  links, permissions, quotas or limits on name lengths. Lookups follow the components of a path
  one by one, so \<open>..\<close> leaves a directory. Which of several possible error codes the kernel reports
  for a path that ends in a separator or in \<open>..\<close> is simplified.
\<close>

section \<open>The tree\<close>

datatype node = FileNode string | DirNode

type_synonym location = "string list"
type_synonym file_tree = "location \<rightharpoonup> node"

text \<open>Every location but the root is stored; the root always exists.\<close>

record file_system =
  fs_tree :: file_tree
  fs_cwd :: location

definition node_at :: "file_tree \<Rightarrow> location \<Rightarrow> node option" where
  "node_at t loc = (if loc = [] then Some DirNode else t loc)"

definition is_dir_at :: "file_tree \<Rightarrow> location \<Rightarrow> bool" where
  "is_dir_at t loc \<longleftrightarrow> node_at t loc = Some DirNode"

definition children :: "file_tree \<Rightarrow> location \<Rightarrow> string set" where
  "children t loc = {name. t (loc @ [name]) \<noteq> None}"

section \<open>Errors\<close>

definition enoent :: io_error where
  "enoent = \<lparr>io_kind = IoNotFound, io_text = ''No such file or directory (os error 2)''\<rparr>"

definition enotdir :: io_error where
  "enotdir = \<lparr>io_kind = IoOther, io_text = ''Not a directory (os error 20)''\<rparr>"

definition eisdir :: io_error where
  "eisdir = \<lparr>io_kind = IoOther, io_text = ''Is a directory (os error 21)''\<rparr>"

definition eexist :: io_error where
  "eexist = \<lparr>io_kind = IoAlreadyExists, io_text = ''File exists (os error 17)''\<rparr>"

definition enotempty :: io_error where
  "enotempty = \<lparr>io_kind = IoOther, io_text = ''Directory not empty (os error 39)''\<rparr>"

definition ebusy :: io_error where
  "ebusy = \<lparr>io_kind = IoOther, io_text = ''Device or resource busy (os error 16)''\<rparr>"

definition einval :: io_error where
  "einval = \<lparr>io_kind = IoOther, io_text = ''Invalid argument (os error 22)''\<rparr>"

definition nul_error :: io_error where
  "nul_error =
     \<lparr>io_kind = IoOther, io_text = ''file name contained an unexpected NUL byte''\<rparr>"

lemmas io_errors = enoent_def enotdir_def eisdir_def eexist_def enotempty_def ebusy_def einval_def nul_error_def

type_synonym 'a io_result = "('a, io_error) result"

section \<open>Lookup\<close>

text \<open>
  The segments the kernel follows: unlike \<open>Path::components\<close> it keeps \<open>.\<close>, and a trailing
  separator asks for a directory.
\<close>

definition kernel_segment :: "string \<Rightarrow> path_component list" where
  "kernel_segment s =
     (if s = '''' then []
      else if s = ''.'' then [CurDir]
      else if s = ''..'' then [ParentDir]
      else [NormalName s])"

definition kernel_path :: "string \<Rightarrow> path_component list" where
  "kernel_path p =
     (if is_absolute p then [RootDir] else []) @
     concat (map kernel_segment (segments p)) @
     (if p \<noteq> [] \<and> last p = slash then [CurDir] else [])"

definition need_dir :: "file_tree \<Rightarrow> location \<Rightarrow> (location, io_error) result" where
  "need_dir t d =
     (case node_at t d of
        Some DirNode \<Rightarrow> Ok d
      | Some (FileNode _) \<Rightarrow> Err enotdir
      | None \<Rightarrow> Err enoent)"

text \<open>The location a path names; its last component need not exist.\<close>

fun walk :: "file_tree \<Rightarrow> location \<Rightarrow> path_component list \<Rightarrow> location io_result" where
  "walk t d [] = Ok d"
| "walk t d (RootDir # cs) = walk t [] cs"
| "walk t d (CurDir # cs) = and_then (need_dir t d) (\<lambda>d. walk t d cs)"
| "walk t d (ParentDir # cs) = and_then (need_dir t d) (\<lambda>d. walk t (butlast d) cs)"
| "walk t d (NormalName s # cs) = and_then (need_dir t d) (\<lambda>d. walk t (d @ [s]) cs)"

definition resolve :: "file_system \<Rightarrow> string \<Rightarrow> location io_result" where
  "resolve fs p =
     (if CHR 0x00 \<in> set p then Err nul_error
      else if p = [] then Err enoent
      else walk (fs_tree fs) (fs_cwd fs) (kernel_path p))"

text \<open>The node a path names.\<close>

definition find_node :: "file_system \<Rightarrow> string \<Rightarrow> (location \<times> node) io_result" where
  "find_node fs p =
     and_then (resolve fs p)
       (\<lambda>loc. case node_at (fs_tree fs) loc of None \<Rightarrow> Err enoent | Some n \<Rightarrow> Ok (loc, n))"

section \<open>Operations\<close>

text \<open>\<open>File::open\<close> and \<open>read_to_end\<close>; reading a directory fails at the first read.\<close>

definition read_all :: "file_system \<Rightarrow> string \<Rightarrow> string io_result" where
  "read_all fs p =
     and_then (find_node fs p)
       (\<lambda>(loc, n). case n of FileNode contents \<Rightarrow> Ok contents | DirNode \<Rightarrow> Err eisdir)"

definition try_exists :: "file_system \<Rightarrow> string \<Rightarrow> bool io_result" where
  "try_exists fs p =
     (case find_node fs p of
        Ok _ \<Rightarrow> Ok True
      | Err e \<Rightarrow> if io_kind e = IoNotFound then Ok False else Err e)"

definition is_dir :: "file_system \<Rightarrow> string \<Rightarrow> bool" where
  "is_dir fs p = (case find_node fs p of Ok (loc, DirNode) \<Rightarrow> True | _ \<Rightarrow> False)"

text \<open>\<open>File::create\<close>, \<open>write_all\<close> and \<open>flush\<close>.\<close>

definition write_all :: "file_system \<Rightarrow> string \<Rightarrow> string \<Rightarrow> unit io_result \<times> file_system" where
  "write_all fs p contents =
     (case resolve fs p of
        Err e \<Rightarrow> (Err e, fs)
      | Ok loc \<Rightarrow>
          if node_at (fs_tree fs) loc = Some DirNode then (Err eisdir, fs)
          else (Ok (), fs\<lparr>fs_tree := (fs_tree fs)(loc \<mapsto> FileNode contents)\<rparr>))"

text \<open>\<open>mkdir\<close> accepts trailing separators.\<close>

definition mkdir :: "file_system \<Rightarrow> string \<Rightarrow> unit io_result \<times> file_system" where
  "mkdir fs p =
     (let q = (if p \<noteq> [] \<and> trim_end_matches slash p = [] then ''/'' else trim_end_matches slash p)
      in case resolve fs q of
           Err e \<Rightarrow> (Err e, fs)
         | Ok loc \<Rightarrow>
             if node_at (fs_tree fs) loc \<noteq> None then (Err eexist, fs)
             else (Ok (), fs\<lparr>fs_tree := (fs_tree fs)(loc \<mapsto> DirNode)\<rparr>))"

text \<open>\<open>DirBuilder::create_dir_all\<close>, as the standard library writes it.\<close>

definition mkdir_or_dir :: "file_system \<Rightarrow> string \<Rightarrow> unit io_result \<times> file_system" where
  "mkdir_or_dir fs p =
     (case mkdir fs p of
        (Ok _, fs') \<Rightarrow> (Ok (), fs')
      | (Err e, fs') \<Rightarrow> if is_dir fs' p then (Ok (), fs') else (Err e, fs'))"

definition tree_error :: io_error where
  "tree_error = \<lparr>io_kind = IoOther, io_text = ''failed to create whole tree''\<rparr>"

function create_dir_all :: "file_system \<Rightarrow> string \<Rightarrow> unit io_result \<times> file_system" where
  "create_dir_all fs p =
     (if p = [] then (Ok (), fs)
      else case mkdir fs p of
        (Ok _, fs') \<Rightarrow> (Ok (), fs')
      | (Err e, fs') \<Rightarrow>
          if io_kind e \<noteq> IoNotFound
          then (if is_dir fs' p then (Ok (), fs') else (Err e, fs'))
          else (case path_parent p of
                  None \<Rightarrow> (Err tree_error, fs')
                | Some q \<Rightarrow>
                    (case create_dir_all fs' q of
                       (Err e', fs'') \<Rightarrow> (Err e', fs'')
                     | (Ok _, fs'') \<Rightarrow> mkdir_or_dir fs'' p)))"
  by auto
termination by (relation "measure (\<lambda>(fs, p). length p)") (auto dest: path_parent_shorter)

declare create_dir_all.simps [simp del]

definition remove_file :: "file_system \<Rightarrow> string \<Rightarrow> unit io_result \<times> file_system" where
  "remove_file fs p =
     (case find_node fs p of
        Err e \<Rightarrow> (Err e, fs)
      | Ok (loc, DirNode) \<Rightarrow> (Err eisdir, fs)
      | Ok (loc, FileNode _) \<Rightarrow> (Ok (), fs\<lparr>fs_tree := (fs_tree fs)(loc := None)\<rparr>))"

definition remove_dir :: "file_system \<Rightarrow> string \<Rightarrow> unit io_result \<times> file_system" where
  "remove_dir fs p =
     (case find_node fs p of
        Err e \<Rightarrow> (Err e, fs)
      | Ok (loc, FileNode _) \<Rightarrow> (Err enotdir, fs)
      | Ok (loc, DirNode) \<Rightarrow>
          if loc = [] \<or> children (fs_tree fs) loc \<noteq> {} then (Err enotempty, fs)
          else (Ok (), fs\<lparr>fs_tree := (fs_tree fs)(loc := None)\<rparr>))"

definition below :: "location \<Rightarrow> location \<Rightarrow> bool" where
  "below base loc \<longleftrightarrow> take (length base) loc = base"

definition remove_dir_all :: "file_system \<Rightarrow> string \<Rightarrow> unit io_result \<times> file_system" where
  "remove_dir_all fs p =
     (case find_node fs p of
        Err e \<Rightarrow> (Err e, fs)
      | Ok (loc, FileNode _) \<Rightarrow> (Err enotdir, fs)
      | Ok (loc, DirNode) \<Rightarrow>
          (if loc = [] then Err ebusy else Ok (),
           fs\<lparr>fs_tree := (\<lambda>l. if below loc l then None else fs_tree fs l)\<rparr>))"

text \<open>
  \<open>fs::copy\<close> opens the source, then truncates the destination, then copies: a file copied onto
  itself ends up empty. The result is the number of bytes copied.
\<close>

definition copy_file :: "file_system \<Rightarrow> string \<Rightarrow> string \<Rightarrow> nat io_result \<times> file_system" where
  "copy_file fs src dst =
     (case find_node fs src of
        Err e \<Rightarrow> (Err e, fs)
      | Ok (loc, DirNode) \<Rightarrow> (Err einval, fs)
      | Ok (loc, FileNode contents) \<Rightarrow>
          (let copied = (if resolve fs dst = Ok loc then '''' else contents)
           in case write_all fs dst copied of
                (Err e, fs') \<Rightarrow> (Err e, fs')
              | (Ok _, fs') \<Rightarrow> (Ok (length copied), fs')))"

text \<open>
  \<open>rename(2)\<close>: everything below the source moves; an existing destination is replaced when it
  is of the same kind (a directory must be empty).
\<close>

definition moved :: "location \<Rightarrow> location \<Rightarrow> file_tree \<Rightarrow> file_tree" where
  "moved src dst t =
     (\<lambda>l. if below dst l then t (src @ drop (length dst) l)
          else if below src l then None else t l)"

definition rename_path :: "file_system \<Rightarrow> string \<Rightarrow> string \<Rightarrow> unit io_result \<times> file_system" where
  "rename_path fs src dst =
     (case find_node fs src of
        Err e \<Rightarrow> (Err e, fs)
      | Ok (a, n) \<Rightarrow>
          (case resolve fs dst of
             Err e \<Rightarrow> (Err e, fs)
           | Ok b \<Rightarrow>
               if a = b then (Ok (), fs)
               else if a = [] \<or> b = [] \<or> below a b then (Err einval, fs)
               else case (n, node_at (fs_tree fs) b) of
                 (FileNode _, Some DirNode) \<Rightarrow> (Err eisdir, fs)
               | (DirNode, Some (FileNode _)) \<Rightarrow> (Err enotdir, fs)
               | (DirNode, Some DirNode) \<Rightarrow>
                   if children (fs_tree fs) b \<noteq> {} then (Err enotempty, fs)
                   else (Ok (), fs\<lparr>fs_tree := moved a b (fs_tree fs)\<rparr>)
               | _ \<Rightarrow> (Ok (), fs\<lparr>fs_tree := moved a b (fs_tree fs)\<rparr>)))"

section \<open>Lookups\<close>

lemma need_dir_Ok_iff [simp]: "need_dir t d = Ok e \<longleftrightarrow> is_dir_at t d \<and> e = d"
  by (auto simp: need_dir_def is_dir_at_def split: option.splits node.splits)

lemma walk_append: "walk t d (cs @ ds) = and_then (walk t d cs) (\<lambda>e. walk t e ds)"
  by (induction t d cs rule: walk.induct) (auto simp: need_dir_def split: option.split node.split)

text \<open>A lookup that succeeds still does, with the same result, when every directory is kept.\<close>

lemma walk_keeps:
  assumes "walk t d cs = Ok loc" and "\<And>l. is_dir_at t l \<Longrightarrow> is_dir_at t' l"
  shows "walk t' d cs = Ok loc"
  using assms(1)
proof (induction cs arbitrary: d)
  case (Cons c cs)
  then show ?case by (cases c) (auto simp: result_simps intro: assms(2))
qed simp

text \<open>The location depends on the path alone; only whether it is reached depends on the tree.\<close>

fun lexical :: "location \<Rightarrow> path_component list \<Rightarrow> location" where
  "lexical d [] = d"
| "lexical d (RootDir # cs) = lexical [] cs"
| "lexical d (CurDir # cs) = lexical d cs"
| "lexical d (ParentDir # cs) = lexical (butlast d) cs"
| "lexical d (NormalName s # cs) = lexical (d @ [s]) cs"

lemma walk_lexical: "walk t d cs = Ok loc \<Longrightarrow> loc = lexical d cs"
proof (induction cs arbitrary: d)
  case (Cons c cs)
  then show ?case by (cases c) (auto simp: result_simps)
qed simp

lemma lexical_append: "lexical d (cs @ ds) = lexical (lexical d cs) ds"
  by (induction d cs rule: lexical.induct) auto

definition goes_down :: "path_component \<Rightarrow> bool" where
  "goes_down c \<longleftrightarrow> c = CurDir \<or> (\<exists>s. c = NormalName s)"

lemma below_refl [simp]: "below b b"
  by (simp add: below_def)

lemma below_iff: "below b d \<longleftrightarrow> (\<exists>e. d = b @ e)"
  unfolding below_def by (metis append_eq_conv_conj)

lemma below_snoc: "below b d \<Longrightarrow> below b (d @ [s])"
  by (auto simp: below_iff)

lemma lexical_below: "\<forall>c \<in> set cs. goes_down c \<Longrightarrow> below b d \<Longrightarrow> below b (lexical d cs)"
  by (induction d cs rule: lexical.induct) (auto simp: goes_down_def below_snoc)

text \<open>Paths below a directory.\<close>

lemma segments_not_Nil [simp]: "segments p \<noteq> []"
  by (cases p) (auto split: list.split)

lemma segments_join: "segments (a @ slash # p) = segments a @ segments p"
  by (induction a) (auto split: list.splits)

lemma lexical_tail [simp]: "lexical d (cs @ (if P then [CurDir] else [])) = lexical d cs"
  by (simp add: lexical_append)

lemma lexical_kernel_path:
  "lexical d (kernel_path p) =
     lexical (if is_absolute p then [] else d) (concat (map kernel_segment (segments p)))"
  by (simp add: kernel_path_def flip: append_assoc)

lemma lexical_join:
  assumes "base \<noteq> []" "\<not> is_absolute p"
  shows "lexical d (kernel_path (path_join base p)) =
    lexical (lexical d (kernel_path base)) (concat (map kernel_segment (segments p)))"
proof (cases "last base = slash")
  case True
  then obtain q where q: "base = q @ [slash]" using assms(1) by (metis append_butlast_last_id)
  then have "path_join base p = q @ slash # p" using assms by (simp add: path_join_def)
  moreover have "is_absolute (q @ slash # p) \<longleftrightarrow> is_absolute base"
    by (simp add: q is_absolute_def hd_append)
  ultimately show ?thesis
    unfolding lexical_kernel_path by (simp add: q segments_join kernel_segment_def lexical_append)
next
  case False
  then have "path_join base p = base @ slash # p" using assms by (simp add: path_join_def)
  moreover have "is_absolute (base @ slash # p) \<longleftrightarrow> is_absolute base"
    using assms(1) by (simp add: is_absolute_def hd_append)
  ultimately show ?thesis
    unfolding lexical_kernel_path by (simp add: segments_join lexical_append)
qed

text \<open>A path without \<open>..\<close> stays below the directory it is joined to.\<close>

definition no_dotdot :: "string \<Rightarrow> bool" where
  "no_dotdot p \<longleftrightarrow> ''..'' \<notin> set (segments p)"

lemma join_below:
  assumes "base \<noteq> []" "\<not> is_absolute p" "no_dotdot p"
  shows "below (lexical d (kernel_path base)) (lexical d (kernel_path (path_join base p)))"
proof -
  have "goes_down c" if "c \<in> set (concat (map kernel_segment (segments p)))" for c
    using that assms(3) by (auto simp: kernel_segment_def no_dotdot_def goes_down_def split: if_splits)
  then show ?thesis unfolding lexical_join [OF assms(1,2)] by (rule lexical_below [OF ballI]) simp_all
qed

section \<open>What the operations touch\<close>

definition loc_of :: "file_system \<Rightarrow> string \<Rightarrow> location" where
  "loc_of fs p = lexical (fs_cwd fs) (kernel_path p)"

lemma resolve_loc: "resolve fs p = Ok loc \<Longrightarrow> loc = loc_of fs p"
  by (auto simp: resolve_def loc_of_def dest: walk_lexical split: if_splits)

lemma find_node_loc:
  "find_node fs p = Ok (loc, n) \<longleftrightarrow> resolve fs p = Ok loc \<and> node_at (fs_tree fs) loc = Some n"
  by (auto simp: find_node_def result_simps split: option.splits)

lemma find_node_loc_of: "find_node fs p = Ok (loc, n) \<Longrightarrow> loc = loc_of fs p"
  by (simp add: find_node_loc resolve_loc)

text \<open>
  \<open>changes_below b fs fs'\<close>: outside the directory \<open>b\<close> every file and directory is as before; new
  directories may have appeared.
\<close>

definition changes_below :: "location \<Rightarrow> file_system \<Rightarrow> file_system \<Rightarrow> bool" where
  "changes_below b fs fs' \<longleftrightarrow>
     fs_cwd fs' = fs_cwd fs \<and>
     (\<forall>l. fs_tree fs' l = fs_tree fs l \<or> below b l \<or>
          (fs_tree fs l = None \<and> fs_tree fs' l = Some DirNode))"

definition adds_dirs :: "file_system \<Rightarrow> file_system \<Rightarrow> bool" where
  "adds_dirs fs fs' \<longleftrightarrow>
     fs_cwd fs' = fs_cwd fs \<and>
     (\<forall>l. fs_tree fs' l = fs_tree fs l \<or> (fs_tree fs l = None \<and> fs_tree fs' l = Some DirNode))"

lemma changes_below_refl [simp]: "changes_below b fs fs"
  by (simp add: changes_below_def)

lemma adds_dirs_refl [simp]: "adds_dirs fs fs"
  by (simp add: adds_dirs_def)

lemma changes_below_trans:
  assumes "changes_below b fs1 fs2" "changes_below b fs2 fs3"
  shows "changes_below b fs1 fs3"
  using assms unfolding changes_below_def by metis

lemma adds_dirs_trans: "adds_dirs fs1 fs2 \<Longrightarrow> adds_dirs fs2 fs3 \<Longrightarrow> adds_dirs fs1 fs3"
  unfolding adds_dirs_def by metis

lemma adds_dirs_changes: "adds_dirs fs fs' \<Longrightarrow> changes_below b fs fs'"
  by (auto simp: adds_dirs_def changes_below_def)

lemma adds_dirs_is_dir: "adds_dirs fs fs' \<Longrightarrow> is_dir_at (fs_tree fs) l \<Longrightarrow> is_dir_at (fs_tree fs') l"
  by (auto simp: adds_dirs_def is_dir_at_def node_at_def split: if_splits) (metis option.distinct(1))

lemma keeps_resolve:
  assumes "\<And>l. is_dir_at (fs_tree fs) l \<Longrightarrow> is_dir_at (fs_tree fs') l" "fs_cwd fs' = fs_cwd fs"
    and "resolve fs p = Ok loc"
  shows "resolve fs' p = Ok loc"
  using assms(3) walk_keeps [OF _ assms(1), where d = "fs_cwd fs" and cs = "kernel_path p" and loc = loc]
    assms(2)
  by (simp add: resolve_def split: if_splits)

lemma adds_dirs_resolve:
  assumes "adds_dirs fs fs'" "resolve fs p = Ok loc"
  shows "resolve fs' p = Ok loc"
  by (rule keeps_resolve [OF _ _ assms(2)])
    (use assms(1) in \<open>auto simp: adds_dirs_def dest: adds_dirs_is_dir [OF assms(1)]\<close>)

lemma upd_changes:
  "below b loc \<Longrightarrow> changes_below b fs (fs\<lparr>fs_tree := (fs_tree fs)(loc := x)\<rparr>)"
  by (auto simp: changes_below_def)

lemma mkdir_adds: "mkdir fs p = (r, fs') \<Longrightarrow> adds_dirs fs fs'"
  by (auto simp: mkdir_def adds_dirs_def Let_def node_at_def split: result.splits if_splits)

lemma mkdir_or_dir_adds: "mkdir_or_dir fs p = (r, fs') \<Longrightarrow> adds_dirs fs fs'"
  by (auto simp: mkdir_or_dir_def split: prod.splits result.splits if_splits dest!: mkdir_adds)

lemma create_dir_all_adds: "create_dir_all fs p = (r, fs') \<Longrightarrow> adds_dirs fs fs'"
proof (induction fs p arbitrary: r fs' rule: create_dir_all.induct)
  case (1 fs p)
  show ?case
  proof (cases "p = []")
    case True
    with "1.prems" show ?thesis by (subst (asm) create_dir_all.simps) simp
  next
    case False
    obtain m fs1 where m: "mkdir fs p = (m, fs1)" by force
    then have add: "adds_dirs fs fs1" by (rule mkdir_adds)
    consider "fs' = fs1"
      | e q fs2 where "m = Err e" "io_kind e = IoNotFound" "path_parent p = Some q"
        "fs' = fs2" "\<exists>r. create_dir_all fs1 q = (r, fs2)"
      | e q u fs2 where "m = Err e" "io_kind e = IoNotFound" "path_parent p = Some q"
        "create_dir_all fs1 q = (Ok u, fs2)" "mkdir_or_dir fs2 p = (r, fs')"
      using "1.prems" False m
      by (subst (asm) create_dir_all.simps)
        (auto split: result.splits if_splits option.splits prod.splits)
    then show ?thesis
    proof cases
      case 1
      with add show ?thesis by simp
    next
      case (2 e q fs2)
      then show ?thesis
        using "1.IH" [OF False m [symmetric]] add adds_dirs_trans by fastforce
    next
      case (3 e q u fs2)
      then have "adds_dirs fs1 fs2" using "1.IH" [OF False m [symmetric]] by fastforce
      with add mkdir_or_dir_adds [OF 3(5)] show ?thesis using adds_dirs_trans by blast
    qed
  qed
qed

lemma write_all_cases:
  assumes "write_all fs p contents = (r, fs')"
  obtains e where "r = Err e" "fs' = fs"
  | loc where "r = Ok ()" "resolve fs p = Ok loc" "\<not> is_dir_at (fs_tree fs) loc"
      "fs' = fs\<lparr>fs_tree := (fs_tree fs)(loc \<mapsto> FileNode contents)\<rparr>"
proof -
  have "(\<exists>e. r = Err e) \<and> fs' = fs \<or>
      r = Ok () \<and> (\<exists>loc. resolve fs p = Ok loc \<and> \<not> is_dir_at (fs_tree fs) loc \<and>
        fs' = fs\<lparr>fs_tree := (fs_tree fs)(loc \<mapsto> FileNode contents)\<rparr>)"
    using assms unfolding write_all_def is_dir_at_def by (auto split: result.splits if_splits)
  then show thesis using that by blast
qed

lemma write_all_changes:
  assumes "write_all fs p contents = (r, fs')" "below b (loc_of fs p)"
  shows "changes_below b fs fs'"
  using assms(1)
proof (cases rule: write_all_cases)
  case (2 loc)
  then have "loc = loc_of fs p" by (intro resolve_loc)
  with 2 assms(2) show ?thesis by (simp add: upd_changes)
qed simp

lemma remove_file_cases:
  assumes "remove_file fs p = (r, fs')"
  obtains e where "r = Err e" "fs' = fs"
  | loc contents where "r = Ok ()" "find_node fs p = Ok (loc, FileNode contents)"
      "fs' = fs\<lparr>fs_tree := (fs_tree fs)(loc := None)\<rparr>"
proof -
  have "(\<exists>e. r = Err e) \<and> fs' = fs \<or>
      r = Ok () \<and> (\<exists>loc contents. find_node fs p = Ok (loc, FileNode contents) \<and>
        fs' = fs\<lparr>fs_tree := (fs_tree fs)(loc := None)\<rparr>)"
    using assms unfolding remove_file_def by (auto split: result.splits node.splits prod.splits)
  then show thesis using that by blast
qed

lemma remove_file_changes:
  assumes "remove_file fs p = (r, fs')" "below b (loc_of fs p)"
  shows "changes_below b fs fs'"
  using assms(1)
proof (cases rule: remove_file_cases)
  case (2 loc contents)
  then have "loc = loc_of fs p" by (intro find_node_loc_of)
  with 2 assms(2) show ?thesis by (simp add: upd_changes)
qed simp

lemma below_trans: "below a b \<Longrightarrow> below b c \<Longrightarrow> below a c"
  by (auto simp: below_iff)

lemma remove_dir_changes:
  assumes "remove_dir fs p = (r, fs')" "below b (loc_of fs p)"
  shows "changes_below b fs fs'"
proof -
  have "fs' = fs \<or> (\<exists>loc n. find_node fs p = Ok (loc, n) \<and>
      fs' = fs\<lparr>fs_tree := (fs_tree fs)(loc := None)\<rparr>)"
    using assms(1) by (auto simp: remove_dir_def split: result.splits node.splits prod.splits if_splits)
  then show ?thesis using assms(2) find_node_loc_of upd_changes changes_below_refl by metis
qed

lemma remove_dir_all_changes:
  assumes "remove_dir_all fs p = (r, fs')" "below b (loc_of fs p)"
  shows "changes_below b fs fs'"
proof -
  have "fs' = fs \<or> (\<exists>loc n. find_node fs p = Ok (loc, n) \<and>
      fs' = fs\<lparr>fs_tree := (\<lambda>l. if below loc l then None else fs_tree fs l)\<rparr>)"
    using assms(1)
    by (auto simp: remove_dir_all_def split: result.splits node.splits prod.splits if_splits)
  moreover have "changes_below b fs (fs\<lparr>fs_tree := (\<lambda>l. if below loc l then None else fs_tree fs l)\<rparr>)"
    if "below b loc" for loc
    using that by (auto simp: changes_below_def intro: below_trans)
  ultimately show ?thesis using assms(2) find_node_loc_of changes_below_refl by metis
qed

lemma copy_file_changes:
  "copy_file fs p q = (r, fs') \<Longrightarrow> below b (loc_of fs q) \<Longrightarrow> changes_below b fs fs'"
  by (auto simp: copy_file_def Let_def
      split: result.splits node.splits prod.splits if_splits dest: write_all_changes)

lemma moved_changes:
  "below b src \<Longrightarrow> below b dst \<Longrightarrow> changes_below b fs (fs\<lparr>fs_tree := moved src dst (fs_tree fs)\<rparr>)"
  by (auto simp: changes_below_def moved_def intro: below_trans)

lemma rename_path_changes:
  assumes "rename_path fs p q = (r, fs')" "below b (loc_of fs p)" "below b (loc_of fs q)"
  shows "changes_below b fs fs'"
proof -
  have "fs' = fs \<or> (\<exists>src dst n. find_node fs p = Ok (src, n) \<and> resolve fs q = Ok dst \<and>
      fs' = fs\<lparr>fs_tree := moved src dst (fs_tree fs)\<rparr>)"
    using assms(1)
    by (auto simp: rename_path_def split: result.splits prod.splits if_splits node.splits option.splits)
  then show ?thesis
    using assms(2,3) find_node_loc_of resolve_loc moved_changes changes_below_refl by metis
qed

lemma moved_same [simp]: "moved a a t = t"
  by (rule ext) (auto simp: moved_def below_iff)

lemma rename_path_moves:
  assumes "rename_path fs p q = (Ok u, fs')"
  shows "fs' = fs\<lparr>fs_tree := moved (loc_of fs p) (loc_of fs q) (fs_tree fs)\<rparr>"
proof -
  obtain n where "find_node fs p = Ok (loc_of fs p, n)" "resolve fs q = Ok (loc_of fs q)"
    using assms find_node_loc_of [of fs p] resolve_loc [of fs q]
    by (auto simp: rename_path_def split: result.splits prod.splits)
  with assms show ?thesis
    by (auto simp: rename_path_def split: if_splits node.splits option.splits)
qed

lemma is_dir_at_upd:
  "\<not> is_dir_at t loc \<Longrightarrow> is_dir_at t l \<Longrightarrow> is_dir_at (t(loc := x)) l"
  by (auto simp: is_dir_at_def node_at_def split: if_splits)

lemma write_all_find:
  assumes "write_all fs p contents = (Ok u, fs')"
  shows "\<exists>loc. find_node fs' p = Ok (loc, FileNode contents)"
  using assms
proof (cases rule: write_all_cases)
  case (2 loc)
  then have "resolve fs' p = Ok loc"
    by (intro keeps_resolve [of fs fs' p loc]) (simp_all add: is_dir_at_upd)
  moreover have "loc \<noteq> []" using 2 by (auto simp: is_dir_at_def node_at_def)
  ultimately show ?thesis using 2 by (intro exI [of _ loc]) (simp add: find_node_loc node_at_def)
qed simp

lemma remove_file_gone:
  assumes "remove_file fs p = (Ok u, fs')"
  shows "find_node fs' p = Err enoent"
  using assms
proof (cases rule: remove_file_cases)
  case (2 loc contents)
  then have found: "resolve fs p = Ok loc" "node_at (fs_tree fs) loc = Some (FileNode contents)"
    by (simp_all add: find_node_loc)
  then have "\<not> is_dir_at (fs_tree fs) loc" "loc \<noteq> []" by (auto simp: is_dir_at_def node_at_def)
  moreover from this have "resolve fs' p = Ok loc"
    using 2 found by (intro keeps_resolve [of fs fs' p loc]) (simp_all add: is_dir_at_upd)
  ultimately show ?thesis using 2 by (simp add: find_node_def node_at_def)
qed simp

end
