(* ===== verification/LocalFile.thy ===== *)
theory LocalFile
  imports FileApi FileSystem
begin

text \<open>
  \<open>core/file/local.rs\<close>: the file gateway over a directory of the local file system. Every
  operation is a function of the file system; \<open>tokio::fs\<close> runs the standard library's
  operations. Times of files, MIME guesses and the order of directory listings are arguments.
\<close>

record local_file_gateway =
  lg_base_path :: string

definition lg_new :: "string \<Rightarrow> local_file_gateway" where
  "lg_new base_path = \<lparr>lg_base_path = base_path\<rparr>"

text \<open>\<open>current_dir\<close> asks the system for the working directory, which may fail.\<close>

definition lg_current_dir :: "string io_result \<Rightarrow> local_file_gateway io_result" where
  "lg_current_dir cwd = map_ok (\<lambda>d. \<lparr>lg_base_path = d\<rparr>) cwd"

definition resolve_path :: "local_file_gateway \<Rightarrow> string \<Rightarrow> string" where
  "resolve_path g path = path_join (lg_base_path g) (trim_start_matches slash path)"

text \<open>What the system tells about a file besides its size and kind; errors are \<open>None\<close>.\<close>

record file_times =
  ft_modified :: "timestamp option"
  ft_created :: "timestamp option"

record file_env =
  fe_times :: "location \<Rightarrow> file_times"
  fe_mime :: "string \<Rightarrow> string option"
  fe_now :: timestamp

fun node_size :: "node \<Rightarrow> nat" where
  "node_size (FileNode contents) = length contents"
| "node_size DirNode = 0"

definition metadata_to_info :: "file_env \<Rightarrow> string \<Rightarrow> location \<times> node \<Rightarrow> file_info" where
  "metadata_to_info env path = (\<lambda>(loc, n).
     \<lparr>fi_path = path, fi_size = of_nat (node_size n), fi_content_type = fe_mime env path,
      fi_last_modified = (case ft_modified (fe_times env loc) of Some t \<Rightarrow> t | None \<Rightarrow> fe_now env),
      fi_created_at = ft_created (fe_times env loc), fi_etag = None,
      fi_is_directory = (n = DirNode), fi_metadata = Map.empty\<rparr>)"

section \<open>Reading\<close>

text \<open>The mapping of I/O errors where the code singles out missing files.\<close>

definition file_error :: "string \<Rightarrow> string \<Rightarrow> io_error \<Rightarrow> gateway_error" where
  "file_error what path e =
     (if io_kind e = IoNotFound then gateway_error.NotFound (what @ path) else IoError e)"

definition lg_read :: "local_file_gateway \<Rightarrow> file_system \<Rightarrow> string \<Rightarrow> string gateway_result" where
  "lg_read g fs path =
     (case find_node fs (resolve_path g path) of
        Err e \<Rightarrow> Err (file_error ''File not found: '' path e)
      | Ok _ \<Rightarrow> map_err IoError (read_all fs (resolve_path g path)))"

definition lg_metadata ::
  "local_file_gateway \<Rightarrow> file_env \<Rightarrow> file_system \<Rightarrow> string \<Rightarrow> file_info gateway_result" where
  "lg_metadata g env fs path =
     (case find_node fs (resolve_path g path) of
        Err e \<Rightarrow> Err (file_error ''File not found: '' path e)
      | Ok md \<Rightarrow> Ok (metadata_to_info env path md))"

text \<open>
  The listing loop over the entries, in the order the system returns them: the lists of files and
  prefixes so far, and the early exit once enough files were found. Entries are named relative to
  the base.
\<close>

fun list_loop ::
  "file_env \<Rightarrow> list_options \<Rightarrow> (string \<times> location \<times> node) list \<Rightarrow>
   file_info list \<Rightarrow> string list \<Rightarrow> file_info list \<times> string list" where
  "list_loop env opts [] files prefixes = (files, prefixes)"
| "list_loop env opts ((rel, md) # entries) files prefixes =
     (let (files, prefixes) =
            (if snd md = DirNode \<and> lo_delimiter opts \<noteq> None
             then (files, prefixes @ [rel])
             else (files @ [metadata_to_info env rel md], prefixes))
      in case lo_max_results opts of
           Some m \<Rightarrow> if unat m \<le> length files then (files, prefixes)
                     else list_loop env opts entries files prefixes
         | None \<Rightarrow> list_loop env opts entries files prefixes)"

definition search_path :: "local_file_gateway \<Rightarrow> list_options \<Rightarrow> string" where
  "search_path g opts =
     (case lo_prefix opts of
        Some prefix \<Rightarrow> path_join (lg_base_path g) (trim_start_matches slash prefix)
      | None \<Rightarrow> lg_base_path g)"

text \<open>
  The path of an entry relative to the base (\<open>strip_prefix\<close>): the prefix as given, without
  leading \<open>./\<close> and repeated separators, joined with the name.
\<close>

fun trim_left :: "string \<Rightarrow> string" where
  "trim_left p =
     (case p of
        c # q \<Rightarrow>
          if c = slash then trim_left q
          else if c = CHR ''.''
          then (case q of [] \<Rightarrow> [] | d # r \<Rightarrow> if d = slash then trim_left r else p)
          else p
      | [] \<Rightarrow> [])"

declare trim_left.simps [simp del]

definition entry_path :: "list_options \<Rightarrow> string \<Rightarrow> string" where
  "entry_path opts name =
     trim_left (case lo_prefix opts of
                  Some prefix \<Rightarrow> path_join (trim_start_matches slash prefix) name
                | None \<Rightarrow> name)"

definition entries_of ::
  "file_tree \<Rightarrow> location \<Rightarrow> list_options \<Rightarrow> string list \<Rightarrow> (string \<times> location \<times> node) list" where
  "entries_of t loc opts names =
     map (\<lambda>name. (entry_path opts name, loc @ [name], the (t (loc @ [name])))) names"

text \<open>\<open>names\<close> is the order in which the directory is read.\<close>

definition lg_list ::
  "local_file_gateway \<Rightarrow> file_env \<Rightarrow> string list \<Rightarrow> file_system \<Rightarrow> list_options \<Rightarrow>
   list_result gateway_result" where
  "lg_list g env names fs opts =
     (let (files, prefixes) =
        (case find_node fs (search_path g opts) of
           Ok (loc, DirNode) \<Rightarrow> list_loop env opts (entries_of (fs_tree fs) loc opts names) [] []
         | _ \<Rightarrow> ([], []))
      in Ok \<lparr>lr_files = files, lr_prefixes = prefixes, lr_next_continuation_token = None,
             lr_is_truncated = False\<rparr>)"

definition lg_exists :: "local_file_gateway \<Rightarrow> file_system \<Rightarrow> string \<Rightarrow> bool gateway_result" where
  "lg_exists g fs path =
     Ok (case try_exists fs (resolve_path g path) of Ok b \<Rightarrow> b | Err _ \<Rightarrow> False)"

definition hours_24 :: int where
  "hours_24 = 24 * 60 * 60 * 1000000000"

definition presigned_read_url ::
  "local_file_gateway \<Rightarrow> timestamp \<Rightarrow> string \<Rightarrow> u64 \<Rightarrow> presigned_url gateway_result" where
  "presigned_read_url g now path expires_in_secs =
     Ok \<lparr>pu_url = ''file://'' @ resolve_path g path, pu_expires_at = now + hours_24,
         pu_method = ''GET''\<rparr>"

definition lg_health_check ::
  "local_file_gateway \<Rightarrow> timestamp \<Rightarrow> file_system \<Rightarrow> health_check gateway_result" where
  "lg_health_check g now fs =
     Ok (case try_exists fs (lg_base_path g) of
           Ok True \<Rightarrow> healthy now
         | Ok False \<Rightarrow> unhealthy now ''Base path does not exist''
         | Err e \<Rightarrow> unhealthy now (''Cannot access base path: '' @ io_text e))"

section \<open>Writing\<close>

text \<open>Creating the parent directories of a path, if it has a parent.\<close>

definition ensure_parent :: "file_system \<Rightarrow> string \<Rightarrow> unit gateway_result \<times> file_system" where
  "ensure_parent fs p =
     (case path_parent p of
        None \<Rightarrow> (Ok (), fs)
      | Some q \<Rightarrow> (case create_dir_all fs q of (r, fs') \<Rightarrow> (map_err IoError r, fs')))"

definition info_of ::
  "file_env \<Rightarrow> file_system \<Rightarrow> string \<Rightarrow> string \<Rightarrow> file_info gateway_result" where
  "info_of env fs full path =
     map_err IoError (map_ok (metadata_to_info env path) (find_node fs full))"

definition lg_write ::
  "local_file_gateway \<Rightarrow> file_env \<Rightarrow> file_system \<Rightarrow> string \<Rightarrow> string \<Rightarrow> upload_options \<Rightarrow>
   file_info gateway_result \<times> file_system" where
  "lg_write g env fs path contents options =
     (let full = resolve_path g path in
      if \<not> uo_overwrite options \<and> (case try_exists fs full of Ok b \<Rightarrow> b | Err _ \<Rightarrow> False)
      then (Err (Conflict (''File already exists: '' @ path)), fs)
      else case ensure_parent fs full of
        (Err e, fs1) \<Rightarrow> (Err e, fs1)
      | (Ok _, fs1) \<Rightarrow>
          (case write_all fs1 full contents of
             (Err e, fs2) \<Rightarrow> (Err (IoError e), fs2)
           | (Ok _, fs2) \<Rightarrow> (info_of env fs2 full path, fs2)))"

definition lg_delete ::
  "local_file_gateway \<Rightarrow> file_system \<Rightarrow> string \<Rightarrow> unit gateway_result \<times> file_system" where
  "lg_delete g fs path =
     (case remove_file fs (resolve_path g path) of
        (r, fs') \<Rightarrow> (map_err (file_error ''File not found: '' path) r, fs'))"

definition lg_copy ::
  "local_file_gateway \<Rightarrow> file_env \<Rightarrow> file_system \<Rightarrow> string \<Rightarrow> string \<Rightarrow>
   file_info gateway_result \<times> file_system" where
  "lg_copy g env fs source destination =
     (let src = resolve_path g source; dst = resolve_path g destination in
      case ensure_parent fs dst of
        (Err e, fs1) \<Rightarrow> (Err e, fs1)
      | (Ok _, fs1) \<Rightarrow>
          (case copy_file fs1 src dst of
             (Err e, fs2) \<Rightarrow> (Err (file_error ''Source file not found: '' source e), fs2)
           | (Ok _, fs2) \<Rightarrow> (info_of env fs2 dst destination, fs2)))"

definition lg_rename ::
  "local_file_gateway \<Rightarrow> file_env \<Rightarrow> file_system \<Rightarrow> string \<Rightarrow> string \<Rightarrow>
   file_info gateway_result \<times> file_system" where
  "lg_rename g env fs source destination =
     (let src = resolve_path g source; dst = resolve_path g destination in
      case ensure_parent fs dst of
        (Err e, fs1) \<Rightarrow> (Err e, fs1)
      | (Ok _, fs1) \<Rightarrow>
          (case rename_path fs1 src dst of
             (Err e, fs2) \<Rightarrow> (Err (file_error ''Source file not found: '' source e), fs2)
           | (Ok _, fs2) \<Rightarrow> (info_of env fs2 dst destination, fs2)))"

definition lg_create_directory ::
  "local_file_gateway \<Rightarrow> file_system \<Rightarrow> string \<Rightarrow> unit gateway_result \<times> file_system" where
  "lg_create_directory g fs path =
     (case create_dir_all fs (resolve_path g path) of (r, fs') \<Rightarrow> (map_err IoError r, fs'))"

definition lg_delete_directory ::
  "local_file_gateway \<Rightarrow> file_system \<Rightarrow> string \<Rightarrow> bool \<Rightarrow> unit gateway_result \<times> file_system" where
  "lg_delete_directory g fs path recursive =
     (case (if recursive then remove_dir_all fs (resolve_path g path)
            else remove_dir fs (resolve_path g path)) of
        (r, fs') \<Rightarrow> (map_err IoError r, fs'))"

definition presigned_upload_url ::
  "local_file_gateway \<Rightarrow> timestamp \<Rightarrow> string \<Rightarrow> u64 \<Rightarrow> presigned_url gateway_result" where
  "presigned_upload_url g now path expires_in_secs =
     Ok \<lparr>pu_url = ''file://'' @ resolve_path g path, pu_expires_at = now + hours_24,
         pu_method = ''PUT''\<rparr>"

section \<open>A store of files\<close>

text \<open>
  What a client of a file gateway relies on: contents written under a path are read back, and a
  deleted path is gone. \<open>put\<close> and \<open>del\<close> give the new state when they succeed.
\<close>

locale blob_store =
  fixes get :: "'s \<Rightarrow> string \<Rightarrow> string option"
    and put :: "'s \<Rightarrow> string \<Rightarrow> string \<Rightarrow> 's option"
    and del :: "'s \<Rightarrow> string \<Rightarrow> 's option"
  assumes get_put: "put s path contents = Some s' \<Longrightarrow> get s' path = Some contents"
    and get_del: "del s path = Some s' \<Longrightarrow> get s' path = None"
begin

fun put_each :: "'s \<Rightarrow> string \<Rightarrow> string list \<Rightarrow> 's option" where
  "put_each s path [] = Some s"
| "put_each s path (c # cs) = Option.bind (put s path c) (\<lambda>s'. put_each s' path cs)"

text \<open>Of several writes to one path the last is read.\<close>

lemma last_put_wins: "put_each s path cs = Some s' \<Longrightarrow> cs \<noteq> [] \<Longrightarrow> get s' path = Some (last cs)"
  by (induction cs arbitrary: s) (auto simp: bind_eq_Some_conv get_put split: if_splits)

lemma put_del: "put s path c = Some s1 \<Longrightarrow> del s1 path = Some s2 \<Longrightarrow> get s2 path = None"
  by (rule get_del)

end

definition lg_get :: "local_file_gateway \<Rightarrow> file_system \<Rightarrow> string \<Rightarrow> string option" where
  "lg_get g fs path = (case lg_read g fs path of Ok c \<Rightarrow> Some c | Err _ \<Rightarrow> None)"

definition lg_put ::
  "local_file_gateway \<Rightarrow> file_env \<Rightarrow> file_system \<Rightarrow> string \<Rightarrow> string \<Rightarrow> file_system option" where
  "lg_put g env fs path contents =
     (case lg_write g env fs path contents uo_overwriting of
        (Ok _, fs') \<Rightarrow> Some fs' | (Err _, _) \<Rightarrow> None)"

definition lg_del :: "local_file_gateway \<Rightarrow> file_system \<Rightarrow> string \<Rightarrow> file_system option" where
  "lg_del g fs path = (case lg_delete g fs path of (Ok _, fs') \<Rightarrow> Some fs' | (Err _, _) \<Rightarrow> None)"

lemma lg_write_Ok:
  assumes "lg_write g env fs path contents options = (Ok info, fs')"
  shows "\<exists>loc. find_node fs' (resolve_path g path) = Ok (loc, FileNode contents) \<and>
    info = metadata_to_info env path (loc, FileNode contents)"
proof -
  obtain fs1 u where w: "write_all fs1 (resolve_path g path) contents = (Ok u, fs')"
    and info: "info_of env fs' (resolve_path g path) path = Ok info"
    using assms by (auto simp: lg_write_def Let_def split: if_splits prod.splits result.splits)
  from write_all_find [OF w] info show ?thesis by (auto simp: info_of_def)
qed

lemma lg_read_file:
  "find_node fs (resolve_path g path) = Ok (loc, FileNode c) \<Longrightarrow> lg_read g fs path = Ok c"
  by (simp add: lg_read_def read_all_def)

lemma lg_delete_gone:
  "lg_delete g fs path = (Ok u, fs') \<Longrightarrow> find_node fs' (resolve_path g path) = Err enoent"
  by (auto simp: lg_delete_def split: prod.splits dest: remove_file_gone)

interpretation local_files: blob_store "lg_get g" "lg_put g env" "lg_del g" for g env
proof unfold_locales
  show "lg_get g s' path = Some contents" if "lg_put g env s path contents = Some s'"
    for s path contents s'
    using that by (auto simp: lg_get_def lg_put_def lg_read_file
        split: prod.splits result.splits dest!: lg_write_Ok)
  show "lg_get g s' path = None" if "lg_del g s path = Some s'" for s path s'
    using that by (auto simp: lg_get_def lg_del_def lg_read_def
        split: prod.splits result.splits dest!: lg_delete_gone)
qed

section \<open>Staying inside the base directory\<close>

text \<open>The location of the base directory, and the requests without \<open>..\<close>.\<close>

definition base_location :: "local_file_gateway \<Rightarrow> file_system \<Rightarrow> location" where
  "base_location g fs = loc_of fs (lg_base_path g)"

lemma trim_not_absolute: "\<not> is_absolute (trim_start_matches slash p)"
  by (induction p) (auto simp: trim_start_matches_def is_absolute_def)

lemma segments_trim: "set (segments (trim_start_matches slash p)) \<subseteq> set (segments p)"
  by (induction p) (auto simp: trim_start_matches_def split: list.splits)

lemma resolve_path_below:
  assumes "lg_base_path g \<noteq> []" "no_dotdot path"
  shows "below (base_location g fs) (loc_of fs (resolve_path g path))"
proof -
  have "no_dotdot (trim_start_matches slash path)"
    using assms(2) segments_trim [of path] by (auto simp: no_dotdot_def)
  then show ?thesis
    unfolding base_location_def loc_of_def resolve_path_def
    by (intro join_below assms(1) trim_not_absolute)
qed

lemma ensure_parent_adds: "ensure_parent fs p = (r, fs') \<Longrightarrow> adds_dirs fs fs'"
  by (auto simp: ensure_parent_def split: option.splits prod.splits dest: create_dir_all_adds)

lemma adds_dirs_loc: "adds_dirs fs fs' \<Longrightarrow> loc_of fs' p = loc_of fs p"
  by (simp add: adds_dirs_def loc_of_def)

text \<open>Creating the parents and then one operation below the base.\<close>

lemma after_parent_changes:
  assumes "ensure_parent fs p = (r, fs1)" "changes_below b fs1 fs2"
  shows "changes_below b fs fs2"
  using changes_below_trans [OF adds_dirs_changes [OF ensure_parent_adds [OF assms(1)]] assms(2)] .

lemma lg_write_changes:
  assumes "lg_write g env fs path contents options = (r, fs')"
    and "below b (loc_of fs (resolve_path g path))"
  shows "changes_below b fs fs'"
proof -
  have "fs' = fs \<or> (\<exists>m fs1. ensure_parent fs (resolve_path g path) = (m, fs1) \<and>
      (fs' = fs1 \<or> (\<exists>w. write_all fs1 (resolve_path g path) contents = (w, fs'))))"
    using assms(1)
    by (auto simp: lg_write_def Let_def split: if_splits prod.splits result.splits)
  then show ?thesis
    using assms(2) after_parent_changes ensure_parent_adds adds_dirs_loc write_all_changes
      changes_below_refl by metis
qed

lemma lg_copy_changes:
  assumes "lg_copy g env fs source dest = (r, fs')"
    and "below b (loc_of fs (resolve_path g dest))"
  shows "changes_below b fs fs'"
proof -
  have "\<exists>m fs1. ensure_parent fs (resolve_path g dest) = (m, fs1) \<and>
      (fs' = fs1 \<or> (\<exists>w. copy_file fs1 (resolve_path g source) (resolve_path g dest) = (w, fs')))"
    using assms(1)
    by (auto simp: lg_copy_def Let_def split: if_splits prod.splits result.splits)
  then show ?thesis
    using assms(2) after_parent_changes ensure_parent_adds adds_dirs_loc copy_file_changes
      changes_below_refl by metis
qed

lemma lg_rename_changes:
  assumes "lg_rename g env fs source dest = (r, fs')"
    and "below b (loc_of fs (resolve_path g source))" "below b (loc_of fs (resolve_path g dest))"
  shows "changes_below b fs fs'"
proof -
  have "\<exists>m fs1. ensure_parent fs (resolve_path g dest) = (m, fs1) \<and>
      (fs' = fs1 \<or> (\<exists>w. rename_path fs1 (resolve_path g source) (resolve_path g dest) = (w, fs')))"
    using assms(1)
    by (auto simp: lg_rename_def Let_def split: if_splits prod.splits result.splits)
  then show ?thesis
    using assms(2,3) after_parent_changes ensure_parent_adds adds_dirs_loc rename_path_changes
      changes_below_refl by metis
qed

text \<open>The writes of a gateway as steps, when no path asked for contains \<open>..\<close>.\<close>

inductive file_step :: "local_file_gateway \<Rightarrow> file_system \<Rightarrow> file_system \<Rightarrow> bool" for g where
  step_write: "no_dotdot path \<Longrightarrow> lg_write g env fs path contents options = (r, fs') \<Longrightarrow>
    file_step g fs fs'"
| step_delete: "no_dotdot path \<Longrightarrow> lg_delete g fs path = (u, fs') \<Longrightarrow> file_step g fs fs'"
| step_copy: "no_dotdot dest \<Longrightarrow> lg_copy g env fs source dest = (r, fs') \<Longrightarrow> file_step g fs fs'"
| step_rename: "no_dotdot source \<Longrightarrow> no_dotdot dest \<Longrightarrow>
    lg_rename g env fs source dest = (r, fs') \<Longrightarrow> file_step g fs fs'"
| step_create_directory: "no_dotdot path \<Longrightarrow> lg_create_directory g fs path = (u, fs') \<Longrightarrow>
    file_step g fs fs'"
| step_delete_directory: "no_dotdot path \<Longrightarrow> lg_delete_directory g fs path recursive = (u, fs') \<Longrightarrow>
    file_step g fs fs'"

lemma file_step_changes:
  assumes "file_step g fs fs'" "lg_base_path g \<noteq> []"
  shows "changes_below (base_location g fs) fs fs'"
  using assms(1)
proof cases
  case (step_write path env contents options r)
  then show ?thesis using lg_write_changes resolve_path_below [OF assms(2)] by blast
next
  case (step_delete path u)
  then obtain x where "remove_file fs (resolve_path g path) = (x, fs')"
    by (auto simp: lg_delete_def split: prod.splits)
  then show ?thesis using remove_file_changes resolve_path_below [OF assms(2)] step_delete by blast
next
  case (step_copy dest env source r)
  then show ?thesis using lg_copy_changes resolve_path_below [OF assms(2)] by blast
next
  case (step_rename source dest env r)
  then show ?thesis using lg_rename_changes resolve_path_below [OF assms(2)] by blast
next
  case (step_create_directory path u)
  then show ?thesis
    by (auto simp: lg_create_directory_def split: prod.splits
        intro: adds_dirs_changes create_dir_all_adds)
next
  case (step_delete_directory path recursive u)
  then have "(\<exists>x. remove_dir_all fs (resolve_path g path) = (x, fs')) \<or>
      (\<exists>x. remove_dir fs (resolve_path g path) = (x, fs'))"
    by (auto simp: lg_delete_directory_def split: prod.splits if_splits)
  then show ?thesis
    using remove_dir_all_changes remove_dir_changes resolve_path_below [OF assms(2)]
      step_delete_directory(1) by blast
qed

interpretation confined: invariant_machine "\<lambda>fs. fs = fs0" "file_step g"
    "\<lambda>fs. lg_base_path g = [] \<or> changes_below (base_location g fs0) fs0 fs" for g fs0
proof unfold_locales
  fix s t
  assume inv: "lg_base_path g = [] \<or> changes_below (base_location g fs0) fs0 s" and step: "file_step g s t"
  show "lg_base_path g = [] \<or> changes_below (base_location g fs0) fs0 t"
  proof (cases "lg_base_path g = []")
    case False
    with inv have ch: "changes_below (base_location g fs0) fs0 s" by simp
    then have "base_location g s = base_location g fs0"
      by (simp add: base_location_def loc_of_def changes_below_def)
    with file_step_changes [OF step False] ch show ?thesis using changes_below_trans by metis
  qed simp
qed simp

section \<open>Listing\<close>

definition is_prefix_entry :: "list_options \<Rightarrow> string \<times> location \<times> node \<Rightarrow> bool" where
  "is_prefix_entry opts e \<longleftrightarrow> snd (snd e) = DirNode \<and> lo_delimiter opts \<noteq> None"

definition entry_info :: "file_env \<Rightarrow> string \<times> location \<times> node \<Rightarrow> file_info" where
  "entry_info env e = metadata_to_info env (fst e) (snd e)"

lemma list_loop_all:
  "lo_max_results opts = None \<Longrightarrow>
   list_loop env opts es files prefixes =
     (files @ map (entry_info env) (filter (\<lambda>e. \<not> is_prefix_entry opts e) es),
      prefixes @ map fst (filter (is_prefix_entry opts) es))"
  by (induction env opts es files prefixes rule: list_loop.induct)
    (auto simp: is_prefix_entry_def entry_info_def)

lemma list_loop_limited:
  assumes "lo_max_results opts = Some m" "length files < unat m"
  shows "fst (list_loop env opts es files prefixes) =
    files @ map (entry_info env)
      (take (unat m - length files) (filter (\<lambda>e. \<not> is_prefix_entry opts e) es))"
  using assms(2)
proof (induction es arbitrary: files prefixes)
  case (Cons e es)
  obtain rel md where e: "e = (rel, md)" by (cases e)
  show ?case
  proof (cases "is_prefix_entry opts e")
    case True
    then have "list_loop env opts (e # es) files prefixes = list_loop env opts es files (prefixes @ [rel])"
      using Cons.prems assms(1) by (simp add: e is_prefix_entry_def)
    with Cons True show ?thesis by simp
  next
    case False
    let ?files = "files @ [entry_info env e]"
    have step: "list_loop env opts (e # es) files prefixes =
        (if unat m \<le> length ?files then (?files, prefixes) else list_loop env opts es ?files prefixes)"
      using False assms(1) by (auto simp: e is_prefix_entry_def entry_info_def)
    have n: "unat m - length files = Suc (unat m - length ?files)" using Cons.prems by simp
    show ?thesis
    proof (cases "unat m \<le> length ?files")
      case True
      with step n False show ?thesis by simp
    next
      case less: False
      with Cons.IH [of ?files prefixes] step n False show ?thesis by simp
    qed
  qed
qed simp

section \<open>Properties\<close>

text \<open>
  C19: a write that succeeds can be read back: the contents, the file's existence and the
  information returned. Without \<open>overwrite\<close> it only succeeds where nothing was visible before,
  and deleting the path makes it not found.
\<close>

theorem write_then_read:
  assumes "lg_write g env fs path contents options = (Ok info, fs')"
  shows "lg_read g fs' path = Ok contents \<and> lg_exists g fs' path = Ok True \<and>
    lg_metadata g env fs' path = Ok info \<and> fi_size info = of_nat (length contents) \<and>
    (\<not> uo_overwrite options \<longrightarrow> lg_exists g fs path = Ok False) \<and>
    (\<forall>fs''. lg_delete g fs' path = (Ok (), fs'') \<longrightarrow>
       lg_exists g fs'' path = Ok False \<and>
       lg_read g fs'' path = Err (gateway_error.NotFound (''File not found: '' @ path)))"
proof -
  obtain loc where loc: "find_node fs' (resolve_path g path) = Ok (loc, FileNode contents)"
    and info: "info = metadata_to_info env path (loc, FileNode contents)"
    using lg_write_Ok [OF assms] by blast
  have "lg_exists g fs path = Ok False" if "\<not> uo_overwrite options"
    using assms that by (auto simp: lg_write_def lg_exists_def Let_def split: if_splits result.splits)
  moreover have "lg_exists g fs'' path = Ok False \<and>
      lg_read g fs'' path = Err (gateway_error.NotFound (''File not found: '' @ path))"
    if "lg_delete g fs' path = (Ok (), fs'')" for fs''
    using lg_delete_gone [OF that]
    by (simp add: lg_exists_def lg_read_def try_exists_def file_error_def enoent_def)
  ultimately show ?thesis
    using lg_read_file [OF loc] loc info
    by (auto simp: lg_exists_def lg_metadata_def try_exists_def metadata_to_info_def)
qed

definition demo_fs :: file_system where
  "demo_fs = \<lparr>fs_tree = [[''srv''] \<mapsto> DirNode, [''srv'', ''data''] \<mapsto> DirNode], fs_cwd = []\<rparr>"

definition demo_env :: file_env where
  "demo_env = \<lparr>fe_times = (\<lambda>_. \<lparr>ft_modified = Some 5, ft_created = None\<rparr>),
     fe_mime = (\<lambda>_. None), fe_now = 7\<rparr>"

lemmas file_evaluation =
  lg_write_def lg_new_def resolve_path_def trim_start_matches_def path_join_def is_absolute_def
  try_exists_def find_node_def resolve_def kernel_path_def kernel_segment_def need_dir_def node_at_def
  ensure_parent_def path_parent_def next_back.simps before_body_def last_segment_def
  drop_last_segment_def segment_component_def trim_right.simps starts_with_def
  create_dir_all.simps mkdir_def trim_end_matches_def is_dir_def write_all_def info_of_def
  uo_overwriting_def upload_options_default_def Let_def io_errors

lemma demo_write:
  "\<exists>info fs'. lg_write (lg_new ''/srv/data'') demo_env demo_fs ''a'' ''hi'' uo_overwriting = (Ok info, fs')"
  by (simp add: file_evaluation demo_fs_def)

theorem write_then_read_witness:
  "\<exists>info fs'. lg_write (lg_new ''/srv/data'') demo_env demo_fs ''a'' ''hi'' uo_overwriting = (Ok info, fs') \<and>
     lg_read (lg_new ''/srv/data'') fs' ''a'' = Ok ''hi'' \<and> fi_size info = 2"
  using demo_write write_then_read by fastforce

text \<open>
  C6: whatever sequence of writes, deletions, copies, renames and directory operations a gateway
  is asked for, as long as no written path contains \<open>..\<close>, every file outside its base directory
  stays as it was and none appears there; at most new directories do (the base and its parents).
\<close>

theorem requests_stay_in_base:
  assumes "lg_base_path g \<noteq> []" and "(file_step g)\<^sup>*\<^sup>* fs fs'"
    and "\<not> below (base_location g fs) loc"
  shows "fs_tree fs' loc = fs_tree fs loc \<or>
    fs_tree fs loc = None \<and> fs_tree fs' loc = Some DirNode"
proof -
  have "lg_base_path g = [] \<or> changes_below (base_location g fs) fs fs'"
    using confined.reachable_inv [of fs fs g fs'] assms(2) by simp
  with assms(1,3) show ?thesis unfolding changes_below_def by blast
qed

theorem requests_stay_in_base_witness:
  "\<exists>fs'. file_step (lg_new ''/srv/data'') demo_fs fs' \<and>
    (fs_tree fs' [''etc'', ''passwd''] = None \<or>
     None = fs_tree demo_fs [''etc'', ''passwd''] \<and> fs_tree fs' [''etc'', ''passwd''] = Some DirNode)"
proof -
  obtain info fs' where "lg_write (lg_new ''/srv/data'') demo_env demo_fs ''a'' ''hi'' uo_overwriting = (Ok info, fs')"
    using demo_write by blast
  then have step: "file_step (lg_new ''/srv/data'') demo_fs fs'"
    by (rule step_write [rotated]) (simp add: no_dotdot_def)
  have "lg_base_path (lg_new ''/srv/data'') \<noteq> []" by (simp add: lg_new_def)
  from requests_stay_in_base [OF this r_into_rtranclp [of "file_step _", OF step], of "[''etc'', ''passwd'']"]
  show ?thesis using step
    by (auto simp: base_location_def loc_of_def lg_new_def kernel_path_def kernel_segment_def
        is_absolute_def below_def demo_fs_def)
qed



text \<open>
  a listing limited to a positive number of results holds the first so many files in the
  order the directory is read, and says that it is complete whether or not files are missing: the
  flag is always false and there is never a token to continue from.
\<close>

theorem limited_listing_not_flagged:
  assumes "find_node fs (search_path g opts) = Ok (loc, DirNode)"
    and "lo_max_results opts = Some m" and "0 < m"
  shows "\<exists>result. lg_list g env names fs opts = Ok result \<and>
    lr_files result = map (entry_info env) (take (unat m)
      (filter (\<lambda>e. \<not> is_prefix_entry opts e) (entries_of (fs_tree fs) loc opts names))) \<and>
    lr_is_truncated result = False \<and> lr_next_continuation_token result = None"
proof -
  have "length ([] :: file_info list) < unat m" using assms(3) by (simp add: word_less_nat_alt)
  from list_loop_limited [OF assms(2) this, of env "entries_of (fs_tree fs) loc opts names" "[]"]
  show ?thesis using assms(1) by (auto simp: lg_list_def split: prod.split)
qed

definition demo_files :: file_system where
  "demo_files = demo_fs\<lparr>fs_tree := (fs_tree demo_fs)([''srv'', ''data'', ''a''] \<mapsto> FileNode ''1'',
     [''srv'', ''data'', ''b''] \<mapsto> FileNode ''2'')\<rparr>"

theorem limited_listing_not_flagged_witness:
  "\<exists>result. lg_list (lg_new ''/srv/data'') demo_env [''a'', ''b''] demo_files
      (lo_with_max_results 1 list_options_default) = Ok result \<and>
    map fi_path (lr_files result) = [''a''] \<and> lr_is_truncated result = False"
  using limited_listing_not_flagged [of demo_files "lg_new ''/srv/data''"
      "lo_with_max_results 1 list_options_default" "[''srv'', ''data'']" 1 demo_env "[''a'', ''b'']"]
  by (auto simp: demo_files_def demo_fs_def file_evaluation search_path_def list_options_default_def
      lo_with_max_results_def entries_of_def entry_path_def trim_left.simps is_prefix_entry_def
      entry_info_def metadata_to_info_def)

text \<open>
  Copying a file onto itself succeeds and empties it: nothing checks that source and destination
  are different files.
\<close>

lemma copy_onto_itself_empties:
  assumes "lg_copy g env fs path path = (Ok info, fs')"
  shows "lg_read g fs' path = Ok ''''"
proof -
  let ?p = "resolve_path g path"
  obtain fs1 n where "copy_file fs1 ?p ?p = (Ok n, fs')"
    using assms by (auto simp: lg_copy_def Let_def split: prod.splits result.splits)
  then obtain u where "write_all fs1 ?p '''' = (Ok u, fs')"
    by (auto simp: copy_file_def find_node_loc Let_def
        split: prod.splits result.splits node.splits if_splits)
  then show ?thesis using write_all_find lg_read_file by blast
qed

end
