(* ===== verification/Publish.thy ===== *)
theory Publish
  imports Prelude
begin

text \<open>
  The publish order of the release tool (\<open>xtask/src/publish.rs\<close>): which packages are published,
  their dependencies inside the workspace, and Kahn's algorithm over them. The package data are
  the fields the tool reads of \<open>cargo_metadata\<close>'s \<open>Package\<close> and \<open>Dependency\<close>. Borrowed
  \<open>&str\<close> keys are the strings themselves; degrees count entries of lists and stay below
  \<open>usize::MAX\<close>, so they are natural numbers whose decrement below 0 is a panic.
\<close>

section \<open>Packages\<close>

datatype dependency_kind = Normal | Development | Build | UnknownKind

record dependency =
  dep_name :: string
  dep_kind :: dependency_kind
  dep_rename :: "string option"
  dep_registry :: "string option"
  dep_req :: string
  dep_features :: "string list"
  dep_optional :: bool
  dep_uses_default_features :: bool
  dep_target :: "string option"

record package =
  pkg_name :: string
  pkg_version :: string
  pkg_publish :: "string list option"
  pkg_dependencies :: "dependency list"
  pkg_features :: "(string \<times> string list) list"

definition is_publishable :: "package \<Rightarrow> bool" where
  "is_publishable pkg =
     (case pkg_publish pkg of Some registries \<Rightarrow> registries \<noteq> [] | None \<Rightarrow> True)"

text \<open>
  Collecting into the map of package names: a later package of the same name replaces an earlier.
\<close>

definition package_map :: "package list \<Rightarrow> string \<rightharpoonup> package" where
  "package_map members = map_of (rev (map (\<lambda>p. (pkg_name p, p)) members))"

fun named_packages :: "(string \<rightharpoonup> package) \<Rightarrow> string list \<Rightarrow> (package list, string) result" where
  "named_packages pkg_map [] = Ok []"
| "named_packages pkg_map (name # names) =
     and_then (ok_or (''Package '' @ [CHR 0x27] @ name @ [CHR 0x27] @ '' not found in workspace'')
                (pkg_map name))
       (\<lambda>p. map_ok (\<lambda>ps. p # ps) (named_packages pkg_map names))"

text \<open>The crates a run publishes: all publishable members, or exactly those named.\<close>

definition select_packages :: "package list \<Rightarrow> string list \<Rightarrow> (package list, string) result" where
  "select_packages members packages =
     (if packages = [] then Ok (filter is_publishable members)
      else named_packages (package_map members) packages)"

text \<open>Non-development dependencies on other crates of the run.\<close>

fun deps_loop :: "string set \<Rightarrow> (string \<rightharpoonup> package) \<Rightarrow> dependency list \<Rightarrow> string list" where
  "deps_loop publish_set pkg_map [] = []"
| "deps_loop publish_set pkg_map (d # ds) =
     (if dep_kind d = Development then deps_loop publish_set pkg_map ds
      else if dep_name d \<in> publish_set \<and> pkg_map (dep_name d) \<noteq> None
      then dep_name d # deps_loop publish_set pkg_map ds
      else deps_loop publish_set pkg_map ds)"

definition build_workspace_deps ::
  "package list \<Rightarrow> (string \<rightharpoonup> package) \<Rightarrow> string \<rightharpoonup> string list" where
  "build_workspace_deps to_publish pkg_map =
     foldl (\<lambda>m p. m(pkg_name p \<mapsto>
         deps_loop (set (map pkg_name to_publish)) pkg_map (pkg_dependencies p)))
       Map.empty to_publish"

section \<open>Kahn's algorithm\<close>

type_synonym degrees = "string \<rightharpoonup> nat"
type_synonym edges = "string \<rightharpoonup> string list"

text \<open>The map entry operations of the code: \<open>entry(k).or_insert(0)\<close> and the two updates.\<close>

definition or_zero :: "string \<Rightarrow> degrees \<Rightarrow> degrees" where
  "or_zero k m = (case m k of None \<Rightarrow> m(k \<mapsto> 0) | Some _ \<Rightarrow> m)"

definition bump :: "string \<Rightarrow> degrees \<Rightarrow> degrees" where
  "bump k m = (let m' = or_zero k m in m'(k \<mapsto> Suc (the (m' k))))"

definition push_to :: "string \<Rightarrow> string \<Rightarrow> edges \<Rightarrow> edges" where
  "push_to k v m = m(k \<mapsto> (case m k of None \<Rightarrow> [] | Some vs \<Rightarrow> vs) @ [v])"

fun count_deps ::
  "string set \<Rightarrow> string \<Rightarrow> string list \<Rightarrow> degrees \<times> edges \<Rightarrow> degrees \<times> edges" where
  "count_deps crate_set name [] (deg, dependents) = (deg, dependents)"
| "count_deps crate_set name (d # ds) (deg, dependents) =
     (if d \<in> crate_set
      then count_deps crate_set name ds (bump name deg, push_to d name dependents)
      else count_deps crate_set name ds (deg, dependents))"

fun build_graph ::
  "string set \<Rightarrow> edges \<Rightarrow> string list \<Rightarrow> degrees \<times> edges \<Rightarrow> degrees \<times> edges" where
  "build_graph crate_set deps [] (deg, dependents) = (deg, dependents)"
| "build_graph crate_set deps (name # names) (deg, dependents) =
     (let s = (or_zero name deg, dependents)
      in build_graph crate_set deps names
           (case deps name of None \<Rightarrow> s | Some ds \<Rightarrow> count_deps crate_set name ds s))"

text \<open>
  Releasing the dependents of a finished crate. An unknown dependent or a degree below 0 panics
  (\<open>None\<close>).
\<close>

fun release :: "string list \<Rightarrow> degrees \<Rightarrow> string list \<Rightarrow> (degrees \<times> string list) option" where
  "release [] deg next = Some (deg, next)"
| "release (d # ds) deg next =
     (case deg d of
        None \<Rightarrow> None
      | Some n \<Rightarrow>
          if n = 0 then None
          else if n - 1 = 0 then release ds (deg(d \<mapsto> n - 1)) (next @ [d])
          else release ds (deg(d \<mapsto> n - 1)) next)"

text \<open>The main loop. \<open>None\<close> is a panic or a run without end; both are excluded below.\<close>

partial_function (option) kahn ::
  "edges \<Rightarrow> degrees \<Rightarrow> string list \<Rightarrow> string list \<Rightarrow> string list option" where
  [code]: "kahn dependents deg queue order =
     (case queue of
        [] \<Rightarrow> Some order
      | name # queue' \<Rightarrow>
          (case dependents name of
             None \<Rightarrow> kahn dependents deg queue' (order @ [name])
           | Some ds \<Rightarrow>
               Option.bind (release ds deg [])
                 (\<lambda>(deg', next). kahn dependents deg' (queue' @ sort next) (order @ [name]))))"

definition circular_text :: "nat \<Rightarrow> nat \<Rightarrow> string" where
  "circular_text n m =
     ''Circular dependency detected among workspace crates (sorted '' @ show_nat n @ '' of '' @
     show_nat m @ '')''"

text \<open>\<open>ks\<close> is the order in which the hash map of degrees is iterated.\<close>

definition topological_sort ::
  "string list \<Rightarrow> string list \<Rightarrow> edges \<Rightarrow> (string list, string) result option" where
  "topological_sort ks crates workspace_deps =
     (let (in_degree, dependents) =
            build_graph (set crates) workspace_deps crates (Map.empty, Map.empty);
          initial = filter (\<lambda>k. in_degree k = Some 0) ks
      in map_option
           (\<lambda>order. if length order \<noteq> length crates
                     then Err (circular_text (length order) (length crates)) else Ok order)
           (kahn dependents in_degree (sort initial) []))"

text \<open>
  The order a run prints and follows: the selected crates sorted by their workspace dependencies.
  A run without crates to publish ends at once.
\<close>

definition publish_order ::
  "string list \<Rightarrow> package list \<Rightarrow> string list \<Rightarrow> (string list, string) result option" where
  "publish_order ks members packages =
     (case select_packages members packages of
        Err e \<Rightarrow> Some (Err e)
      | Ok to_publish \<Rightarrow>
          if to_publish = [] then Some (Ok [])
          else topological_sort ks (map pkg_name to_publish)
                 (build_workspace_deps to_publish (package_map members)))"

section \<open>The graph that is built\<close>

definition succ :: "edges \<Rightarrow> string \<Rightarrow> string list" where
  "succ m d = (case m d of None \<Rightarrow> [] | Some vs \<Rightarrow> vs)"

text \<open>The dependencies of a crate inside the run.\<close>

definition deps_in :: "string set \<Rightarrow> edges \<Rightarrow> string \<Rightarrow> string list" where
  "deps_in S deps n = filter (\<lambda>d. d \<in> S) (succ deps n)"

lemma deps_in_subset: "set (deps_in S deps n) \<subseteq> S"
  by (auto simp: deps_in_def)

lemma count_list_pos: "x \<in> set xs \<longleftrightarrow> 0 < count_list xs x"
  by (induction xs) auto

lemma count_list_replicate [simp]: "count_list (replicate k y) x = (if x = y then k else 0)"
  by (induction k) auto

lemma count_list_filter: "count_list (filter P xs) x = (if P x then count_list xs x else 0)"
  by (induction xs) auto

lemma length_filter_notin:
  "x \<notin> S \<Longrightarrow> length (filter (\<lambda>d. d \<notin> S) xs) =
     length (filter (\<lambda>d. d \<notin> insert x S) xs) + count_list xs x"
  by (induction xs) auto

lemma count_deps_deg:
  "deg name = Some k \<Longrightarrow>
   fst (count_deps S name ds (deg, dep)) = deg(name \<mapsto> k + length (filter (\<lambda>d. d \<in> S) ds))"
  by (induction ds arbitrary: deg dep k) (auto simp: bump_def or_zero_def fun_eq_iff)

lemma succ_push_to: "succ (push_to k v m) d = (if d = k then succ m d @ [v] else succ m d)"
  by (simp add: succ_def push_to_def)

lemma count_deps_succ:
  "count_list (succ (snd (count_deps S name ds (deg, dep))) d) n =
     count_list (succ dep d) n + (if n = name \<and> d \<in> S then count_list ds d else 0)"
  by (induction ds arbitrary: deg dep) (auto simp: succ_push_to)

lemma build_graph_Cons:
  "build_graph S deps (name # names) (deg, dep) =
     build_graph S deps names (count_deps S name (succ deps name) (or_zero name deg, dep))"
  by (simp add: succ_def Let_def split: option.split)

declare build_graph.simps(2) [simp del]

lemma build_graph_deg:
  assumes "distinct names" "set names \<inter> dom deg = {}"
  shows "fst (build_graph S deps names (deg, dep)) n =
    (if n \<in> set names then Some (length (deps_in S deps n)) else deg n)"
  using assms
proof (induction names arbitrary: deg dep)
  case (Cons name names)
  obtain deg' dep' where g: "count_deps S name (succ deps name) (or_zero name deg, dep) = (deg', dep')"
    by force
  have "deg name = None" using Cons.prems by auto
  then have "or_zero name deg name = Some 0" by (simp add: or_zero_def)
  from count_deps_deg [of "or_zero name deg", OF this, of S "succ deps name" dep] g \<open>deg name = None\<close>
  have deg': "deg' = deg(name \<mapsto> length (deps_in S deps name))"
    by (simp add: deps_in_def or_zero_def)
  with Cons show ?case by (auto simp: build_graph_Cons g)
qed simp

lemma build_graph_succ:
  assumes "distinct names"
  shows "count_list (succ (snd (build_graph S deps names (deg, dep))) d) n =
    count_list (succ dep d) n +
    (if n \<in> set names \<and> d \<in> S then count_list (succ deps n) d else 0)"
  using assms
proof (induction names arbitrary: deg dep)
  case (Cons name names)
  obtain deg' dep' where g: "count_deps S name (succ deps name) (or_zero name deg, dep) = (deg', dep')"
    by force
  from count_deps_succ [of S name "succ deps name" "or_zero name deg" dep d n] g Cons
  show ?case by (auto simp: build_graph_Cons)
qed simp

section \<open>The loop\<close>

text \<open>Releasing a crate's dependents lowers their degrees and lists those that reach 0, once each.\<close>

lemma release_effect:
  assumes "\<And>n. n \<in> set ds \<Longrightarrow> \<exists>k. deg n = Some k \<and> count_list ds n \<le> k"
  shows "\<exists>new. release ds deg next =
      Some (\<lambda>n. map_option (\<lambda>k. k - count_list ds n) (deg n), next @ new) \<and>
    distinct new \<and> set new = {n \<in> set ds. deg n = Some (count_list ds n)}"
  using assms
proof (induction ds arbitrary: deg "next")
  case Nil
  then show ?case by (auto simp: option.map_ident)
next
  case (Cons d ds)
  from Cons.prems [of d] obtain k where k: "deg d = Some k" "Suc (count_list ds d) \<le> k" by auto
  let ?deg = "deg(d \<mapsto> k - 1)"
  let ?next = "if k - 1 = 0 then next @ [d] else next"
  have "\<exists>j. ?deg n = Some j \<and> count_list ds n \<le> j" if n: "n \<in> set ds" for n
    using Cons.prems [of n] n k by (cases "n = d") auto
  from Cons.IH [of ?deg ?next, OF this] obtain new where
    r: "release ds ?deg ?next = Some (\<lambda>n. map_option (\<lambda>k. k - count_list ds n) (?deg n), ?next @ new)"
    and new: "distinct new" "set new = {n \<in> set ds. ?deg n = Some (count_list ds n)}" by blast
  have rel: "release (d # ds) deg next = release ds ?deg ?next"
    using k by auto
  have deg: "(\<lambda>n. map_option (\<lambda>k. k - count_list ds n) (?deg n)) =
      (\<lambda>n. map_option (\<lambda>k. k - count_list (d # ds) n) (deg n))"
    using k by (auto simp: fun_eq_iff)
  let ?new = "if k - 1 = 0 then d # new else new"
  have "d \<notin> set new" if "k - 1 = 0"
    using that k new(2) by (auto simp: count_list_pos)
  then have "distinct ?new" using new(1) by auto
  moreover have "set ?new = {n \<in> set (d # ds). deg n = Some (count_list (d # ds) n)}"
  proof (intro set_eqI)
    fix n
    have mem: "n \<in> set new \<longleftrightarrow> n \<in> set ds \<and> ?deg n = Some (count_list ds n)" by (simp add: new(2))
    have "d \<in> set ds \<longleftrightarrow> 0 < count_list ds d" by (rule count_list_pos)
    then show "n \<in> set ?new \<longleftrightarrow> n \<in> {n \<in> set (d # ds). deg n = Some (count_list (d # ds) n)}"
      using mem k by (cases "n = d") auto
  qed
  ultimately show ?case unfolding rel r deg by (intro exI [of _ ?new]) auto
qed

lemma kahn_step:
  "kahn dep deg [] order = Some order"
  "kahn dep deg (name # queue) order =
     Option.bind (release (succ dep name) deg [])
       (\<lambda>(deg', next). kahn dep deg' (queue @ sort next) (order @ [name]))"
  by (subst kahn.simps, simp) (subst kahn.simps, simp add: succ_def split: option.split)

text \<open>
  The invariant: the finished crates are in dependency order, the queued ones have all their
  dependencies finished, and the degree of a crate counts its unfinished dependencies.
\<close>

definition deps_first :: "(string \<Rightarrow> string list) \<Rightarrow> string list \<Rightarrow> bool" where
  "deps_first E xs \<longleftrightarrow> (\<forall>i < length xs. set (E (xs ! i)) \<subseteq> set (take i xs))"

lemma deps_first_snoc: "deps_first E (xs @ [x]) \<longleftrightarrow> deps_first E xs \<and> set (E x) \<subseteq> set xs"
  by (auto simp: deps_first_def nth_append less_Suc_eq)

definition kahn_inv ::
  "string set \<Rightarrow> (string \<Rightarrow> string list) \<Rightarrow> degrees \<Rightarrow> string list \<Rightarrow> string list \<Rightarrow> bool" where
  "kahn_inv C E deg queue order \<longleftrightarrow>
     distinct (order @ queue) \<and> set (order @ queue) = {n \<in> C. deg n = Some 0} \<and>
     (\<forall>n \<in> C. deg n = Some (length (filter (\<lambda>d. d \<notin> set order) (E n)))) \<and>
     deps_first E order"

lemma kahn_inv_step:
  assumes inv: "kahn_inv C E deg (name # queue) order"
    and succ: "\<And>d n. count_list (succ dep d) n = (if n \<in> C \<and> d \<in> C then count_list (E n) d else 0)"
  shows "\<exists>deg' new. release (succ dep name) deg [] = Some (deg', new) \<and>
    kahn_inv C E deg' (queue @ sort new) (order @ [name])"
proof -
  from inv have name: "name \<in> C" "deg name = Some 0" "name \<notin> set order" "name \<notin> set queue"
    and dist: "distinct order" "distinct queue" "set order \<inter> set queue = {}"
    and mem: "set (order @ name # queue) = {n \<in> C. deg n = Some 0}"
    and deg: "\<And>n. n \<in> C \<Longrightarrow> deg n = Some (length (filter (\<lambda>d. d \<notin> set order) (E n)))"
    and first: "deps_first E order"
    by (auto simp: kahn_inv_def)
  let ?c = "\<lambda>n. count_list (succ dep name) n"
  have c: "?c n = (if n \<in> C then count_list (E n) name else 0)" for n using succ name(1) by simp
  let ?rest = "\<lambda>n. length (filter (\<lambda>d. d \<notin> set (order @ [name])) (E n))"
  have len: "length (filter (\<lambda>d. d \<notin> set order) (E n)) = ?rest n + ?c n" if "n \<in> C" for n
    using length_filter_notin [OF name(3), of "E n"] that by (simp add: c)
  have "\<exists>k. deg n = Some k \<and> ?c n \<le> k" if n: "n \<in> set (succ dep name)" for n
  proof -
    from n have "0 < ?c n" by (simp add: count_list_pos)
    then have "n \<in> C" by (simp add: c split: if_splits)
    then show ?thesis using deg len by simp
  qed
  from release_effect [of "succ dep name" deg "[]", OF this] obtain new where
    r: "release (succ dep name) deg [] = Some (\<lambda>n. map_option (\<lambda>k. k - ?c n) (deg n), new)"
    and new: "distinct new" "set new = {n \<in> set (succ dep name). deg n = Some (?c n)}" by auto
  let ?deg = "\<lambda>n. map_option (\<lambda>k. k - ?c n) (deg n)"
  have deg': "?deg n = Some (?rest n)" if "n \<in> C" for n using deg [OF that] len [OF that] by simp
  have new_iff: "n \<in> set new \<longleftrightarrow> n \<in> C \<and> 0 < ?c n \<and> ?rest n = 0" for n
    using new(2) deg [of n] len [of n] by (auto simp: count_list_pos c split: if_splits)
  have old_iff: "n \<in> set (order @ name # queue) \<longleftrightarrow> n \<in> C \<and> ?c n = 0 \<and> ?rest n = 0" for n
    unfolding mem using deg [of n] len [of n] by auto
  have "distinct (order @ name # queue)" using dist name by auto
  moreover have "n \<notin> set (order @ name # queue)" if "n \<in> set new" for n
    using that unfolding new_iff old_iff by simp
  then have "set new \<inter> set (order @ name # queue) = {}" by blast
  ultimately have "distinct ((order @ [name]) @ queue @ sort new)" using new(1) by auto
  moreover have "set ((order @ [name]) @ queue @ sort new) = {n \<in> C. ?deg n = Some 0}"
  proof (intro set_eqI)
    fix n
    have "n \<in> set ((order @ [name]) @ queue @ sort new) \<longleftrightarrow>
        n \<in> set (order @ name # queue) \<or> n \<in> set new" by auto
    also have "\<dots> \<longleftrightarrow> n \<in> C \<and> ?rest n = 0" unfolding new_iff old_iff by auto
    also have "\<dots> \<longleftrightarrow> n \<in> {n \<in> C. ?deg n = Some 0}" using deg' [of n] by auto
    finally show "n \<in> set ((order @ [name]) @ queue @ sort new) \<longleftrightarrow> n \<in> {n \<in> C. ?deg n = Some 0}" .
  qed
  moreover have "\<forall>n \<in> C. ?deg n = Some (?rest n)" using deg' by blast
  moreover have "deps_first E (order @ [name])"
  proof -
    have "filter (\<lambda>d. d \<notin> set order) (E name) = []" using deg [OF name(1)] name(2) by simp
    then show ?thesis using first by (auto simp: deps_first_snoc filter_empty_conv)
  qed
  ultimately have "kahn_inv C E ?deg (queue @ sort new) (order @ [name])"
    unfolding kahn_inv_def by blast
  then show ?thesis using r by blast
qed

text \<open>The loop ends, without a panic, in a state of the invariant with an empty queue.\<close>

lemma kahn_total:
  assumes "finite C"
    and succ: "\<And>d n. count_list (succ dep d) n = (if n \<in> C \<and> d \<in> C then count_list (E n) d else 0)"
    and "kahn_inv C E deg queue order"
  shows "\<exists>result deg'. kahn dep deg queue order = Some result \<and> kahn_inv C E deg' [] result"
  using assms(3)
proof (induction "card (C - set order)" arbitrary: deg queue order rule: less_induct)
  case less
  show ?case
  proof (cases queue)
    case Nil
    with less.prems show ?thesis by (auto simp: kahn_step(1))
  next
    case (Cons name rest)
    obtain deg' new where r: "release (succ dep name) deg [] = Some (deg', new)"
      and inv: "kahn_inv C E deg' (rest @ sort new) (order @ [name])"
      using kahn_inv_step [OF less.prems [unfolded Cons] succ] by blast
    have "name \<in> C - set order" using less.prems by (auto simp: Cons kahn_inv_def)
    then have "card (C - set (order @ [name])) < card (C - set order)"
      using assms(1) by (intro psubset_card_mono) auto
    from less.hyps [OF this inv] show ?thesis by (simp add: Cons kahn_step(2) r)
  qed
qed

text \<open>What is left over when the queue is empty contains a cycle.\<close>

definition dep_edges :: "string set \<Rightarrow> edges \<Rightarrow> (string \<times> string) set" where
  "dep_edges S deps = {(d, n). n \<in> S \<and> d \<in> set (deps_in S deps n)}"

lemma finite_dep_edges: "finite S \<Longrightarrow> finite (dep_edges S deps)"
  by (rule finite_subset [of _ "S \<times> S"]) (use deps_in_subset in \<open>auto simp: dep_edges_def\<close>)

lemma deps_first_acyclic:
  assumes "deps_first (deps_in S deps) xs" "set xs = S" "distinct xs"
  shows "acyclic (dep_edges S deps)"
proof -
  have "\<forall>x \<in> set xs. \<exists>i < length xs. xs ! i = x" by (simp add: in_set_conv_nth)
  then obtain pos where p: "\<And>x. x \<in> set xs \<Longrightarrow> pos x < length xs \<and> xs ! pos x = x" by metis
  have pos: "pos (xs ! i) = i" if "i < length xs" for i
    using that p [of "xs ! i"] nth_eq_iff_index_eq [OF assms(3), of "pos (xs ! i)" i] by simp
  have "dep_edges S deps \<subseteq> measure pos"
  proof (intro subrelI)
    fix d n
    assume "(d, n) \<in> dep_edges S deps"
    then have n: "n \<in> set xs" and d: "d \<in> set (deps_in S deps n)"
      using assms(2) by (auto simp: dep_edges_def)
    from n obtain i where i: "i < length xs" "xs ! i = n" by (auto simp: in_set_conv_nth)
    with d assms(1) have "d \<in> set (take i xs)" by (auto simp: deps_first_def)
    then obtain j where "j < i" "j < length xs" "xs ! j = d"
      by (auto simp: in_set_conv_nth)
    then show "(d, n) \<in> measure pos" using i pos by auto
  qed
  then show ?thesis using acyclic_subset wf_acyclic wf_measure by blast
qed

lemma leftover_cycle:
  assumes "kahn_inv S (deps_in S deps) deg [] order" "finite S" "acyclic (dep_edges S deps)"
  shows "set order = S"
proof (rule ccontr)
  assume "set order \<noteq> S"
  moreover have "set order \<subseteq> S" using assms(1) unfolding kahn_inv_def append_Nil2 by blast
  ultimately obtain n where n: "n \<in> S - set order" by blast
  have wf: "wf (dep_edges S deps)"
    using finite_acyclic_wf [OF finite_dep_edges [OF assms(2)] assms(3)] .
  obtain m where m: "m \<in> S - set order"
    and least: "\<And>d. (d, m) \<in> dep_edges S deps \<Longrightarrow> d \<notin> S - set order"
    by (rule wfE_min [OF wf n]) (rule that)
  have zero: "set order = {n \<in> S. deg n = Some 0}"
    and deg: "\<forall>n \<in> S. deg n = Some (length (filter (\<lambda>d. d \<notin> set order) (deps_in S deps n)))"
    using assms(1) unfolding kahn_inv_def append_Nil2 by blast+
  have "deg m \<noteq> Some 0" using m unfolding zero by blast
  moreover have "deg m = Some (length (filter (\<lambda>d. d \<notin> set order) (deps_in S deps m)))"
    using deg m by blast
  ultimately have "filter (\<lambda>d. d \<notin> set order) (deps_in S deps m) \<noteq> []" by auto
  then obtain d where "d \<in> set (deps_in S deps m)" "d \<notin> set order"
    by (auto simp: filter_empty_conv)
  then show False using least [of d] m deps_in_subset [of S deps m] by (auto simp: dep_edges_def)
qed

lemma topological_sort_run:
  assumes "distinct crates" and "mset ks = mset crates"
  shows "\<exists>order deg. topological_sort ks crates deps =
      Some (if length order \<noteq> length crates
            then Err (circular_text (length order) (length crates)) else Ok order) \<and>
    kahn_inv (set crates) (deps_in (set crates) deps) deg [] order"
proof -
  let ?C = "set crates" and ?E = "deps_in (set crates) deps"
  obtain deg dep where g: "build_graph ?C deps crates (Map.empty, Map.empty) = (deg, dep)" by force
  have deg: "deg n = (if n \<in> ?C then Some (length (?E n)) else None)" for n
    using build_graph_deg [OF assms(1), of Map.empty ?C deps Map.empty n] by (simp add: g)
  have cnt: "count_list (?E n) d = (if d \<in> ?C then count_list (succ deps n) d else 0)" for n d
    by (simp add: deps_in_def count_list_filter)
  have "count_list (succ dep d) n = (if n \<in> ?C \<and> d \<in> ?C then count_list (?E n) d else 0)" for d n
    using build_graph_succ [OF assms(1), of ?C deps Map.empty Map.empty d n]
    by (simp add: g cnt) (simp add: succ_def)
  moreover have "set ks = ?C" "distinct ks"
    using assms by (metis mset_eq_setD, metis mset_eq_imp_distinct_iff)
  then have "kahn_inv ?C ?E deg (sort (filter (\<lambda>k. deg k = Some 0) ks)) []"
    by (auto simp: kahn_inv_def deps_first_def deg)
  ultimately obtain order deg' where "kahn dep deg (sort (filter (\<lambda>k. deg k = Some 0) ks)) [] = Some order"
    "kahn_inv ?C ?E deg' [] order"
    using kahn_total [of ?C dep ?E deg] by blast
  then show ?thesis by (intro exI [of _ order] exI [of _ deg']) (simp add: topological_sort_def g)
qed

lemma topological_sort_independent:
  assumes "mset ks = mset ls"
  shows "topological_sort ks crates deps = topological_sort ls crates deps"
proof -
  have "sort (filter P ks) = sort (filter P ls)" for P
    using assms by (metis mset_filter sorted_list_of_multiset_mset)
  then show ?thesis by (simp add: topological_sort_def)
qed

section \<open>From packages to the order\<close>

lemma build_workspace_deps_notin:
  "name \<notin> set (map pkg_name ps) \<Longrightarrow>
   foldl (\<lambda>m p. m(pkg_name p \<mapsto> g p)) m ps name = m name"
  by (induction ps arbitrary: m) auto

lemma fold_deps_lookup:
  "distinct (map pkg_name ps) \<Longrightarrow> p \<in> set ps \<Longrightarrow>
   foldl (\<lambda>m p. m(pkg_name p \<mapsto> g p)) m ps (pkg_name p) = Some (g p)"
  by (induction ps arbitrary: m) (auto simp: build_workspace_deps_notin)

lemma set_deps_loop:
  "set (deps_loop S pm ds) =
     dep_name ` {d \<in> set ds. dep_kind d \<noteq> Development \<and> dep_name d \<in> S \<and> pm (dep_name d) \<noteq> None}"
  by (induction ds) auto

lemma package_map_mem: "p \<in> set members \<Longrightarrow> package_map members (pkg_name p) \<noteq> None"
  by (auto simp: package_map_def map_of_eq_None_iff image_image)

lemma package_map_Some: "package_map members name = Some p \<Longrightarrow> p \<in> set members \<and> pkg_name p = name"
  unfolding package_map_def by (drule map_of_SomeD) auto

lemma named_packages_members:
  "named_packages (package_map members) names = Ok ps \<Longrightarrow>
     set ps \<subseteq> set members \<and> map pkg_name ps = names"
  by (induction names arbitrary: ps)
    (auto simp: result_simps ok_or_def package_map_Some split: option.splits)

lemma select_packages_members: "select_packages members names = Ok ps \<Longrightarrow> set ps \<subseteq> set members"
  using named_packages_members by (auto simp: select_packages_def split: if_splits)

lemma workspace_deps_of:
  assumes "distinct (map pkg_name ps)" "set ps \<subseteq> set members" "p \<in> set ps"
  shows "set (deps_in (set (map pkg_name ps)) (build_workspace_deps ps (package_map members)) (pkg_name p)) =
    dep_name ` {d \<in> set (pkg_dependencies p). dep_kind d \<noteq> Development \<and>
      dep_name d \<in> set (map pkg_name ps)}"
proof -
  have "package_map members name \<noteq> None" if "name \<in> set (map pkg_name ps)" for name
    using that assms(2) package_map_mem by auto
  moreover have "build_workspace_deps ps (package_map members) (pkg_name p) =
      Some (deps_loop (set (map pkg_name ps)) (package_map members) (pkg_dependencies p))"
    unfolding build_workspace_deps_def by (rule fold_deps_lookup [OF assms(1,3)])
  ultimately show ?thesis by (simp add: deps_in_def succ_def) (auto simp: set_deps_loop)
qed

lemma topological_sort_correct:
  assumes "distinct crates" and "mset ks = mset crates"
  shows "(acyclic (dep_edges (set crates) deps) \<longrightarrow>
      (\<exists>order. topological_sort ks crates deps = Some (Ok order) \<and>
        mset order = mset crates \<and> deps_first (deps_in (set crates) deps) order)) \<and>
    (\<not> acyclic (dep_edges (set crates) deps) \<longrightarrow>
      (\<exists>n < length crates.
        topological_sort ks crates deps = Some (Err (circular_text n (length crates))))) \<and>
    topological_sort ks crates deps = topological_sort crates crates deps"
proof -
  obtain order deg where r: "topological_sort ks crates deps =
      Some (if length order \<noteq> length crates
            then Err (circular_text (length order) (length crates)) else Ok order)"
    and inv: "kahn_inv (set crates) (deps_in (set crates) deps) deg [] order"
    using topological_sort_run [OF assms] by blast
  from inv have order: "distinct order" "set order \<subseteq> set crates"
    and first: "deps_first (deps_in (set crates) deps) order"
    unfolding kahn_inv_def append_Nil2 by blast+
  have all: "length order = length crates \<longleftrightarrow> set order = set crates"
    using assms(1) order by (metis card_subset_eq distinct_card finite_set)
  have "mset order = mset crates" if "set order = set crates"
    using that order(1) assms(1) by (simp add: set_eq_iff_mset_eq_distinct)
  moreover have "acyclic (dep_edges (set crates) deps) \<longleftrightarrow> set order = set crates"
    using leftover_cycle [OF inv] deps_first_acyclic [OF first _ order(1)] by blast
  moreover have "length order \<le> length crates"
    using card_mono [OF finite_set order(2)] distinct_card [OF order(1)] distinct_card [OF assms(1)]
    by simp
  ultimately show ?thesis
    using r all first topological_sort_independent [OF assms(2)] by (auto simp: le_less)
qed

section \<open>Properties\<close>

text \<open>
  C5: the publish order never panics and always ends. Without a dependency cycle it lists exactly
  the given crates, each after all its dependencies among them; with a cycle it is the circular
  dependency error. The iteration order of the hash map does not matter.
\<close>

theorem publish_order_correct:
  assumes "distinct crates" and "mset ks = mset crates"
  shows "(acyclic (dep_edges (set crates) deps) \<longrightarrow>
      (\<exists>order. topological_sort ks crates deps = Some (Ok order) \<and>
        mset order = mset crates \<and> deps_first (deps_in (set crates) deps) order)) \<and>
    (\<not> acyclic (dep_edges (set crates) deps) \<longrightarrow>
      (\<exists>n < length crates.
        topological_sort ks crates deps = Some (Err (circular_text n (length crates))))) \<and>
    topological_sort ks crates deps = topological_sort crates crates deps"
  using assms by (rule topological_sort_correct)

definition demo_deps :: edges where
  "demo_deps = [''app'' \<mapsto> [''lib'', ''util''], ''lib'' \<mapsto> [''util'', ''serde'']]"

theorem publish_order_correct_witness:
  "\<exists>order. topological_sort [''lib'', ''app'', ''util''] [''app'', ''lib'', ''util''] demo_deps =
      Some (Ok order) \<and> mset order = mset [''app'', ''lib'', ''util''] \<and>
    deps_first (deps_in (set [''app'', ''lib'', ''util'']) demo_deps) order"
proof -
  have "distinct [''app'', ''lib'', ''util'']"
    and "mset [''lib'', ''app'', ''util''] = mset [''app'', ''lib'', ''util'']" by simp_all
  moreover have "acyclic (dep_edges (set [''app'', ''lib'', ''util'']) demo_deps)"
    by (rule deps_first_acyclic [of _ _ "[''util'', ''lib'', ''app'']"])
      (auto simp: deps_first_def less_Suc_eq deps_in_def succ_def demo_deps_def)
  ultimately show ?thesis using publish_order_correct by blast
qed

text \<open>
  a run that finds an order publishes every selected package once, and each of its normal and
  build dependencies on another selected package before it; development dependencies are ignored.
\<close>

theorem dependencies_published_first:
  assumes "select_packages members packages = Ok ps" and "distinct (map pkg_name ps)"
    and "mset ks = mset (map pkg_name ps)"
    and "publish_order ks members packages = Some (Ok order)"
    and "p \<in> set ps" and "d \<in> set (pkg_dependencies p)" and "dep_kind d \<noteq> Development"
    and "dep_name d \<in> set (map pkg_name ps)"
  shows "mset order = mset (map pkg_name ps) \<and>
    (\<exists>before between after. order = before @ dep_name d # between @ pkg_name p # after)"
proof -
  let ?names = "map pkg_name ps" and ?deps = "build_workspace_deps ps (package_map members)"
  have "topological_sort ks ?names ?deps = Some (Ok order)"
    using assms(1,4,5) by (cases ps) (simp_all add: publish_order_def)
  with topological_sort_correct [OF assms(2,3), of ?deps]
  have perm: "mset order = mset ?names" and first: "deps_first (deps_in (set ?names) ?deps) order"
    by auto
  have "pkg_name p \<in> set order" using perm assms(5) by (metis image_eqI image_set set_mset_mset)
  then obtain i where i: "i < length order" "order ! i = pkg_name p" by (auto simp: in_set_conv_nth)
  have "dep_name d \<in> set (deps_in (set ?names) ?deps (pkg_name p))"
    using workspace_deps_of [OF assms(2) select_packages_members [OF assms(1)] assms(5)] assms(6-8)
    by auto
  with first i have "dep_name d \<in> set (take i order)" unfolding deps_first_def by (metis subsetD)
  then obtain before between where "take i order = before @ dep_name d # between"
    by (meson split_list)
  then have "order = before @ dep_name d # between @ pkg_name p # drop (Suc i) order"
    using id_take_nth_drop [OF i(1)] i(2) by simp
  with perm show ?thesis by blast
qed

definition demo_dep :: "string \<Rightarrow> dependency" where
  "demo_dep name =
     \<lparr>dep_name = name, dep_kind = Normal, dep_rename = None, dep_registry = None, dep_req = ''*'',
      dep_features = [], dep_optional = False, dep_uses_default_features = True, dep_target = None\<rparr>"

definition demo_pkg :: "string \<Rightarrow> string list \<Rightarrow> package" where
  "demo_pkg name deps =
     \<lparr>pkg_name = name, pkg_version = ''0.1.0'', pkg_publish = None,
      pkg_dependencies = map demo_dep deps, pkg_features = []\<rparr>"

definition demo_members :: "package list" where
  "demo_members = [demo_pkg ''app'' [''lib''], demo_pkg ''lib'' []]"

lemma demo_order:
  "publish_order [''lib'', ''app''] demo_members [] = Some (Ok [''lib'', ''app''])"
  by (simp add: publish_order_def select_packages_def demo_members_def demo_pkg_def demo_dep_def
      is_publishable_def package_map_def build_workspace_deps_def topological_sort_def bump_def
      or_zero_def push_to_def Let_def kahn_step succ_def build_graph.simps)

theorem dependencies_published_first_witness:
  "mset [''lib'', ''app''] = mset (map pkg_name demo_members) \<and>
    (\<exists>before between after. [''lib'', ''app''] = before @ ''lib'' # between @ ''app'' # after)"
  using dependencies_published_first
    [of demo_members "[]" demo_members "[''lib'', ''app'']" "[''lib'', ''app'']"
      "demo_pkg ''app'' [''lib'']" "demo_dep ''lib''", OF _ _ _ demo_order]
  by (simp add: select_packages_def demo_members_def demo_pkg_def demo_dep_def is_publishable_def)

text \<open>
  Naming a package twice is reported as a circular dependency: the crate is counted twice among
  the requested ones but sorted once.
\<close>

lemma named_twice_is_circular:
  "publish_order [''lib''] demo_members [''lib'', ''lib''] = Some (Err (circular_text 1 2))"
  by (simp add: publish_order_def select_packages_def demo_members_def demo_pkg_def
      package_map_def build_workspace_deps_def topological_sort_def bump_def
      or_zero_def push_to_def Let_def kahn_step succ_def build_graph.simps numeral_2_eq_2)

end
