(* ===== verification/HttpApi.thy ===== *)
theory HttpApi
  imports GatewayTypes Json
begin

text \<open>
  \<open>api/http.rs\<close>: methods, the client configuration, requests with their builders, bodies,
  responses and authentication. JSON conversion of other types is \<open>serde_json\<close>'s and a
  parameter.
\<close>

datatype http_method = Get | Post | Put | Patch | Delete | Head | Options

definition http_method_default :: http_method where
  "http_method_default = Get"

fun http_method_display :: "http_method \<Rightarrow> string" where
  "http_method_display Get = ''GET''"
| "http_method_display Post = ''POST''"
| "http_method_display Put = ''PUT''"
| "http_method_display Patch = ''PATCH''"
| "http_method_display Delete = ''DELETE''"
| "http_method_display Head = ''HEAD''"
| "http_method_display Options = ''OPTIONS''"

record http_config =
  htc_base_url :: "string option"
  htc_timeout_secs :: u64
  htc_connect_timeout_secs :: u64
  htc_max_retries :: u32
  htc_default_headers :: "string \<rightharpoonup> string"
  htc_follow_redirects :: bool
  htc_max_redirects :: u32
  htc_user_agent :: "string option"

definition http_config_default :: http_config where
  "http_config_default =
     \<lparr>htc_base_url = None, htc_timeout_secs = 30, htc_connect_timeout_secs = 10,
      htc_max_retries = 3, htc_default_headers = Map.empty, htc_follow_redirects = True,
      htc_max_redirects = 10, htc_user_agent = Some ''swe-gateway/0.1.0''\<rparr>"

definition htc_with_base_url :: "string \<Rightarrow> http_config" where
  "htc_with_base_url base_url = http_config_default\<lparr>htc_base_url := Some base_url\<rparr>"

definition htc_with_header :: "string \<Rightarrow> string \<Rightarrow> http_config \<Rightarrow> http_config" where
  "htc_with_header name v c = c\<lparr>htc_default_headers := (htc_default_headers c)(name \<mapsto> v)\<rparr>"

definition htc_with_timeout :: "u64 \<Rightarrow> http_config \<Rightarrow> http_config" where
  "htc_with_timeout secs c = c\<lparr>htc_timeout_secs := secs\<rparr>"

record form_part =
  fp_name :: string
  fp_filename :: "string option"
  fp_content_type :: "string option"
  fp_data :: string

datatype http_body =
    Json json
  | Raw string
  | Form "string \<rightharpoonup> string"
  | Multipart "form_part list"

text \<open>Durations are nanoseconds.\<close>

record http_request =
  hrq_method :: http_method
  hrq_url :: string
  hrq_headers :: "string \<rightharpoonup> string"
  hrq_query :: "string \<rightharpoonup> string"
  hrq_body :: "http_body option"
  hrq_timeout :: "nat option"

definition http_get :: "string \<Rightarrow> http_request" where
  "http_get url =
     \<lparr>hrq_method = Get, hrq_url = url, hrq_headers = Map.empty, hrq_query = Map.empty,
      hrq_body = None, hrq_timeout = None\<rparr>"

definition http_post :: "string \<Rightarrow> http_request" where
  "http_post url =
     \<lparr>hrq_method = Post, hrq_url = url, hrq_headers = Map.empty, hrq_query = Map.empty,
      hrq_body = None, hrq_timeout = None\<rparr>"

definition http_put :: "string \<Rightarrow> http_request" where
  "http_put url =
     \<lparr>hrq_method = Put, hrq_url = url, hrq_headers = Map.empty, hrq_query = Map.empty,
      hrq_body = None, hrq_timeout = None\<rparr>"

definition http_delete :: "string \<Rightarrow> http_request" where
  "http_delete url =
     \<lparr>hrq_method = Delete, hrq_url = url, hrq_headers = Map.empty, hrq_query = Map.empty,
      hrq_body = None, hrq_timeout = None\<rparr>"

definition hrq_with_header :: "string \<Rightarrow> string \<Rightarrow> http_request \<Rightarrow> http_request" where
  "hrq_with_header name v r = r\<lparr>hrq_headers := (hrq_headers r)(name \<mapsto> v)\<rparr>"

definition hrq_with_query :: "string \<Rightarrow> string \<Rightarrow> http_request \<Rightarrow> http_request" where
  "hrq_with_query name v r = r\<lparr>hrq_query := (hrq_query r)(name \<mapsto> v)\<rparr>"

text \<open>\<open>to_value\<close> converts the body; an error leaves no request.\<close>

definition hrq_with_json ::
  "('b \<Rightarrow> (json, 'e) result) \<Rightarrow> 'b \<Rightarrow> http_request \<Rightarrow> (http_request, 'e) result" where
  "hrq_with_json to_value body r =
     map_ok (\<lambda>v. r\<lparr>hrq_body := Some (Json v),
                   hrq_headers := (hrq_headers r)(''Content-Type'' \<mapsto> ''application/json'')\<rparr>)
       (to_value body)"

definition hrq_with_body :: "string \<Rightarrow> string \<Rightarrow> http_request \<Rightarrow> http_request" where
  "hrq_with_body body content_type r =
     r\<lparr>hrq_body := Some (Raw body),
       hrq_headers := (hrq_headers r)(''Content-Type'' \<mapsto> content_type)\<rparr>"

definition hrq_with_form :: "(string \<rightharpoonup> string) \<Rightarrow> http_request \<Rightarrow> http_request" where
  "hrq_with_form form r =
     r\<lparr>hrq_body := Some (Form form),
       hrq_headers :=
         (hrq_headers r)(''Content-Type'' \<mapsto> ''application/x-www-form-urlencoded'')\<rparr>"

definition hrq_with_timeout :: "nat \<Rightarrow> http_request \<Rightarrow> http_request" where
  "hrq_with_timeout t r = r\<lparr>hrq_timeout := Some t\<rparr>"

record http_response =
  hrs_status :: u16
  hrs_headers :: "string \<rightharpoonup> string"
  hrs_body :: string

definition http_response_new :: "u16 \<Rightarrow> string \<Rightarrow> http_response" where
  "http_response_new status body =
     \<lparr>hrs_status = status, hrs_headers = Map.empty, hrs_body = body\<rparr>"

definition is_success :: "http_response \<Rightarrow> bool" where
  "is_success r \<longleftrightarrow> 200 \<le> hrs_status r \<and> hrs_status r < 300"

definition is_client_error :: "http_response \<Rightarrow> bool" where
  "is_client_error r \<longleftrightarrow> 400 \<le> hrs_status r \<and> hrs_status r < 500"

definition is_server_error :: "http_response \<Rightarrow> bool" where
  "is_server_error r \<longleftrightarrow> 500 \<le> hrs_status r \<and> hrs_status r < 600"

definition response_json :: "(string \<Rightarrow> ('t, 'e) result) \<Rightarrow> http_response \<Rightarrow> ('t, 'e) result" where
  "response_json from_slice r = from_slice (hrs_body r)"

text \<open>Valid UTF-8 is the standard library's \<open>from_utf8\<close>, here a predicate on the bytes.\<close>

definition response_text :: "(string \<Rightarrow> bool) \<Rightarrow> http_response \<Rightarrow> (string, string) result" where
  "response_text valid_utf8 r =
     (if valid_utf8 (hrs_body r) then Ok (hrs_body r) else Err (hrs_body r))"

definition response_header :: "string \<Rightarrow> http_response \<Rightarrow> string option" where
  "response_header name r =
     (case hrs_headers r name of Some v \<Rightarrow> Some v | None \<Rightarrow> hrs_headers r (to_lowercase name))"

datatype http_auth =
    NoAuth
  | Bearer string
  | Basic string string
  | ApiKey string string

definition http_auth_default :: http_auth where
  "http_auth_default = NoAuth"

definition auth_bearer :: "string \<Rightarrow> http_auth" where
  "auth_bearer token = Bearer token"

definition auth_basic :: "string \<Rightarrow> string \<Rightarrow> http_auth" where
  "auth_basic username password = Basic username password"

definition auth_api_key :: "string \<Rightarrow> string \<Rightarrow> http_auth" where
  "auth_api_key header key = ApiKey header key"

end
