(* ===== verification/ConfigLoad.thy ===== *)
theory ConfigLoad
  imports DatabaseApi FileApi HttpApi NotificationApi PaymentApi FileSystem
begin

text \<open>
  \<open>saf/config.rs\<close>: the gateway configuration, the expansion of environment variables, loading,
  validation and the override methods. The environment is a map, TOML parsing belongs to the
  \<open>toml\<close> crate and is an argument.
\<close>

section \<open>Sinks\<close>

datatype sink_type = Stdout | File

definition sink_type_default :: sink_type where
  "sink_type_default = Stdout"

datatype sink_format = Text | JsonFormat

definition sink_format_default :: sink_format where
  "sink_format_default = Text"

record sink_config =
  sc_sink_type :: sink_type
  sc_format :: sink_format
  sc_path :: "string option"

definition sink_config_default :: sink_config where
  "sink_config_default = \<lparr>sc_sink_type = Stdout, sc_format = Text, sc_path = None\<rparr>"

section \<open>Errors\<close>

datatype config_error = Io io_error | Parse string | EnvVar string | Validation string

fun config_error_display :: "config_error \<Rightarrow> string" where
  "config_error_display (Io e) = ''failed to read config file: '' @ io_text e"
| "config_error_display (Parse e) = ''failed to parse TOML: '' @ e"
| "config_error_display (EnvVar name) = ''environment variable not found: '' @ name"
| "config_error_display (Validation m) = ''configuration validation failed: '' @ m"

type_synonym 'a config_result = "('a, config_error) result"

section \<open>The configuration\<close>

record gateway_config =
  gc_file :: file_storage_config
  gc_database :: database_config
  gc_http :: http_config
  gc_notification :: notification_config
  gc_payment :: payment_config
  gc_sink :: sink_config

definition gateway_config_default :: gateway_config where
  "gateway_config_default =
     \<lparr>gc_file = file_storage_config_default, gc_database = database_config_default,
      gc_http = http_config_default, gc_notification = notification_config_default,
      gc_payment = payment_config_default, gc_sink = sink_config_default\<rparr>"

section \<open>Environment variables\<close>

type_synonym environment = "string \<Rightarrow> string option"

text \<open>The name and default of the expression between the braces.\<close>

definition split_expr :: "string \<Rightarrow> string \<times> string option" where
  "split_expr var_expr =
     (case find_sub '':-'' var_expr of
        Some pos \<Rightarrow> (take pos var_expr, Some (drop (pos + 2) var_expr))
      | None \<Rightarrow> (var_expr, None))"

definition lookup_expr :: "environment \<Rightarrow> string \<Rightarrow> string config_result" where
  "lookup_expr env var_expr =
     (case split_expr var_expr of
        (var_name, default_val) \<Rightarrow>
          (case env var_name of
             Some val \<Rightarrow> Ok val
           | None \<Rightarrow> (case default_val of Some d \<Rightarrow> Ok d | None \<Rightarrow> Err (EnvVar var_name))))"

text \<open>
  The loop over the characters. After \<open>${\<close> everything up to the closing brace is the expression;
  without a closing brace the rest is reproduced.
\<close>

function (sequential) expand_env_vars :: "environment \<Rightarrow> string \<Rightarrow> string config_result" where
  "expand_env_vars env [] = Ok []"
| "expand_env_vars env (ch # s) =
     (if ch = CHR ''$'' \<and> s \<noteq> [] \<and> hd s = CHR ''{''
      then let var_expr = takeWhile (\<lambda>c. c \<noteq> CHR ''}'') (tl s);
               rest = dropWhile (\<lambda>c. c \<noteq> CHR ''}'') (tl s)
           in if rest = [] then Ok (''${'' @ var_expr)
              else and_then (lookup_expr env var_expr)
                     (\<lambda>val. map_ok (\<lambda>r. val @ r) (expand_env_vars env (tl rest)))
      else map_ok (\<lambda>r. ch # r) (expand_env_vars env s))"
  by pat_completeness auto
termination
proof (relation "measure (\<lambda>(env, s). length s)")
  fix env ch and s :: string and var_expr rest val
  assume c: "ch = CHR ''$'' \<and> s \<noteq> [] \<and> hd s = CHR ''{''"
    and rest: "rest = dropWhile (\<lambda>c. c \<noteq> CHR ''}'') (tl s)"
  have "length rest \<le> length (tl s)" unfolding rest by (rule length_dropWhile_le)
  then show "((env, tl rest), (env, ch # s)) \<in> measure (\<lambda>(env, s). length s)" by simp
qed auto

declare expand_env_vars.simps(2) [simp del]

definition expand_opt :: "environment \<Rightarrow> string option \<Rightarrow> string option config_result" where
  "expand_opt env field =
     (case field of
        Some val \<Rightarrow>
          if contains_sub val ''${'' then map_ok Some (expand_env_vars env val) else Ok field
      | None \<Rightarrow> Ok field)"

text \<open>One field after the other, in place: an error leaves the fields before it expanded.\<close>

type_synonym config_action = "gateway_config \<Rightarrow> unit config_result \<times> gateway_config"

definition expand_field ::
  "environment \<Rightarrow> (gateway_config \<Rightarrow> string option) \<Rightarrow>
   (string option \<Rightarrow> gateway_config \<Rightarrow> gateway_config) \<Rightarrow> config_action" where
  "expand_field env getter setter c =
     (case expand_opt env (getter c) of Ok v \<Rightarrow> (Ok (), setter v c) | Err e \<Rightarrow> (Err e, c))"

fun run_actions :: "config_action list \<Rightarrow> config_action" where
  "run_actions [] c = (Ok (), c)"
| "run_actions (a # actions) c =
     (case a c of (Ok _, c') \<Rightarrow> run_actions actions c' | (Err e, c') \<Rightarrow> (Err e, c'))"

definition expand_env :: "environment \<Rightarrow> config_action" where
  "expand_env env = run_actions
     [expand_field env (dc_connection_string \<circ> gc_database)
        (\<lambda>v. gc_database_update (dc_connection_string_update (\<lambda>_. v))),
      expand_field env (dc_password \<circ> gc_database)
        (\<lambda>v. gc_database_update (dc_password_update (\<lambda>_. v))),
      expand_field env (fc_access_key \<circ> gc_file)
        (\<lambda>v. gc_file_update (fc_access_key_update (\<lambda>_. v))),
      expand_field env (fc_secret_key \<circ> gc_file)
        (\<lambda>v. gc_file_update (fc_secret_key_update (\<lambda>_. v))),
      expand_field env (htc_base_url \<circ> gc_http)
        (\<lambda>v. gc_http_update (htc_base_url_update (\<lambda>_. v))),
      expand_field env (pc_api_key \<circ> gc_payment)
        (\<lambda>v. gc_payment_update (pc_api_key_update (\<lambda>_. v))),
      expand_field env (pc_secret_key \<circ> gc_payment)
        (\<lambda>v. gc_payment_update (pc_secret_key_update (\<lambda>_. v))),
      expand_field env (pc_webhook_secret \<circ> gc_payment)
        (\<lambda>v. gc_payment_update (pc_webhook_secret_update (\<lambda>_. v)))]"

section \<open>Loading\<close>

text \<open>\<open>toml\<close> is \<open>toml::from_str\<close> with the derived defaults.\<close>

definition load_config_from_str ::
  "(string \<Rightarrow> (gateway_config, string) result) \<Rightarrow> environment \<Rightarrow> string \<Rightarrow>
   gateway_config config_result" where
  "load_config_from_str toml env toml_str =
     and_then (expand_env_vars env toml_str)
       (\<lambda>expanded. and_then (map_err Parse (toml expanded))
         (\<lambda>config. case expand_env env config of
            (Ok _, config') \<Rightarrow> Ok config'
          | (Err e, _) \<Rightarrow> Err e))"

text \<open>\<open>read_to_string\<close> rejects contents that are not UTF-8.\<close>

definition utf8_error :: io_error where
  "utf8_error = \<lparr>io_kind = IoOther, io_text = ''stream did not contain valid UTF-8''\<rparr>"

definition read_to_string :: "(string \<Rightarrow> bool) \<Rightarrow> file_system \<Rightarrow> string \<Rightarrow> string io_result" where
  "read_to_string valid_utf8 fs p =
     and_then (read_all fs p) (\<lambda>c. if valid_utf8 c then Ok c else Err utf8_error)"

definition load_config_from ::
  "(string \<Rightarrow> bool) \<Rightarrow> (string \<Rightarrow> (gateway_config, string) result) \<Rightarrow> environment \<Rightarrow>
   file_system \<Rightarrow> string \<Rightarrow> gateway_config config_result" where
  "load_config_from valid_utf8 toml env fs path =
     and_then (map_err Io (read_to_string valid_utf8 fs path)) (load_config_from_str toml env)"

definition is_file :: "file_system \<Rightarrow> string \<Rightarrow> bool" where
  "is_file fs p = (case find_node fs p of Ok (loc, FileNode _) \<Rightarrow> True | _ \<Rightarrow> False)"

text \<open>The search from a directory upwards; \<open>PathBuf::pop\<close> goes to the parent.\<close>

function search_config ::
  "(string \<Rightarrow> bool) \<Rightarrow> (string \<Rightarrow> (gateway_config, string) result) \<Rightarrow> environment \<Rightarrow>
   file_system \<Rightarrow> string \<Rightarrow> gateway_config config_result" where
  "search_config valid_utf8 toml env fs dir =
     (let candidate = path_join dir ''gateway.toml'' in
      if is_file fs candidate then load_config_from valid_utf8 toml env fs candidate
      else case path_parent dir of
        None \<Rightarrow> Ok gateway_config_default
      | Some dir' \<Rightarrow> search_config valid_utf8 toml env fs dir')"
  by auto
termination
  by (relation "measure (\<lambda>(valid_utf8, toml, env, fs, dir). length dir)") (auto dest: path_parent_shorter)

declare search_config.simps [simp del]

definition load_config ::
  "(string \<Rightarrow> bool) \<Rightarrow> (string \<Rightarrow> (gateway_config, string) result) \<Rightarrow> environment \<Rightarrow>
   file_system \<Rightarrow> string io_result \<Rightarrow> gateway_config config_result" where
  "load_config valid_utf8 toml env fs current_dir =
     and_then (map_err Io current_dir) (search_config valid_utf8 toml env fs)"

section \<open>Validation\<close>

fun database_type_debug :: "database_type \<Rightarrow> string" where
  "database_type_debug database_type.Memory = ''Memory''"
| "database_type_debug Postgres = ''Postgres''"
| "database_type_debug MySql = ''MySql''"
| "database_type_debug Sqlite = ''Sqlite''"
| "database_type_debug MongoDb = ''MongoDb''"

fun file_storage_type_debug :: "file_storage_type \<Rightarrow> string" where
  "file_storage_type_debug Local = ''Local''"
| "file_storage_type_debug S3 = ''S3''"
| "file_storage_type_debug Gcs = ''Gcs''"
| "file_storage_type_debug Azure = ''Azure''"
| "file_storage_type_debug file_storage_type.Memory = ''Memory''"

fun payment_provider_debug :: "payment_provider \<Rightarrow> string" where
  "payment_provider_debug Mock = ''Mock''"
| "payment_provider_debug Stripe = ''Stripe''"
| "payment_provider_debug PayPal = ''PayPal''"
| "payment_provider_debug Square = ''Square''"
| "payment_provider_debug Braintree = ''Braintree''"

definition filled :: "string option \<Rightarrow> bool" where
  "filled v \<longleftrightarrow> v \<noteq> None \<and> v \<noteq> Some []"

definition quoted :: "string \<Rightarrow> string" where
  "quoted s = [CHR 0x27] @ s @ [CHR 0x27]"

definition check_database :: "database_config \<Rightarrow> string list" where
  "check_database c =
     (case dc_database_type c of
        database_type.Memory \<Rightarrow> []
      | t \<Rightarrow>
          let has_conn_str = filled (dc_connection_string c);
              has_host_and_db = filled (dc_host c) \<and> filled (dc_database c)
          in if \<not> has_conn_str \<and> \<not> has_host_and_db
             then [''[database] '' @ database_type_debug t @ '' requires '' @
                   quoted ''connection_string'' @ '' or both '' @ quoted ''host'' @ '' and '' @
                   quoted ''database'']
             else [])"

definition check_file :: "file_storage_config \<Rightarrow> string list" where
  "check_file c =
     (if fc_storage_type c \<in> {S3, Gcs, Azure} \<and> \<not> filled (fc_region c)
      then [''[file] '' @ file_storage_type_debug (fc_storage_type c) @ '' storage requires '' @
            quoted ''region'']
      else [])"

definition check_payment :: "payment_config \<Rightarrow> string list" where
  "check_payment c =
     (if pc_provider c \<noteq> Mock \<and> \<not> filled (pc_api_key c)
      then [''[payment] '' @ payment_provider_debug (pc_provider c) @ '' provider requires '' @
            quoted ''api_key'']
      else [])"

definition check_sink :: "sink_config \<Rightarrow> string list" where
  "check_sink c =
     (if sc_sink_type c = File \<and> \<not> filled (sc_path c)
      then [''[sink] File sink requires '' @ quoted ''path''] else [])"

definition missing_fields :: "gateway_config \<Rightarrow> string list" where
  "missing_fields c =
     check_database (gc_database c) @ check_file (gc_file c) @ check_payment (gc_payment c) @
     check_sink (gc_sink c)"

definition newline_item :: string where
  "newline_item = CHR 0x0A # ''  - ''"

definition validate :: "gateway_config \<Rightarrow> unit config_result" where
  "validate c =
     (if missing_fields c = [] then Ok ()
      else Err (Validation (''missing required fields:'' @ newline_item @
                  join_with newline_item (missing_fields c))))"

section \<open>Overrides\<close>

definition with_file :: "(file_storage_config \<Rightarrow> file_storage_config) \<Rightarrow> gateway_config \<Rightarrow> gateway_config" where
  "with_file f c = c\<lparr>gc_file := f (gc_file c)\<rparr>"

definition with_database :: "(database_config \<Rightarrow> database_config) \<Rightarrow> gateway_config \<Rightarrow> gateway_config" where
  "with_database f c = c\<lparr>gc_database := f (gc_database c)\<rparr>"

definition with_http :: "(http_config \<Rightarrow> http_config) \<Rightarrow> gateway_config \<Rightarrow> gateway_config" where
  "with_http f c = c\<lparr>gc_http := f (gc_http c)\<rparr>"

definition with_notification ::
  "(notification_config \<Rightarrow> notification_config) \<Rightarrow> gateway_config \<Rightarrow> gateway_config" where
  "with_notification f c = c\<lparr>gc_notification := f (gc_notification c)\<rparr>"

definition with_payment :: "(payment_config \<Rightarrow> payment_config) \<Rightarrow> gateway_config \<Rightarrow> gateway_config" where
  "with_payment f c = c\<lparr>gc_payment := f (gc_payment c)\<rparr>"

definition with_sink :: "(sink_config \<Rightarrow> sink_config) \<Rightarrow> gateway_config \<Rightarrow> gateway_config" where
  "with_sink f c = c\<lparr>gc_sink := f (gc_sink c)\<rparr>"

section \<open>Templates\<close>

text \<open>
  The reference semantics of expansion: a text is a sequence of literals and references; a
  reference is written \<open>${NAME}\<close> or \<open>${NAME:-default}\<close>.
\<close>

datatype piece = Literal string | Reference string "string option"

fun piece_source :: "piece \<Rightarrow> string" where
  "piece_source (Literal s) = s"
| "piece_source (Reference name None) = ''${'' @ name @ ''}''"
| "piece_source (Reference name (Some d)) = ''${'' @ name @ '':-'' @ d @ ''}''"

fun piece_ok :: "piece \<Rightarrow> bool" where
  "piece_ok (Literal s) \<longleftrightarrow> CHR ''$'' \<notin> set s"
| "piece_ok (Reference name d) \<longleftrightarrow>
     CHR ''}'' \<notin> set name \<and> \<not> contains_sub name '':-'' \<and>
     (case d of Some v \<Rightarrow> CHR ''}'' \<notin> set v | None \<Rightarrow> True)"

fun eval_piece :: "environment \<Rightarrow> piece \<Rightarrow> string config_result" where
  "eval_piece env (Literal s) = Ok s"
| "eval_piece env (Reference name d) =
     (case env name of
        Some val \<Rightarrow> Ok val
      | None \<Rightarrow> (case d of Some v \<Rightarrow> Ok v | None \<Rightarrow> Err (EnvVar name)))"

fun eval_pieces :: "environment \<Rightarrow> piece list \<Rightarrow> string config_result" where
  "eval_pieces env [] = Ok []"
| "eval_pieces env (p # ps) =
     and_then (eval_piece env p) (\<lambda>val. map_ok (\<lambda>r. val @ r) (eval_pieces env ps))"

lemma expand_literal:
  "CHR ''$'' \<notin> set s \<Longrightarrow>
   expand_env_vars env (s @ t) = map_ok (\<lambda>r. s @ r) (expand_env_vars env t)"
proof (induction s)
  case Nil
  then show ?case by (cases "expand_env_vars env t") auto
next
  case (Cons c s)
  then show ?case
    by (cases "expand_env_vars env t") (auto simp: expand_env_vars.simps(2))
qed

lemma takeWhile_until: "x \<notin> set a \<Longrightarrow> takeWhile (\<lambda>c. c \<noteq> x) (a @ x # b) = a"
  by (induction a) auto

lemma dropWhile_until: "x \<notin> set a \<Longrightarrow> dropWhile (\<lambda>c. c \<noteq> x) (a @ x # b) = x # b"
  by (induction a) auto

lemma expand_reference:
  assumes "CHR ''}'' \<notin> set e"
  shows "expand_env_vars env (''${'' @ e @ ''}'' @ t) =
    and_then (lookup_expr env e) (\<lambda>val. map_ok (\<lambda>r. val @ r) (expand_env_vars env t))"
  using takeWhile_until [OF assms, of t] dropWhile_until [OF assms, of t]
  by (simp add: expand_env_vars.simps(2) Let_def)

lemma find_sub_first:
  assumes "\<not> contains_sub name '':-''"
  shows "find_sub '':-'' (name @ '':-'' @ d) = Some (length name)"
  using assms
proof (induction name)
  case Nil
  then show ?case by (simp add: find_sub.simps [of "'':-''"] starts_with_def)
next
  case (Cons c name)
  have "\<not> contains_sub name '':-''" "\<not> starts_with (c # name) '':-''"
    using Cons.prems unfolding contains_sub_iff starts_with_iff by (metis append_Cons append_Nil)+
  moreover have "\<not> starts_with (c # name @ '':-'' @ d) '':-''"
    using calculation(2) by (cases name) (auto simp: starts_with_def)
  ultimately show ?case using Cons.IH by (simp add: find_sub.simps [of _ "c # _"])
qed

lemma lookup_reference:
  assumes "\<not> contains_sub name '':-''"
  shows "lookup_expr env name = eval_piece env (Reference name None)"
    and "lookup_expr env (name @ '':-'' @ d) = eval_piece env (Reference name (Some d))"
  using assms find_sub_first [OF assms, of d]
  by (simp_all add: lookup_expr_def split_expr_def contains_sub_def split: option.split)

lemma expand_piece:
  assumes "piece_ok p"
  shows "expand_env_vars env (piece_source p @ t) =
    and_then (eval_piece env p) (\<lambda>val. map_ok (\<lambda>r. val @ r) (expand_env_vars env t))"
proof (cases p)
  case (Literal s)
  with assms show ?thesis by (simp add: expand_literal)
next
  case (Reference name d)
  show ?thesis
  proof (cases d)
    case None
    with assms Reference expand_reference [of name env t] show ?thesis
      by (simp add: lookup_reference(1))
  next
    case (Some v)
    with assms Reference have "CHR ''}'' \<notin> set (name @ '':-'' @ v)" by simp
    from expand_reference [OF this, of env t] Some assms Reference show ?thesis
      using lookup_reference(2) [of name env v] by simp
  qed
qed

section \<open>Properties\<close>

text \<open>
  C24: a text made of literals without \<open>$\<close> and well-formed references expands to its literals and
  the values of its references, in order: a set variable gives its value, which is not expanded
  again, an unset one its default; the first unset variable without a default is the error.
\<close>

theorem expansion_follows_template:
  assumes "\<forall>p \<in> set ps. piece_ok p"
  shows "expand_env_vars env (concat (map piece_source ps)) = eval_pieces env ps"
  using assms by (induction ps) (simp_all add: expand_piece)

definition demo_environment :: environment where
  "demo_environment = [''USER'' \<mapsto> ''db'', ''HOST'' \<mapsto> ''h${X}'']"

theorem expansion_follows_template_witness:
  "expand_env_vars demo_environment
     (concat (map piece_source
        [Literal ''pg://'', Reference ''USER'' None, Literal ''@'', Reference ''HOST'' None,
         Literal '':'', Reference ''PORT'' (Some ''5432'')])) = Ok ''pg://db@h${X}:5432''"
  using expansion_follows_template
    [of "[Literal ''pg://'', Reference ''USER'' None, Literal ''@'', Reference ''HOST'' None,
          Literal '':'', Reference ''PORT'' (Some ''5432'')]" demo_environment]
  by (simp add: demo_environment_def contains_sub_def find_sub.simps starts_with_def)

text \<open>Text without a reference is kept, and an unclosed reference is reproduced.\<close>

lemma expand_plain: "CHR ''$'' \<notin> set s \<Longrightarrow> expand_env_vars env s = Ok s"
  using expand_literal [of s env "[]"] by simp

lemma expand_unclosed:
  assumes "CHR ''$'' \<notin> set s" "CHR ''}'' \<notin> set e"
  shows "expand_env_vars env (s @ ''${'' @ e) = Ok (s @ ''${'' @ e)"
proof -
  have "takeWhile (\<lambda>c. c \<noteq> CHR ''}'') e = e" "dropWhile (\<lambda>c. c \<noteq> CHR ''}'') e = []"
    using assms(2) by (induction e) auto
  then show ?thesis
    unfolding expand_literal [OF assms(1)] by (simp add: expand_env_vars.simps(2))
qed

lemma validate_Ok_iff:
  "validate c = Ok () \<longleftrightarrow>
     (dc_database_type (gc_database c) = database_type.Memory \<or>
      filled (dc_connection_string (gc_database c)) \<or>
      filled (dc_host (gc_database c)) \<and> filled (dc_database (gc_database c))) \<and>
     (fc_storage_type (gc_file c) \<in> {Local, file_storage_type.Memory} \<or> filled (fc_region (gc_file c))) \<and>
     (pc_provider (gc_payment c) = Mock \<or> filled (pc_api_key (gc_payment c))) \<and>
     (sc_sink_type (gc_sink c) = Stdout \<or> filled (sc_path (gc_sink c)))"
proof -
  have "check_database d = [] \<longleftrightarrow> dc_database_type d = database_type.Memory \<or>
      filled (dc_connection_string d) \<or> filled (dc_host d) \<and> filled (dc_database d)" for d
    by (cases "dc_database_type d") (auto simp: check_database_def Let_def)
  moreover have "check_file f = [] \<longleftrightarrow>
      fc_storage_type f \<in> {Local, file_storage_type.Memory} \<or> filled (fc_region f)" for f
    by (cases "fc_storage_type f") (auto simp: check_file_def)
  moreover have "check_sink s = [] \<longleftrightarrow> sc_sink_type s = Stdout \<or> filled (sc_path s)" for s
    by (cases "sc_sink_type s") (auto simp: check_sink_def)
  ultimately show ?thesis by (simp add: validate_def missing_fields_def check_payment_def)
qed

text \<open>
  C35: validation succeeds exactly when the backends named have what they need: a connection
  string, or host and database, for a database other than the in-memory one; a region for cloud
  storage; an API key for a real payment provider; a path for a file sink. Otherwise it is one
  error that lists every missing item.
\<close>

theorem validate_iff:
  "(validate c = Ok () \<longleftrightarrow>
     (dc_database_type (gc_database c) = database_type.Memory \<or>
      filled (dc_connection_string (gc_database c)) \<or>
      filled (dc_host (gc_database c)) \<and> filled (dc_database (gc_database c))) \<and>
     (fc_storage_type (gc_file c) \<in> {Local, file_storage_type.Memory} \<or> filled (fc_region (gc_file c))) \<and>
     (pc_provider (gc_payment c) = Mock \<or> filled (pc_api_key (gc_payment c))) \<and>
     (sc_sink_type (gc_sink c) = Stdout \<or> filled (sc_path (gc_sink c)))) \<and>
   (validate c = Ok () \<or>
    validate c = Err (Validation (''missing required fields:'' @ newline_item @
      join_with newline_item (missing_fields c))))"
proof (rule conjI [OF validate_Ok_iff])
  show "validate c = Ok () \<or> validate c = Err (Validation (''missing required fields:'' @ newline_item @
      join_with newline_item (missing_fields c)))"
    by (simp add: validate_def)
qed

text \<open>
  The crate's own Stripe configuration is rejected: its constructor stores the key as
  \<open>secret_key\<close>, validation asks for \<open>api_key\<close>.
\<close>

lemma stripe_config_invalid:
  "validate (with_payment (\<lambda>_. payment_config_stripe key) gateway_config_default) \<noteq> Ok ()"
  by (simp add: validate_def missing_fields_def check_payment_def with_payment_def
      payment_config_stripe_def payment_config_default_def filled_def gateway_config_default_def)

text \<open>Without \<open>${\<close> expansion is the identity, so the test in \<open>expand_opt\<close> only saves work.\<close>

lemma expand_no_reference: "\<not> contains_sub s ''${'' \<Longrightarrow> expand_env_vars env s = Ok s"
proof (induction s)
  case (Cons c s)
  have "\<not> contains_sub s ''${''" "\<not> starts_with (c # s) ''${''"
    using Cons.prems unfolding contains_sub_iff starts_with_iff by (metis append_Cons append_Nil)+
  then have "\<not> (c = CHR ''$'' \<and> s \<noteq> [] \<and> hd s = CHR ''{'')"
    by (cases s) (auto simp: starts_with_def)
  then have "expand_env_vars env (c # s) = map_ok (\<lambda>r. c # r) (expand_env_vars env s)"
    unfolding expand_env_vars.simps(2) by (rule if_not_P)
  with Cons.IH \<open>\<not> contains_sub s ''${''\<close> show ?case by simp
qed simp

lemma expand_opt_Some: "expand_opt env (Some v) = map_ok Some (expand_env_vars env v)"
  by (simp add: expand_opt_def expand_no_reference)

lemma run_actions_Ok_Cons:
  "run_actions (expand_field env getter setter # actions) c = (Ok u, c') \<longleftrightarrow>
     (\<exists>v. expand_opt env (getter c) = Ok v \<and> run_actions actions (setter v c) = (Ok u, c'))"
  by (auto simp: expand_field_def split: result.split)


definition demo_toml :: "string \<Rightarrow> (gateway_config, string) result" where
  "demo_toml s = Ok (with_database (\<lambda>d. d\<lparr>dc_password := Some s\<rparr>) gateway_config_default)"

definition secret_environment :: environment where
  "secret_environment = [''PW'' \<mapsto> ''a${X}b'', ''X'' \<mapsto> ''1'']"

lemmas loading_evaluation =
  load_config_from_str_def demo_toml_def expand_env_def expand_field_def expand_opt_def
  expand_env_vars.simps(2) lookup_expr_def split_expr_def contains_sub_def find_sub.simps
  starts_with_def with_database_def gateway_config_default_def database_config_default_def
  file_storage_config_default_def http_config_default_def payment_config_default_def


text \<open>A secret that contains \<open>${\<close> and a brace cannot be loaded unless its inside is a variable.\<close>

lemma secret_with_reference_fails:
  "load_config_from_str demo_toml [''PW'' \<mapsto> ''a${X}b''] ''${PW}'' = Err (EnvVar ''X'')"
  by (simp add: loading_evaluation)

end
