(* ===== verification/Registry.thy ===== *)
theory Registry
  imports ConfigLoad Text
begin

text \<open>
  The local package registry of the release tool (\<open>xtask/src/registry.rs\<close>, \<open>index.rs\<close>,
  \<open>checksum.rs\<close>): where it is, the URL of its index, the index file of a crate and the update of
  an entry in it. An \<open>anyhow\<close> error is what its \<open>Display\<close> prints, the outermost context. JSON
  encoding belongs to \<open>serde_json\<close> and the digest to \<open>sha2\<close>; both are arguments.
\<close>

section \<open>Paths of the registry\<close>

type_synonym 'a anyhow = "('a, string) result"

definition with_context :: "string \<Rightarrow> 'a io_result \<Rightarrow> 'a anyhow" where
  "with_context txt r = map_err (\<lambda>_. txt) r"

definition io_failed :: "'a io_result \<Rightarrow> 'a anyhow" where
  "io_failed r = map_err io_text r"

record registry_paths =
  rp_root :: string
  rp_index :: string
  rp_crates :: string

definition paths_from_root :: "string \<Rightarrow> registry_paths" where
  "paths_from_root dir =
     \<lparr>rp_root = dir, rp_index = path_join dir ''index'', rp_crates = path_join dir ''crates''\<rparr>"

definition home_dir :: "environment \<Rightarrow> string option" where
  "home_dir env = (case env ''USERPROFILE'' of Some h \<Rightarrow> Some h | None \<Rightarrow> env ''HOME'')"

definition default_root :: "environment \<Rightarrow> string anyhow" where
  "default_root env =
     ok_or ''Cannot determine home directory''
       (map_option (\<lambda>h. path_join (path_join h ''.cargo'') ''registry.local'') (home_dir env))"

definition index_url_path :: "string \<Rightarrow> string" where
  "index_url_path url =
     (let path_str = (case strip_prefix url ''file://'' of Some p \<Rightarrow> p | None \<Rightarrow> url)
      in if 3 \<le> length path_str \<and> starts_with path_str ''/'' \<and> path_str ! 2 = CHR '':''
         then tl path_str else path_str)"

definition root_from_index_url :: "string \<Rightarrow> string anyhow" where
  "root_from_index_url url =
     ok_or ''Cannot determine registry root from CARGO_REGISTRIES_LOCAL_INDEX env var''
       (path_parent (index_url_path url))"

definition resolve_registry :: "environment \<Rightarrow> string option \<Rightarrow> registry_paths anyhow" where
  "resolve_registry env cli_path =
     map_ok paths_from_root
       (case cli_path of
          Some path \<Rightarrow> Ok path
        | None \<Rightarrow>
            (case env ''CARGO_REGISTRIES_LOCAL_INDEX'' of
               Some env_val \<Rightarrow> root_from_index_url env_val
             | None \<Rightarrow> default_root env))"

definition index_url :: "registry_paths \<Rightarrow> string" where
  "index_url paths =
     (let index_str = replace_text [CHR 0x5C] ''/'' (rp_index paths)
      in ''file:///'' @ trim_start_matches slash index_str)"

definition ensure_dirs :: "file_system \<Rightarrow> registry_paths \<Rightarrow> unit anyhow \<times> file_system" where
  "ensure_dirs fs paths =
     (case create_dir_all fs (rp_index paths) of
        (Err e, fs1) \<Rightarrow> (Err (''Failed to create index directory: '' @ rp_index paths), fs1)
      | (Ok _, fs1) \<Rightarrow>
          (case create_dir_all fs1 (rp_crates paths) of
             (Err e, fs2) \<Rightarrow> (Err (''Failed to create crates directory: '' @ rp_crates paths), fs2)
           | (Ok _, fs2) \<Rightarrow> (Ok (), fs2)))"

section \<open>The index\<close>

record index_dep =
  idep_name :: string
  idep_req :: string
  idep_features :: "string list"
  idep_optional :: bool
  idep_default_features :: bool
  idep_target :: "string option"
  idep_kind :: string
  idep_registry :: "string option"
  idep_package :: "string option"

record index_entry =
  ie_name :: string
  ie_vers :: string
  ie_deps :: "index_dep list"
  ie_cksum :: string
  ie_features :: "(string \<times> string list) list"
  ie_yanked :: bool

text \<open>\<open>&s[from..to]\<close>, a panic off a character boundary.\<close>

definition slice_range :: "string \<Rightarrow> nat \<Rightarrow> nat \<Rightarrow> string option" where
  "slice_range s from to =
     (if is_char_boundary s from \<and> is_char_boundary s to \<and> from \<le> to
      then Some (drop from (take to s)) else None)"

definition name_to_path :: "string \<Rightarrow> string option" where
  "name_to_path name =
     (let lower = to_lowercase name in
      if length lower = 0 then Some lower
      else if length lower = 1 then Some (path_join ''1'' lower)
      else if length lower = 2 then Some (path_join ''2'' lower)
      else if length lower = 3
      then map_option (\<lambda>a. path_join (path_join ''3'' a) lower) (slice_to lower 1)
      else (case (slice_to lower 2, slice_range lower 2 4) of
              (Some a, Some b) \<Rightarrow> Some (path_join (path_join a b) lower)
            | _ \<Rightarrow> None))"

text \<open>What the index code takes from outside: the JSON of an entry, and UTF-8 validity.\<close>

record index_env =
  to_json :: "index_entry \<Rightarrow> string"
  from_json :: "string \<Rightarrow> index_entry option"
  is_utf8 :: "string \<Rightarrow> bool"

definition same_version :: "index_entry \<Rightarrow> index_entry \<Rightarrow> bool" where
  "same_version a b \<longleftrightarrow> ie_name a = ie_name b \<and> ie_vers a = ie_vers b"

text \<open>The loop over the lines: the lines of the new file, and whether an entry was replaced.\<close>

fun update_lines ::
  "index_env \<Rightarrow> index_entry \<Rightarrow> string list \<Rightarrow> string list \<Rightarrow> bool \<Rightarrow> string list \<times> bool" where
  "update_lines env entry [] lines replaced = (lines, replaced)"
| "update_lines env entry (line # rest) lines replaced =
     (let txt = str_trim line in
      if txt = [] then update_lines env entry rest lines replaced
      else case from_json env txt of
        Some existing \<Rightarrow>
          if same_version existing entry
          then update_lines env entry rest (lines @ [to_json env entry]) True
          else update_lines env entry rest (lines @ [txt]) replaced
      | None \<Rightarrow> update_lines env entry rest (lines @ [txt]) replaced)"

definition updated_index :: "index_env \<Rightarrow> index_entry \<Rightarrow> string \<Rightarrow> string" where
  "updated_index env entry existing =
     (case update_lines env entry (text_lines existing) [] False of
        (lines, replaced) \<Rightarrow>
          join_with [newline] (if replaced then lines else lines @ [to_json env entry]) @ [newline])"

definition path_exists :: "file_system \<Rightarrow> string \<Rightarrow> bool" where
  "path_exists fs p \<longleftrightarrow> try_exists fs p = Ok True"

definition upsert_at ::
  "index_env \<Rightarrow> file_system \<Rightarrow> string \<Rightarrow> index_entry \<Rightarrow> unit anyhow \<times> file_system" where
  "upsert_at env fs full_path entry =
     (case (case path_parent full_path of
              Some parent \<Rightarrow> create_dir_all fs parent | None \<Rightarrow> (Ok (), fs)) of
        (Err e, fs1) \<Rightarrow> (Err (io_text e), fs1)
      | (Ok _, fs1) \<Rightarrow>
          (if path_exists fs1 full_path
           then (case read_to_string (is_utf8 env) fs1 full_path of
                   Err e \<Rightarrow> (Err (io_text e), fs1)
                 | Ok existing \<Rightarrow>
                     map_prod io_failed id (write_all fs1 full_path (updated_index env entry existing)))
           else map_prod io_failed id (write_all fs1 full_path (to_json env entry @ [newline]))))"

definition upsert_entry ::
  "index_env \<Rightarrow> file_system \<Rightarrow> string \<Rightarrow> index_entry \<Rightarrow> (unit anyhow \<times> file_system) option" where
  "upsert_entry env fs index_dir entry =
     map_option (\<lambda>rel_path. upsert_at env fs (path_join index_dir rel_path) entry)
       (name_to_path (ie_name entry))"

section \<open>Checksums\<close>

text \<open>\<open>hex_digest\<close> is the SHA-256 digest in hexadecimal, which \<open>sha256_bytes\<close> computes.\<close>

definition sha256_file :: "(string \<Rightarrow> string) \<Rightarrow> file_system \<Rightarrow> string \<Rightarrow> string anyhow" where
  "sha256_file hex_digest fs path =
     map_ok hex_digest (with_context (''Failed to read file for checksum: '' @ path) (read_all fs path))"

section \<open>What an update does\<close>

definition kept_line :: "index_env \<Rightarrow> index_entry \<Rightarrow> string \<Rightarrow> string" where
  "kept_line env entry txt =
     (case from_json env txt of
        Some existing \<Rightarrow> if same_version existing entry then to_json env entry else txt
      | None \<Rightarrow> txt)"

definition matches :: "index_env \<Rightarrow> index_entry \<Rightarrow> string \<Rightarrow> bool" where
  "matches env entry txt \<longleftrightarrow>
     (case from_json env txt of Some existing \<Rightarrow> same_version existing entry | None \<Rightarrow> False)"

definition entry_lines :: "string \<Rightarrow> string list" where
  "entry_lines content = filter (\<lambda>l. l \<noteq> []) (map str_trim (text_lines content))"

text \<open>The entries of an index file: its lines that parse.\<close>

definition index_entries :: "index_env \<Rightarrow> string \<Rightarrow> index_entry list" where
  "index_entries env content = List.map_filter (from_json env) (entry_lines content)"

lemma update_lines_eq:
  "update_lines env entry ls acc r =
     (let ts = filter (\<lambda>l. l \<noteq> []) (map str_trim ls)
      in (acc @ map (kept_line env entry) ts, r \<or> (\<exists>t \<in> set ts. matches env entry t)))"
  by (induction env entry ls acc r rule: update_lines.induct)
    (auto simp: Let_def kept_line_def matches_def split: option.splits)

text \<open>
  What the update relies on for the entry it writes: it parses back, and its JSON is one line
  without surrounding blanks.
\<close>

definition encodes :: "index_env \<Rightarrow> index_entry \<Rightarrow> bool" where
  "encodes env entry \<longleftrightarrow>
     from_json env (to_json env entry) = Some entry \<and> to_json env entry \<noteq> [] \<and>
     trimmed (to_json env entry) \<and> newline \<notin> set (to_json env entry)"

lemma entry_lines_join:
  assumes "ls \<noteq> []" "\<forall>l \<in> set ls. newline \<notin> set l \<and> trimmed l \<and> l \<noteq> []"
  shows "entry_lines (join_with [newline] ls @ [newline]) = ls"
proof -
  have "text_lines (join_with [newline] ls @ [newline]) = ls"
    by (rule text_lines_join) (use assms trimmed_line in auto)
  moreover have "map str_trim ls = ls" using assms(2) by (induction ls) auto
  moreover have "filter (\<lambda>l. l \<noteq> []) ls = ls" using assms(2) by (simp add: filter_id_conv)
  ultimately show ?thesis by (simp add: entry_lines_def)
qed

lemma entry_lines_good:
  assumes "l \<in> set (entry_lines content)"
  shows "newline \<notin> set l \<and> trimmed l \<and> l \<noteq> []"
  using assms text_lines_no_newline set_str_trim by (fastforce simp: entry_lines_def)

definition upserted :: "index_entry \<Rightarrow> index_entry list \<Rightarrow> index_entry list" where
  "upserted entry es =
     (if \<exists>e \<in> set es. same_version e entry
      then map (\<lambda>e. if same_version e entry then entry else e) es else es @ [entry])"

lemma index_entries_updated:
  assumes "encodes env entry"
  shows "index_entries env (updated_index env entry content) = upserted entry (index_entries env content)"
proof -
  let ?ts = "entry_lines content"
  let ?new = "map (kept_line env entry) ?ts"
  let ?ls = "if \<exists>t \<in> set ?ts. matches env entry t then ?new else ?new @ [to_json env entry]"
  have eq: "updated_index env entry content = join_with [newline] ?ls @ [newline]"
    by (auto simp: updated_index_def update_lines_eq Let_def entry_lines_def)
  have good: "newline \<notin> set l \<and> trimmed l \<and> l \<noteq> []" if "l \<in> set ?ls" for l
    using that assms by (auto simp: encodes_def kept_line_def split: option.splits if_splits dest: entry_lines_good)
  have "?ls \<noteq> []" by auto
  then have lines: "entry_lines (updated_index env entry content) = ?ls"
    unfolding eq using good by (intro entry_lines_join) blast+
  have mf: "List.map_filter (from_json env) (map (kept_line env entry) ts) =
      map (\<lambda>e. if same_version e entry then entry else e) (List.map_filter (from_json env) ts)" for ts
    using assms by (induction ts) (auto simp: encodes_def kept_line_def map_filter_simps split: option.splits)
  have ex: "(\<exists>t \<in> set ts. matches env entry t) \<longleftrightarrow>
      (\<exists>e \<in> set (List.map_filter (from_json env) ts). same_version e entry)" for ts
    by (induction ts) (auto simp: matches_def map_filter_simps split: option.splits)
  have app: "List.map_filter (from_json env) (xs @ [to_json env entry]) =
      List.map_filter (from_json env) xs @ [entry]" for xs
    using assms by (induction xs) (auto simp: encodes_def map_filter_simps split: option.splits)
  have unchanged: "map (\<lambda>e. if same_version e entry then entry else e) es = es"
    if "\<not> (\<exists>e \<in> set es. same_version e entry)" for es
    using that by (induction es) auto
  show ?thesis
    unfolding index_entries_def lines upserted_def
    using ex [of ?ts] by (auto simp: app mf unchanged)
qed

lemma upserted_facts:
  "entry \<in> set (upserted entry es)"
  "e \<in> set (upserted entry es) \<Longrightarrow> same_version e entry \<Longrightarrow> e = entry"
  "filter (\<lambda>e. \<not> same_version e entry) (upserted entry es) = filter (\<lambda>e. \<not> same_version e entry) es"
proof -
  have self: "same_version entry entry" by (simp add: same_version_def)
  then show "entry \<in> set (upserted entry es)" by (force simp: upserted_def)
  show "e \<in> set (upserted entry es) \<Longrightarrow> same_version e entry \<Longrightarrow> e = entry"
    by (auto simp: upserted_def split: if_splits)
  have "filter (\<lambda>e. \<not> same_version e entry) (map (\<lambda>e. if same_version e entry then entry else e) es) =
      filter (\<lambda>e. \<not> same_version e entry) es"
    using self by (induction es) auto
  then show "filter (\<lambda>e. \<not> same_version e entry) (upserted entry es) = filter (\<lambda>e. \<not> same_version e entry) es"
    using self by (simp add: upserted_def)
qed

text \<open>The entries a location holds.\<close>

definition entries_at :: "index_env \<Rightarrow> file_system \<Rightarrow> location \<Rightarrow> index_entry list" where
  "entries_at env fs loc =
     (case fs_tree fs loc of Some (FileNode content) \<Rightarrow> index_entries env content | _ \<Rightarrow> [])"

lemma adds_dirs_file:
  assumes "adds_dirs fs fs1" "loc \<noteq> []"
  shows "node_at (fs_tree fs1) loc = Some (FileNode c) \<Longrightarrow> fs_tree fs loc = Some (FileNode c)"
    and "node_at (fs_tree fs1) loc = None \<Longrightarrow> fs_tree fs loc = None"
  using assms unfolding adds_dirs_def node_at_def
  by (metis node.distinct(1) option.inject, metis option.distinct(1))

lemma read_all_Ok: "read_all fs p = Ok c \<longleftrightarrow> (\<exists>loc. find_node fs p = Ok (loc, FileNode c))"
  by (cases "find_node fs p") (auto simp: read_all_def split: node.splits prod.splits)

lemma index_entries_single:
  assumes "encodes env entry"
  shows "index_entries env (to_json env entry @ [newline]) = [entry]"
  using assms entry_lines_join [of "[to_json env entry]"]
  by (simp add: encodes_def index_entries_def map_filter_simps)

lemma write_all_sets:
  assumes "write_all fs p contents = (Ok u, fs')"
  obtains loc where "loc \<noteq> []" "resolve fs p = Ok loc" "find_node fs' p = Ok (loc, FileNode contents)"
    "fs_tree fs' = (fs_tree fs)(loc \<mapsto> FileNode contents)" "\<not> is_dir_at (fs_tree fs) loc" "fs_cwd fs' = fs_cwd fs"
proof -
  obtain loc where r: "resolve fs p = Ok loc" "\<not> is_dir_at (fs_tree fs) loc"
    "fs' = fs\<lparr>fs_tree := (fs_tree fs)(loc \<mapsto> FileNode contents)\<rparr>"
    using assms by (auto simp: write_all_def is_dir_at_def split: result.splits if_splits)
  then have "loc \<noteq> []" by (auto simp: is_dir_at_def node_at_def)
  moreover obtain loc' where "find_node fs' p = Ok (loc', FileNode contents)"
    using write_all_find [OF assms] by blast
  moreover have "resolve fs' p = Ok loc"
    by (rule keeps_resolve [OF _ _ r(1)]) (use r in \<open>auto intro: is_dir_at_upd\<close>)
  ultimately show ?thesis using that r by (simp add: find_node_loc)
qed

lemma upsert_at_Ok:
  assumes "encodes env entry" "upsert_at env fs path entry = (Ok u, fs')"
  shows "\<exists>loc content. find_node fs' path = Ok (loc, FileNode content) \<and>
     index_entries env content = upserted entry (entries_at env fs loc) \<and>
     (\<forall>l. l \<noteq> loc \<longrightarrow> fs_tree fs' l = fs_tree fs l \<or> fs_tree fs l = None \<and> fs_tree fs' l = Some DirNode) \<and>
     \<not> is_dir_at (fs_tree fs) loc \<and> fs_cwd fs' = fs_cwd fs"
proof -
  let ?create = "case path_parent path of Some parent \<Rightarrow> create_dir_all fs parent | None \<Rightarrow> (Ok (), fs)"
  obtain r fs1 where create: "?create = (r, fs1)" by fastforce
  then have fs1: "adds_dirs fs fs1" by (auto split: option.splits intro: create_dir_all_adds)
  from assms(2) create have r: "\<exists>u. r = Ok u" by (cases r) (simp_all add: upsert_at_def)
  have step: "map_prod io_failed id (write_all fs1 path t) = (Ok u, fs') \<Longrightarrow> write_all fs1 path t = (Ok u, fs')" for t
    by (cases "write_all fs1 path t") (simp add: io_failed_def)
  obtain contents where w: "write_all fs1 path contents = (Ok u, fs')"
    and contents: "if path_exists fs1 path
      then \<exists>existing. read_to_string (is_utf8 env) fs1 path = Ok existing \<and> contents = updated_index env entry existing
      else contents = to_json env entry @ [newline]"
  proof (cases "path_exists fs1 path")
    case True
    with assms(2) create r obtain existing where "read_to_string (is_utf8 env) fs1 path = Ok existing"
      "map_prod io_failed id (write_all fs1 path (updated_index env entry existing)) = (Ok u, fs')"
      by (auto simp: upsert_at_def split: result.splits)
    with step that True show ?thesis by auto
  next
    case False
    with assms(2) create r have "map_prod io_failed id (write_all fs1 path (to_json env entry @ [newline])) = (Ok u, fs')"
      by (auto simp: upsert_at_def)
    with step that False show ?thesis by auto
  qed
  obtain loc where loc: "loc \<noteq> []" "resolve fs1 path = Ok loc" "find_node fs' path = Ok (loc, FileNode contents)"
    "fs_tree fs' = (fs_tree fs1)(loc \<mapsto> FileNode contents)" "\<not> is_dir_at (fs_tree fs1) loc" "fs_cwd fs' = fs_cwd fs1"
    using write_all_sets [OF w] .
  have entries: "index_entries env contents = upserted entry (entries_at env fs loc)"
  proof (cases "path_exists fs1 path")
    case True
    then obtain existing where ex: "read_to_string (is_utf8 env) fs1 path = Ok existing"
      "contents = updated_index env entry existing" using contents by auto
    then have "node_at (fs_tree fs1) loc = Some (FileNode existing)"
      using loc(2) by (auto simp: read_to_string_def result_simps read_all_Ok find_node_loc split: if_splits)
    from adds_dirs_file(1) [OF fs1 loc(1) this] ex(2) show ?thesis
      by (simp add: entries_at_def index_entries_updated [OF assms(1)])
  next
    case False
    then have "node_at (fs_tree fs1) loc = None"
      using loc(2) by (auto simp: path_exists_def try_exists_def find_node_def enoent_def split: option.splits)
    from adds_dirs_file(2) [OF fs1 loc(1) this] contents False show ?thesis
      by (simp add: entries_at_def index_entries_single [OF assms(1)] upserted_def)
  qed
  have "fs_tree fs' l = fs_tree fs l \<or> fs_tree fs l = None \<and> fs_tree fs' l = Some DirNode" if "l \<noteq> loc" for l
    using that fs1 loc(4) by (auto simp: adds_dirs_def)
  moreover have "\<not> is_dir_at (fs_tree fs) loc" "fs_cwd fs' = fs_cwd fs"
    using loc(5,6) adds_dirs_is_dir [OF fs1] fs1 by (auto simp: adds_dirs_def)
  ultimately show ?thesis using loc(3) entries by blast
qed

section \<open>Properties\<close>


definition demo_entry :: index_entry where
  "demo_entry =
     \<lparr>ie_name = ''ab'', ie_vers = ''1.0.0'', ie_deps = [], ie_cksum = ''00'', ie_features = [], ie_yanked = False\<rparr>"

definition demo_old :: index_entry where
  "demo_old = demo_entry\<lparr>ie_vers := ''0.9.0''\<rparr>"

definition demo_index_env :: index_env where
  "demo_index_env =
     \<lparr>to_json = (\<lambda>e. if e = demo_entry then ''{new}'' else ''{old}''),
      from_json = (\<lambda>s. if s = ''{new}'' then Some demo_entry else if s = ''{old}'' then Some demo_old else None),
      is_utf8 = (\<lambda>_. True)\<rparr>"

definition demo_index_fs :: file_system where
  "demo_index_fs =
     \<lparr>fs_tree = [[''i''] \<mapsto> DirNode, [''i'', ''2''] \<mapsto> DirNode, [''i'', ''2'', ''ab''] \<mapsto> FileNode (''{old}'' @ [newline])],
      fs_cwd = []\<rparr>"

lemma demo_encodes: "encodes demo_index_env demo_entry"
  by (simp add: encodes_def demo_index_env_def trimmed_def whitespace_length_def byte_at_def white_defs
      trailing_whitespace_def ends_with_space_def)


section \<open>The registry URL\<close>

lemma replace_match_none: "c \<notin> set s \<Longrightarrow> replace_match [c] to s = s"
proof (induction s)
  case (Cons d s)
  then show ?case by (subst replace_match.simps) (auto simp: starts_with_def)
qed (simp add: replace_match.simps)

text \<open>
  The directory the index URL of a root leads to: URLs are absolute, so a relative root is taken
  from \<open>/\<close>. Roots without redundant separators, backslashes or a drive letter are considered.
\<close>

definition rooted :: "string \<Rightarrow> string" where
  "rooted dir = (if is_absolute dir then dir else slash # dir)"

definition plain_root :: "string \<Rightarrow> bool" where
  "plain_root dir \<longleftrightarrow>
     dir \<noteq> [] \<and> last dir \<noteq> slash \<and> CHR 0x5C \<notin> set dir \<and> \<not> starts_with dir ''//'' \<and>
     (rooted dir @ ''/'') ! 2 \<noteq> CHR '':'' \<and> segment_component (last_segment (rooted dir)) \<noteq> None"

lemma index_url_rooted:
  assumes "plain_root dir"
  shows "index_url (paths_from_root dir) = ''file://'' @ rooted dir @ ''/index''"
proof -
  have join: "path_join dir ''index'' = dir @ ''/index''"
    using assms by (simp add: path_join_def is_absolute_def plain_root_def)
  have "replace_text [CHR 0x5C] ''/'' (dir @ ''/index'') = dir @ ''/index''"
    using assms by (simp add: replace_text_def replace_match_none plain_root_def)
  moreover have "slash # trim_start_matches slash (dir @ ''/index'') = rooted dir @ ''/index''"
  proof (cases "is_absolute dir")
    case True
    then obtain r where r: "dir = slash # r" by (cases dir) (auto simp: is_absolute_def)
    with assms obtain c r' where "r = c # r'" "c \<noteq> slash"
      by (cases r) (auto simp: plain_root_def starts_with_def)
    with r True show ?thesis by (simp add: rooted_def trim_start_matches_def)
  next
    case False
    with assms obtain c r where "dir = c # r" "c \<noteq> slash"
      by (cases dir) (auto simp: plain_root_def is_absolute_def)
    with False show ?thesis by (simp add: rooted_def trim_start_matches_def)
  qed
  ultimately show ?thesis by (simp add: index_url_def paths_from_root_def join)
qed

lemma path_parent_index:
  assumes "is_absolute p" "p \<noteq> ''/''" "last p \<noteq> slash" "segment_component (last_segment p) \<noteq> None"
  shows "path_parent (p @ ''/index'') = Some p"
proof -
  obtain r where p: "p = slash # r" "r \<noteq> []"
    using assms(1,2) by (cases p) (auto simp: is_absolute_def)
  have "last_segment (p @ ''/index'') = ''index''"
    by (simp add: last_segment_def before_body_def is_absolute_def p)
  moreover from this have "drop_last_segment (p @ ''/index'') = p"
    by (simp add: drop_last_segment_def before_body_def is_absolute_def p)
  ultimately have "next_back (p @ ''/index'') = Some (NormalName ''index'', p)"
    by (subst next_back.simps) (simp add: before_body_def is_absolute_def p segment_component_def)
  moreover have "trim_right p = p" using assms(4) by (subst trim_right.simps) auto
  ultimately show ?thesis by (simp add: path_parent_def)
qed

text \<open>
  C26: publishing the index URL of a registry in the environment brings a later run to the same
  registry exactly when its root is an absolute path; a relative root leads to the registry of
  that path below the file system's root.
\<close>

theorem registry_url_roundtrip:
  assumes "plain_root dir"
    and "env ''CARGO_REGISTRIES_LOCAL_INDEX'' = Some (index_url (paths_from_root dir))"
  shows "resolve_registry env None = Ok (paths_from_root (rooted dir)) \<and>
    (resolve_registry env None = resolve_registry env (Some dir) \<longleftrightarrow> is_absolute dir)"
proof -
  have r: "is_absolute (rooted dir)" "last (rooted dir) \<noteq> slash" "rooted dir \<noteq> ''/''"
    using assms(1) by (auto simp: plain_root_def rooted_def is_absolute_def)
  have "path_parent (rooted dir @ ''/index'') = Some (rooted dir)"
    using path_parent_index r assms(1) unfolding plain_root_def by blast
  moreover have "(rooted dir @ ''/index'') ! 2 \<noteq> CHR '':''"
  proof (cases "2 < length (rooted dir)")
    case False
    moreover have "2 \<le> length (rooted dir)"
      using r by (cases "rooted dir" rule: list.exhaust; cases "tl (rooted dir)") (auto simp: is_absolute_def)
    ultimately have "length (rooted dir) = 2" by simp
    then show ?thesis by (simp add: nth_append)
  qed (use assms(1) in \<open>simp add: plain_root_def nth_append\<close>)
  then have "index_url_path (''file://'' @ rooted dir @ ''/index'') = rooted dir @ ''/index''"
    unfolding index_url_path_def Let_def strip_prefix_append by simp
  ultimately have res: "resolve_registry env None = Ok (paths_from_root (rooted dir))"
    unfolding resolve_registry_def assms(2) index_url_rooted [OF assms(1)]
    by (simp add: root_from_index_url_def)
  have "paths_from_root a = paths_from_root b \<longleftrightarrow> a = b" for a b by (auto simp: paths_from_root_def)
  then have "resolve_registry env None = resolve_registry env (Some dir) \<longleftrightarrow> is_absolute dir"
    unfolding res by (auto simp: resolve_registry_def rooted_def)
  with res show ?thesis ..
qed

theorem registry_url_roundtrip_witness:
  "resolve_registry [''CARGO_REGISTRIES_LOCAL_INDEX'' \<mapsto> index_url (paths_from_root ''/h/reg'')] None =
     Ok (paths_from_root ''/h/reg'') \<and>
   resolve_registry [''CARGO_REGISTRIES_LOCAL_INDEX'' \<mapsto> index_url (paths_from_root ''reg'')] None =
     Ok (paths_from_root ''/reg'')"
proof -
  have "plain_root ''/h/reg''" "plain_root ''reg''" "rooted ''/h/reg'' = ''/h/reg''" "rooted ''reg'' = ''/reg''"
    by (simp_all add: plain_root_def rooted_def is_absolute_def starts_with_def last_segment_def
        before_body_def segment_component_def)
  then show ?thesis
    using registry_url_roundtrip [of "''/h/reg''" "[''CARGO_REGISTRIES_LOCAL_INDEX'' \<mapsto> index_url (paths_from_root ''/h/reg'')]"]
      registry_url_roundtrip [of "''reg''" "[''CARGO_REGISTRIES_LOCAL_INDEX'' \<mapsto> index_url (paths_from_root ''reg'')]"]
    by simp
qed

text \<open>A name whose bytes are sliced inside a character panics.\<close>

lemma name_to_path_panics:
  "name_to_path [CHR ''a'', char_of (195 :: nat), char_of (169 :: nat), CHR ''b''] = None"
  by (simp add: name_to_path_def to_lowercase_def char_lower_def slice_to_def is_char_boundary_def
      is_continuation_def Let_def)

end
