(* ===== verification/PublishRun.thy ===== *)
theory PublishRun
  imports Publish Registry "HOL-Library.Sublist"
begin

text \<open>
  The rest of the release tool's \<open>publish\<close> command (\<open>xtask/src/publish.rs\<close>): the crates known to
  the registry, the index entry of a package, packaging, committing the index, and the run with
  its two phases. The external programs \<open>cargo\<close> and \<open>git\<close> are an argument: what a command answers
  and what it leaves of the file system, given everything that ran before. The world is the file
  system and the commands run so far. Lines printed on the standard output are left out. An outer
  \<open>None\<close> is a panic.
\<close>

section \<open>Commands\<close>

record command =
  cmd_program :: string
  cmd_args :: "string list"
  cmd_dir :: "string option"

record process_output =
  po_success :: bool
  po_stdout :: string
  po_stderr :: string

record publish_world =
  pw_fs :: file_system
  pw_ran :: "command list"

type_synonym programs = "command \<Rightarrow> publish_world \<Rightarrow> process_output io_result \<times> file_system"

definition run_command :: "programs \<Rightarrow> command \<Rightarrow> publish_world \<Rightarrow> process_output io_result \<times> publish_world" where
  "run_command programs cmd w =
     (case programs cmd w of
        (answer, fs') \<Rightarrow> (answer, w\<lparr>pw_fs := fs', pw_ran := pw_ran w @ [cmd]\<rparr>))"

text \<open>What a run takes from outside, besides the programs.\<close>

record publish_env =
  pe_vars :: environment
  pe_index :: index_env
  pe_hex_digest :: "string \<Rightarrow> string"
  pe_lossy :: "string \<Rightarrow> string"
  pe_read_dir :: "location \<Rightarrow> string list"
  pe_depth :: nat
  pe_degree_order :: "string list"

section \<open>Index entries\<close>

definition placeholder_cksum :: string where
  "placeholder_cksum = replicate 64 (CHR ''0'')"

definition crates_io_index :: string where
  "crates_io_index = ''https://github.com/rust-lang/crates.io-index''"

text \<open>The files of the index below a directory; \<open>fuel\<close> bounds the depth.\<close>

fun walk_index_files :: "nat \<Rightarrow> (location \<Rightarrow> string list) \<Rightarrow> file_tree \<Rightarrow> location \<Rightarrow> location list" where
  "walk_index_files 0 read_dir t loc = []"
| "walk_index_files (Suc fuel) read_dir t loc =
     concat (map (\<lambda>name.
       if name = ''.git'' then []
       else case t (loc @ [name]) of
         Some DirNode \<Rightarrow> map ((#) name) (walk_index_files fuel read_dir t (loc @ [name]))
       | Some (FileNode _) \<Rightarrow> if name = ''config.json'' then [] else [[name]]
       | None \<Rightarrow> []) (read_dir loc))"

definition scan_local_registry_index ::
  "nat \<Rightarrow> (location \<Rightarrow> string list) \<Rightarrow> file_system \<Rightarrow> string \<Rightarrow> string set" where
  "scan_local_registry_index fuel read_dir fs index_dir =
     (case find_node fs index_dir of
        Ok (loc, DirNode) \<Rightarrow>
          if NormalName ''.git'' \<in> set (components index_dir) then {}
          else set (map last (walk_index_files fuel read_dir (fs_tree fs) loc))
      | _ \<Rightarrow> {})"

fun kind_str :: "dependency_kind \<Rightarrow> string option" where
  "kind_str dependency_kind.Normal = Some ''normal''"
| "kind_str Build = Some ''build''"
| "kind_str Development = None"
| "kind_str UnknownKind = None"

definition dep_registry_url ::
  "string \<Rightarrow> (string \<rightharpoonup> package) \<Rightarrow> string set \<Rightarrow> dependency \<Rightarrow> string" where
  "dep_registry_url registry_url pkg_map local_registry_crates dep =
     (let is_workspace_dep = pkg_map (dep_name dep) \<noteq> None;
          is_in_local_registry = dep_name dep \<in> local_registry_crates;
          has_non_cratesio_registry =
            (case dep_registry dep of Some r \<Rightarrow> \<not> contains_sub r ''crates.io'' | None \<Rightarrow> False)
      in if is_workspace_dep \<or> is_in_local_registry \<or> has_non_cratesio_registry
         then registry_url else crates_io_index)"

fun index_deps ::
  "string \<Rightarrow> (string \<rightharpoonup> package) \<Rightarrow> string set \<Rightarrow> dependency list \<Rightarrow> index_dep list" where
  "index_deps registry_url pkg_map crates [] = []"
| "index_deps registry_url pkg_map crates (dep # ds) =
     (case kind_str (dep_kind dep) of
        None \<Rightarrow> index_deps registry_url pkg_map crates ds
      | Some kind \<Rightarrow>
          \<lparr>idep_name = (case dep_rename dep of Some alias \<Rightarrow> alias | None \<Rightarrow> dep_name dep),
           idep_req = dep_req dep, idep_features = dep_features dep,
           idep_optional = dep_optional dep, idep_default_features = dep_uses_default_features dep,
           idep_target = dep_target dep, idep_kind = kind,
           idep_registry = Some (dep_registry_url registry_url pkg_map crates dep),
           idep_package = (case dep_rename dep of Some alias \<Rightarrow> Some (dep_name dep) | None \<Rightarrow> None)\<rparr>
          # index_deps registry_url pkg_map crates ds)"

definition index_record ::
  "package \<Rightarrow> string \<Rightarrow> string \<Rightarrow> (string \<rightharpoonup> package) \<Rightarrow> string set \<Rightarrow> index_entry" where
  "index_record pkg cksum registry_url pkg_map local_registry_crates =
     \<lparr>ie_name = pkg_name pkg, ie_vers = pkg_version pkg,
      ie_deps = index_deps registry_url pkg_map local_registry_crates (pkg_dependencies pkg),
      ie_cksum = cksum, ie_features = pkg_features pkg, ie_yanked = False\<rparr>"

definition build_index_entry ::
  "package \<Rightarrow> string \<Rightarrow> string \<Rightarrow> (string \<rightharpoonup> package) \<Rightarrow> string set \<Rightarrow> index_entry anyhow" where
  "build_index_entry pkg cksum registry_url pkg_map local_registry_crates =
     Ok (index_record pkg cksum registry_url pkg_map local_registry_crates)"

section \<open>Packaging and committing\<close>

definition git_add :: "string \<Rightarrow> command" where
  "git_add index_dir = \<lparr>cmd_program = ''git'', cmd_args = [''add'', ''.''], cmd_dir = Some index_dir\<rparr>"

definition git_commit :: "string \<Rightarrow> string \<Rightarrow> command" where
  "git_commit index_dir message =
     \<lparr>cmd_program = ''git'', cmd_args = [''commit'', ''-m'', message], cmd_dir = Some index_dir\<rparr>"

definition nothing_to_commit :: "(string \<Rightarrow> string) \<Rightarrow> process_output \<Rightarrow> bool" where
  "nothing_to_commit lossy out \<longleftrightarrow>
     contains_sub (lossy (po_stderr out)) ''nothing to commit'' \<or>
     contains_sub (lossy (po_stdout out)) ''nothing to commit''"

definition git_commit_index ::
  "programs \<Rightarrow> (string \<Rightarrow> string) \<Rightarrow> string \<Rightarrow> string \<Rightarrow> publish_world \<Rightarrow> unit anyhow \<times> publish_world" where
  "git_commit_index programs lossy index_dir message w =
     (case run_command programs (git_add index_dir) w of
        (Err e, w1) \<Rightarrow> (Err ''Failed to run git add in index'', w1)
      | (Ok out, w1) \<Rightarrow>
          if \<not> po_success out
          then (Err (''git add failed in index:'' @ [newline] @ lossy (po_stderr out)), w1)
          else (case run_command programs (git_commit index_dir message) w1 of
                  (Err e, w2) \<Rightarrow> (Err ''Failed to run git commit in index'', w2)
                | (Ok out2, w2) \<Rightarrow>
                    if \<not> po_success out2 \<and> \<not> nothing_to_commit lossy out2
                    then (Err (''git commit failed in index:'' @ [newline] @ lossy (po_stderr out2)), w2)
                    else (Ok (), w2)))"

definition cargo_command :: "string \<Rightarrow> command" where
  "cargo_command name =
     \<lparr>cmd_program = ''cargo'', cmd_args = [''package'', ''-p'', name, ''--allow-dirty'', ''--no-verify''],
      cmd_dir = None\<rparr>"

definition crate_path :: "package \<Rightarrow> string" where
  "crate_path pkg = path_join ''target/package'' (pkg_name pkg @ ''-'' @ pkg_version pkg @ ''.crate'')"

definition cargo_package ::
  "programs \<Rightarrow> (string \<Rightarrow> string) \<Rightarrow> package \<Rightarrow> publish_world \<Rightarrow> string anyhow \<times> publish_world" where
  "cargo_package programs lossy pkg w =
     (case run_command programs (cargo_command (pkg_name pkg)) w of
        (Err e, w1) \<Rightarrow>
          (Err (''Failed to run '' @ [CHR 0x60] @ ''cargo package'' @ [CHR 0x60] @ '' for '' @ pkg_name pkg), w1)
      | (Ok out, w1) \<Rightarrow>
          if \<not> po_success out
          then (Err (''cargo package failed for '' @ pkg_name pkg @ '':'' @ [newline] @ lossy (po_stderr out)), w1)
          else if \<not> path_exists (pw_fs w1) (crate_path pkg)
          then (Err (''Expected crate file not found: '' @ crate_path pkg), w1)
          else (Ok (crate_path pkg), w1))"

definition download_path :: "registry_paths \<Rightarrow> package \<Rightarrow> string" where
  "download_path paths pkg =
     path_join (path_join (path_join (rp_crates paths) (pkg_name pkg)) (pkg_version pkg)) ''download''"

text \<open>Copying the packaged file into the registry.\<close>

definition copy_crate ::
  "registry_paths \<Rightarrow> package \<Rightarrow> string \<Rightarrow> publish_world \<Rightarrow> unit anyhow \<times> publish_world" where
  "copy_crate paths pkg crate_file w =
     (let dest_dir = path_join (path_join (rp_crates paths) (pkg_name pkg)) (pkg_version pkg);
          dest = path_join dest_dir ''download''
      in case create_dir_all (pw_fs w) dest_dir of
           (Err e, fs1) \<Rightarrow> (Err (''Failed to create crate dir: '' @ dest_dir), w\<lparr>pw_fs := fs1\<rparr>)
         | (Ok _, fs1) \<Rightarrow>
             (case copy_file fs1 crate_file dest of
                (Err e, fs2) \<Rightarrow> (Err (''Failed to copy crate to '' @ dest), w\<lparr>pw_fs := fs2\<rparr>)
              | (Ok _, fs2) \<Rightarrow> (Ok (), w\<lparr>pw_fs := fs2\<rparr>)))"

definition package_and_copy ::
  "programs \<Rightarrow> publish_env \<Rightarrow> package \<Rightarrow> registry_paths \<Rightarrow> string \<Rightarrow> (string \<rightharpoonup> package) \<Rightarrow>
   string set \<Rightarrow> publish_world \<Rightarrow> (index_entry anyhow \<times> publish_world) option" where
  "package_and_copy programs env pkg paths registry_url pkg_map local_registry_crates w =
     (case cargo_package programs (pe_lossy env) pkg w of
        (Err e, w1) \<Rightarrow> Some (Err e, w1)
      | (Ok crate_file, w1) \<Rightarrow>
          (case sha256_file (pe_hex_digest env) (pw_fs w1) crate_file of
             Err e \<Rightarrow> Some (Err e, w1)
           | Ok cksum \<Rightarrow>
               (case slice_to cksum 16 of
                  None \<Rightarrow> None
                | Some _ \<Rightarrow>
                    (case copy_crate paths pkg crate_file w1 of
                       (Err e, w2) \<Rightarrow> Some (Err e, w2)
                     | (Ok _, w2) \<Rightarrow>
                         Some (build_index_entry pkg cksum registry_url pkg_map local_registry_crates, w2)))))"

section \<open>The run\<close>

definition upsert ::
  "publish_env \<Rightarrow> string \<Rightarrow> string \<Rightarrow> index_entry \<Rightarrow> publish_world \<Rightarrow> (unit anyhow \<times> publish_world) option" where
  "upsert env index_dir context_text entry w =
     map_option (\<lambda>(r, fs'). (map_err (\<lambda>_. context_text) r, w\<lparr>pw_fs := fs'\<rparr>))
       (upsert_entry (pe_index env) (pw_fs w) index_dir entry)"

fun pre_register ::
  "publish_env \<Rightarrow> registry_paths \<Rightarrow> string \<Rightarrow> (string \<rightharpoonup> package) \<Rightarrow> string set \<Rightarrow> string list \<Rightarrow>
   publish_world \<Rightarrow> (unit anyhow \<times> publish_world) option" where
  "pre_register env paths registry_url pkg_map crates [] w = Some (Ok (), w)"
| "pre_register env paths registry_url pkg_map crates (name # names) w =
     (case pkg_map name of
        None \<Rightarrow> None
      | Some pkg \<Rightarrow>
          (case build_index_entry pkg placeholder_cksum registry_url pkg_map crates of
             Err e \<Rightarrow> Some (Err e, w)
           | Ok stub \<Rightarrow>
               (case upsert env (rp_index paths) (''Failed to pre-register '' @ name) stub w of
                  None \<Rightarrow> None
                | Some (Err e, w1) \<Rightarrow> Some (Err e, w1)
                | Some (Ok _, w1) \<Rightarrow> pre_register env paths registry_url pkg_map crates names w1)))"

text \<open>The commit names the entry, which has the name and version of its package.\<close>

definition publish_message :: "package \<Rightarrow> string" where
  "publish_message pkg = ''publish '' @ pkg_name pkg @ '' v'' @ pkg_version pkg"

fun publish_each ::
  "programs \<Rightarrow> publish_env \<Rightarrow> registry_paths \<Rightarrow> string \<Rightarrow> (string \<rightharpoonup> package) \<Rightarrow> string set \<Rightarrow>
   string list \<Rightarrow> publish_world \<Rightarrow> (unit anyhow \<times> publish_world) option" where
  "publish_each programs env paths registry_url pkg_map crates [] w = Some (Ok (), w)"
| "publish_each programs env paths registry_url pkg_map crates (name # names) w =
     (case pkg_map name of
        None \<Rightarrow> None
      | Some pkg \<Rightarrow>
          (case package_and_copy programs env pkg paths registry_url pkg_map crates w of
             None \<Rightarrow> None
           | Some (Err e, w1) \<Rightarrow> Some (Err e, w1)
           | Some (Ok entry, w1) \<Rightarrow>
               (case upsert env (rp_index paths) (''Failed to update index for '' @ ie_name entry) entry w1 of
                  None \<Rightarrow> None
                | Some (Err e, w2) \<Rightarrow> Some (Err e, w2)
                | Some (Ok _, w2) \<Rightarrow>
                    (case git_commit_index programs (pe_lossy env) (rp_index paths) (publish_message pkg) w2 of
                       (Err e, w3) \<Rightarrow> Some (Err e, w3)
                     | (Ok _, w3) \<Rightarrow>
                         publish_each programs env paths registry_url pkg_map crates names w3))))"

definition pre_register_message :: string where
  "pre_register_message = ''pre-register crates for dependency resolution''"

text \<open>Both phases, for crates in their publish order.\<close>

definition publish_phases ::
  "programs \<Rightarrow> publish_env \<Rightarrow> registry_paths \<Rightarrow> (string \<rightharpoonup> package) \<Rightarrow> string set \<Rightarrow> string list \<Rightarrow>
   publish_world \<Rightarrow> (unit anyhow \<times> publish_world) option" where
  "publish_phases programs env paths pkg_map crates sorted_names w =
     (case ensure_dirs (pw_fs w) paths of
        (Err e, fs1) \<Rightarrow> Some (Err e, w\<lparr>pw_fs := fs1\<rparr>)
      | (Ok _, fs1) \<Rightarrow>
          (case pre_register env paths (index_url paths) pkg_map crates sorted_names (w\<lparr>pw_fs := fs1\<rparr>) of
             None \<Rightarrow> None
           | Some (Err e, w2) \<Rightarrow> Some (Err e, w2)
           | Some (Ok _, w2) \<Rightarrow>
               (case git_commit_index programs (pe_lossy env) (rp_index paths) pre_register_message w2 of
                  (Err e, w3) \<Rightarrow> Some (Err e, w3)
                | (Ok _, w3) \<Rightarrow>
                    publish_each programs env paths (index_url paths) pkg_map crates sorted_names w3)))"

definition known_crates :: "publish_env \<Rightarrow> registry_paths \<Rightarrow> publish_world \<Rightarrow> string set" where
  "known_crates env paths w =
     scan_local_registry_index (pe_depth env) (pe_read_dir env) (pw_fs w) (rp_index paths)"

text \<open>
  \<open>run\<close>; \<open>metadata\<close> are the workspace members \<open>cargo metadata\<close> reports, if it succeeds. The map
  lookup while the order is printed panics for an unknown name.
\<close>

definition run_publish ::
  "programs \<Rightarrow> publish_env \<Rightarrow> package list option \<Rightarrow> string list \<Rightarrow> bool \<Rightarrow> string option \<Rightarrow>
   publish_world \<Rightarrow> (unit anyhow \<times> publish_world) option" where
  "run_publish programs env metadata packages dry_run registry_path w =
     (case resolve_registry (pe_vars env) registry_path of
        Err e \<Rightarrow> Some (Err e, w)
      | Ok paths \<Rightarrow>
          (case metadata of
             None \<Rightarrow> Some (Err ''Failed to get workspace metadata'', w)
           | Some members \<Rightarrow>
               (let pkg_map = package_map members;
                    crates = known_crates env paths w
                in case select_packages members packages of
                     Err e \<Rightarrow> Some (Err e, w)
                   | Ok to_publish \<Rightarrow>
                       if to_publish = [] then Some (Ok (), w)
                       else (case topological_sort (pe_degree_order env) (map pkg_name to_publish)
                                    (build_workspace_deps to_publish pkg_map) of
                               None \<Rightarrow> None
                             | Some (Err e) \<Rightarrow> Some (Err e, w)
                             | Some (Ok sorted_names) \<Rightarrow>
                                 if \<exists>name \<in> set sorted_names. pkg_map name = None then None
                                 else if dry_run then Some (Ok (), w)
                                 else publish_phases programs env paths pkg_map crates sorted_names w))))"

section \<open>The commands a run executes\<close>

text \<open>
  \<open>runs plan r w w'\<close>: between two worlds the commands run are a prefix of the plan, and all of it
  when the result is a success.
\<close>

definition runs :: "command list \<Rightarrow> 'a anyhow \<Rightarrow> publish_world \<Rightarrow> publish_world \<Rightarrow> bool" where
  "runs plan r w w' \<longleftrightarrow>
     (\<exists>ran. pw_ran w' = pw_ran w @ ran \<and> prefix ran plan \<and> (is_ok r \<longrightarrow> ran = plan))"

lemma runs_nothing: "pw_ran w' = pw_ran w \<Longrightarrow> runs [] r w w'"
  by (simp add: runs_def)

lemma runs_Err: "runs plan (Err e) w w' \<Longrightarrow> runs (plan @ more_plan) (Err e') w w'"
  by (auto simp: runs_def)

lemma runs_Ok: "runs p1 (Ok x) w w1 \<Longrightarrow> runs p2 r w1 w2 \<Longrightarrow> runs (p1 @ p2) r w w2"
  by (auto simp: runs_def)

lemma runs_same: "runs plan r w1 w2 \<Longrightarrow> pw_ran w1 = pw_ran w \<Longrightarrow> runs plan r w w2"
  by (simp add: runs_def)

lemma runs_then: "runs plan r w w1 \<Longrightarrow> pw_ran w2 = pw_ran w1 \<Longrightarrow> (is_ok r' \<Longrightarrow> is_ok r) \<Longrightarrow> runs plan r' w w2"
  by (auto simp: runs_def)

lemma run_command_ran: "run_command programs cmd w = (a, w') \<Longrightarrow> pw_ran w' = pw_ran w @ [cmd]"
  by (auto simp: run_command_def split: prod.splits)

definition commit_plan :: "string \<Rightarrow> string \<Rightarrow> command list" where
  "commit_plan index_dir message = [git_add index_dir, git_commit index_dir message]"

lemma git_commit_index_runs:
  "git_commit_index programs lossy index_dir message w = (r, w') \<Longrightarrow> runs (commit_plan index_dir message) r w w'"
  unfolding git_commit_index_def runs_def commit_plan_def
  by (auto split: prod.splits result.splits if_splits dest!: run_command_ran)

lemma cargo_package_runs:
  "cargo_package programs lossy pkg w = (r, w') \<Longrightarrow> pw_ran w' = pw_ran w @ [cargo_command (pkg_name pkg)]"
  by (auto simp: cargo_package_def split: prod.splits result.splits if_splits dest: run_command_ran)

lemma copy_crate_ran: "copy_crate paths pkg crate_file w = (r, w') \<Longrightarrow> pw_ran w' = pw_ran w"
  by (auto simp: copy_crate_def Let_def split: prod.splits result.splits)

lemma package_and_copy_runs:
  "package_and_copy programs env pkg paths registry_url pkg_map crates w = Some (r, w') \<Longrightarrow>
   pw_ran w' = pw_ran w @ [cargo_command (pkg_name pkg)]"
  by (auto simp: package_and_copy_def split: prod.splits result.splits option.splits
      dest!: cargo_package_runs copy_crate_ran)

lemma upsert_ran: "upsert env index_dir ctx entry w = Some (r, w') \<Longrightarrow> pw_ran w' = pw_ran w"
  by (auto simp: upsert_def)

definition crate_plan :: "string \<Rightarrow> package \<Rightarrow> command list" where
  "crate_plan index_dir pkg = cargo_command (pkg_name pkg) # commit_plan index_dir (publish_message pkg)"

definition crates_plan :: "string \<Rightarrow> (string \<rightharpoonup> package) \<Rightarrow> string list \<Rightarrow> command list" where
  "crates_plan index_dir pkg_map names = concat (map (\<lambda>name. crate_plan index_dir (the (pkg_map name))) names)"

text \<open>The ways a step of each loop goes.\<close>

lemma pre_register_cases:
  assumes "pre_register env paths registry_url pkg_map crates (name # names) w = Some (r, w')"
  obtains (failed) pkg e where "pkg_map name = Some pkg" "r = Err e"
      "upsert env (rp_index paths) (''Failed to pre-register '' @ name)
         (index_record pkg placeholder_cksum registry_url pkg_map crates) w = Some (Err e, w')"
  | (registered) pkg u w1 where "pkg_map name = Some pkg"
      "upsert env (rp_index paths) (''Failed to pre-register '' @ name)
         (index_record pkg placeholder_cksum registry_url pkg_map crates) w = Some (Ok u, w1)"
      "pre_register env paths registry_url pkg_map crates names w1 = Some (r, w')"
proof -
  obtain pkg where pkg: "pkg_map name = Some pkg" using assms by (auto split: option.splits)
  obtain r1 w1 where u: "upsert env (rp_index paths) (''Failed to pre-register '' @ name)
      (index_record pkg placeholder_cksum registry_url pkg_map crates) w = Some (r1, w1)"
    using assms pkg by (auto simp: build_index_entry_def split: option.splits)
  show ?thesis
  proof (cases r1)
    case (Ok x)
    with assms pkg u show ?thesis by (intro registered [of pkg x w1]) (auto simp: build_index_entry_def)
  next
    case (Err e)
    with assms pkg u show ?thesis by (intro failed [of pkg e]) (auto simp: build_index_entry_def)
  qed
qed

lemma publish_each_cases:
  assumes "publish_each programs env paths registry_url pkg_map crates (name # names) w = Some (r, w')"
  obtains (not_packaged) pkg e where "pkg_map name = Some pkg" "r = Err e"
      "package_and_copy programs env pkg paths registry_url pkg_map crates w = Some (Err e, w')"
  | (not_indexed) pkg entry w1 e where "pkg_map name = Some pkg" "r = Err e"
      "package_and_copy programs env pkg paths registry_url pkg_map crates w = Some (Ok entry, w1)"
      "upsert env (rp_index paths) (''Failed to update index for '' @ ie_name entry) entry w1 = Some (Err e, w')"
  | (not_committed) pkg entry w1 u w2 e where "pkg_map name = Some pkg" "r = Err e"
      "package_and_copy programs env pkg paths registry_url pkg_map crates w = Some (Ok entry, w1)"
      "upsert env (rp_index paths) (''Failed to update index for '' @ ie_name entry) entry w1 = Some (Ok u, w2)"
      "git_commit_index programs (pe_lossy env) (rp_index paths) (publish_message pkg) w2 = (Err e, w')"
  | (published) pkg entry w1 u w2 v w3 where "pkg_map name = Some pkg"
      "package_and_copy programs env pkg paths registry_url pkg_map crates w = Some (Ok entry, w1)"
      "upsert env (rp_index paths) (''Failed to update index for '' @ ie_name entry) entry w1 = Some (Ok u, w2)"
      "git_commit_index programs (pe_lossy env) (rp_index paths) (publish_message pkg) w2 = (Ok v, w3)"
      "publish_each programs env paths registry_url pkg_map crates names w3 = Some (r, w')"
proof -
  obtain pkg where pkg: "pkg_map name = Some pkg" using assms by (auto split: option.splits)
  obtain r1 w1 where p: "package_and_copy programs env pkg paths registry_url pkg_map crates w = Some (r1, w1)"
    using assms pkg by (auto split: option.splits)
  show ?thesis
  proof (cases r1)
    case (Err e)
    with assms pkg p show ?thesis by (intro not_packaged [of pkg e]) auto
  next
    case (Ok entry)
    note p = p [unfolded Ok]
    obtain r2 w2 where u: "upsert env (rp_index paths) (''Failed to update index for '' @ ie_name entry) entry w1 = Some (r2, w2)"
      using assms pkg p by (auto split: option.splits)
    show ?thesis
    proof (cases r2)
      case (Err e)
      with assms pkg p u show ?thesis by (intro not_indexed [of pkg e entry w1]) auto
    next
      case (Ok x)
      note u = u [unfolded Ok]
      obtain r3 w3 where g: "git_commit_index programs (pe_lossy env) (rp_index paths) (publish_message pkg) w2 = (r3, w3)"
        by fastforce
      show ?thesis
      proof (cases r3)
        case (Err e)
        with assms pkg p u g show ?thesis by (intro not_committed [of pkg e entry w1 x w2]) auto
      next
        case (Ok y)
        with assms pkg p u g show ?thesis by (intro published [of pkg entry w1 x w2 y w3]) auto
      qed
    qed
  qed
qed

lemma pre_register_ran:
  "pre_register env paths registry_url pkg_map crates names w = Some (r, w') \<Longrightarrow> pw_ran w' = pw_ran w"
proof (induction names arbitrary: w)
  case (Cons name names)
  from Cons.prems show ?case
    by (cases rule: pre_register_cases) (auto dest!: upsert_ran Cons.IH)
qed simp

lemma publish_each_runs:
  "publish_each programs env paths registry_url pkg_map crates names w = Some (r, w') \<Longrightarrow>
   runs (crates_plan (rp_index paths) pkg_map names) r w w'"
proof (induction names arbitrary: w)
  case Nil
  then show ?case by (simp add: crates_plan_def runs_def)
next
  case (Cons name names)
  let ?rest = "crates_plan (rp_index paths) pkg_map names"
  have plan: "crates_plan (rp_index paths) pkg_map (name # names) =
      [cargo_command (pkg_name pkg)] @ commit_plan (rp_index paths) (publish_message pkg) @ ?rest"
    if "pkg_map name = Some pkg" for pkg
    using that by (simp add: crates_plan_def crate_plan_def)
  have packaged: "runs [cargo_command (pkg_name pkg)] r1 w w1"
    if "package_and_copy programs env pkg paths registry_url pkg_map crates w = Some (r1, w1)" for pkg r1 w1
    using package_and_copy_runs [OF that] by (simp add: runs_def)
  have indexed: "runs [cargo_command (pkg_name pkg)] r2 w w2"
    if "package_and_copy programs env pkg paths registry_url pkg_map crates w = Some (Ok entry, w1)"
      "upsert env (rp_index paths) ctx entry w1 = Some (r2, w2)" for pkg entry ctx r2 w1 w2
    by (rule runs_then [OF packaged [OF that(1)] upsert_ran [OF that(2)]]) simp
  from Cons.prems show ?case
  proof (cases rule: publish_each_cases)
    case (not_packaged pkg e)
    with runs_Err [OF packaged [OF not_packaged(3)]] plan show ?thesis by simp
  next
    case (not_indexed pkg entry w1 e)
    with runs_Err [OF indexed [OF not_indexed(3,4)]] plan show ?thesis by simp
  next
    case (not_committed pkg entry w1 u w2 e)
    note runs_Ok [OF indexed [OF not_committed(3,4)] git_commit_index_runs [OF not_committed(5)]]
    from runs_Err [OF this] not_committed plan show ?thesis by simp
  next
    case (published pkg entry w1 u w2 v w3)
    note runs_Ok [OF indexed [OF published(2,3)] git_commit_index_runs [OF published(4)]]
    from runs_Ok [OF this Cons.IH [OF published(5)]] published plan show ?thesis by simp
  qed
qed

definition release_plan :: "string \<Rightarrow> (string \<rightharpoonup> package) \<Rightarrow> string list \<Rightarrow> command list" where
  "release_plan index_dir pkg_map names =
     commit_plan index_dir pre_register_message @ crates_plan index_dir pkg_map names"

lemma publish_phases_runs:
  assumes "publish_phases programs env paths pkg_map crates names w = Some (r, w')"
  shows "runs (release_plan (rp_index paths) pkg_map names) r w w'"
proof -
  have err: "runs p (Err e) w w'" if "pw_ran w' = pw_ran w" for p and e :: string
    using that by (simp add: runs_def)
  obtain r1 fs1 where d: "ensure_dirs (pw_fs w) paths = (r1, fs1)" by fastforce
  show ?thesis
  proof (cases r1)
    case (Err e)
    with assms d err show ?thesis by (auto simp: publish_phases_def)
  next
    case (Ok u)
    obtain r2 w2 where p: "pre_register env paths (index_url paths) pkg_map crates names (w\<lparr>pw_fs := fs1\<rparr>) = Some (r2, w2)"
      using assms d Ok by (auto simp: publish_phases_def split: option.splits)
    have ran: "pw_ran w2 = pw_ran w" using pre_register_ran [OF p] by simp
    show ?thesis
    proof (cases r2)
      case (Err e)
      with assms d Ok p err ran show ?thesis by (auto simp: publish_phases_def)
    next
      case ok2: (Ok v)
      obtain r3 w3 where g: "git_commit_index programs (pe_lossy env) (rp_index paths) pre_register_message w2 = (r3, w3)"
        by fastforce
      note c = runs_same [OF git_commit_index_runs [OF g] ran]
      show ?thesis
      proof (cases r3)
        case (Err e)
        then have "r = Err e" "w' = w3" using assms d Ok p ok2 g by (auto simp: publish_phases_def)
        with runs_Err [OF c [unfolded Err]] show ?thesis by (simp add: release_plan_def)
      next
        case ok3: (Ok x)
        then have "publish_each programs env paths (index_url paths) pkg_map crates names w3 = Some (r, w')"
          using assms d Ok p ok2 g by (auto simp: publish_phases_def)
        from runs_Ok [OF c [unfolded ok3] publish_each_runs [OF this]] show ?thesis
          by (simp add: release_plan_def)
      qed
    qed
  qed
qed

lemma publish_order_empty:
  assumes "publish_order ks members packages = Some (Ok [])"
  shows "select_packages members packages = Ok []"
  using assms by (auto simp: publish_order_def topological_sort_def split: result.splits if_splits prod.splits)

text \<open>How a run that does not panic ends: before any effect, or with its two phases.\<close>

lemma run_publish_cases:
  assumes "run_publish programs env (Some members) packages dry_run registry_path w = Some (r, w')"
  obtains (early) "w' = w"
      "\<And>order. publish_order (pe_degree_order env) members packages = Some (Ok order) \<Longrightarrow>
         resolve_registry (pe_vars env) registry_path = Ok paths \<Longrightarrow> order = [] \<or> dry_run"
  | (phases) paths order where "\<not> dry_run" "\<forall>name \<in> set order. package_map members name \<noteq> None"
      "resolve_registry (pe_vars env) registry_path = Ok paths"
      "publish_order (pe_degree_order env) members packages = Some (Ok order)"
      "publish_phases programs env paths (package_map members) (known_crates env paths w) order w = Some (r, w')"
proof (cases "resolve_registry (pe_vars env) registry_path")
  case (Err e)
  with assms show ?thesis by (intro early) (auto simp: run_publish_def)
next
  case (Ok paths)
  show ?thesis
  proof (cases "select_packages members packages")
    case (Err e)
    with assms Ok show ?thesis by (intro early) (auto simp: run_publish_def publish_order_def)
  next
    case sel: (Ok ps)
    show ?thesis
    proof (cases "ps = []")
      case True
      with assms Ok sel show ?thesis by (intro early) (auto simp: run_publish_def publish_order_def)
    next
      case False
      then have ord: "publish_order (pe_degree_order env) members packages =
          topological_sort (pe_degree_order env) (map pkg_name ps) (build_workspace_deps ps (package_map members))"
        by (simp add: publish_order_def sel)
      show ?thesis
      proof (cases "\<exists>order. publish_order (pe_degree_order env) members packages = Some (Ok order) \<and> \<not> dry_run")
        case True
        then obtain order where o: "publish_order (pe_degree_order env) members packages = Some (Ok order)" "\<not> dry_run"
          by blast
        have "publish_phases programs env paths (package_map members) (known_crates env paths w) order w = Some (r, w') \<and>
            (\<forall>name \<in> set order. package_map members name \<noteq> None)"
          using assms Ok sel False o(2) o(1) [unfolded ord]
          by (auto simp: run_publish_def Let_def split: if_splits)
        with o Ok show ?thesis by (intro phases [of order paths]) blast+
      next
        case none: False
        have "w' = w"
          using assms Ok sel False none unfolding run_publish_def ord
          by (auto simp: Let_def split: option.splits result.splits if_splits)
        with none show ?thesis by (intro early) auto
      qed
    qed
  qed
qed

section \<open>Properties of a run\<close>


section \<open>An example run\<close>

text \<open>
  Two crates, one packaged file: the run publishes the library and then fails to find the file of
  the application.
\<close>

definition demo_record :: "package \<Rightarrow> string \<Rightarrow> index_entry" where
  "demo_record p ck = index_record p ck (index_url (paths_from_root ''/r'')) (package_map demo_members) {}"

definition demo_digest :: "string \<Rightarrow> string" where
  "demo_digest c = replicate 64 (CHR ''f'')"

definition demo_codec :: index_env where
  "demo_codec =
     \<lparr>to_json = (\<lambda>e. ie_name e @ take 1 (ie_cksum e)),
      from_json = (\<lambda>s.
        if s = ''lib0'' then Some (demo_record (demo_pkg ''lib'' []) placeholder_cksum)
        else if s = ''libf'' then Some (demo_record (demo_pkg ''lib'' []) (demo_digest ''''))
        else if s = ''app0'' then Some (demo_record (demo_pkg ''app'' [''lib'']) placeholder_cksum)
        else if s = ''appf'' then Some (demo_record (demo_pkg ''app'' [''lib'']) (demo_digest ''''))
        else None),
      is_utf8 = (\<lambda>_. True)\<rparr>"

definition demo_publish_env :: publish_env where
  "demo_publish_env =
     \<lparr>pe_vars = Map.empty, pe_index = demo_codec, pe_hex_digest = demo_digest, pe_lossy = id,
      pe_read_dir = (\<lambda>_. []), pe_depth = 0, pe_degree_order = [''lib'', ''app'']\<rparr>"

definition demo_programs :: programs where
  "demo_programs cmd w = (Ok \<lparr>po_success = True, po_stdout = '''', po_stderr = ''''\<rparr>, pw_fs w)"

definition demo_publish_world :: publish_world where
  "demo_publish_world =
     \<lparr>pw_fs = \<lparr>fs_tree = [[''target''] \<mapsto> DirNode, [''target'', ''package''] \<mapsto> DirNode,
          [''target'', ''package'', ''lib-0.1.0.crate''] \<mapsto> FileNode ''PK''], fs_cwd = []\<rparr>,
      pw_ran = []\<rparr>"

definition demo_run :: "(unit anyhow \<times> publish_world) option" where
  "demo_run =
     run_publish demo_programs demo_publish_env (Some demo_members) [] False (Some ''/r'') demo_publish_world"

lemma demo_run_result:
  "map_option (\<lambda>(r, w). (r, map cmd_program (pw_ran w))) demo_run =
     Some (Err ''Expected crate file not found: target/package/app-0.1.0.crate'',
       [''git'', ''git'', ''cargo'', ''git'', ''git'', ''cargo''])"
  by code_simp

lemma demo_run_ends:
  obtains w where "demo_run = Some (Err ''Expected crate file not found: target/package/app-0.1.0.crate'', w)"
    "map cmd_program (pw_ran w) = [''git'', ''git'', ''cargo'', ''git'', ''git'', ''cargo'']"
  using demo_run_result by (cases demo_run) auto


text \<open>
  An interrupted run leaves the commit of the placeholder entries behind, and a dependency on a
  workspace member that is not published is recorded as one in the registry.
\<close>

lemma unpublished_member_in_registry:
  assumes "pkg_map (dep_name d) = Some p" "\<not> is_publishable p"
  shows "dep_registry_url url pkg_map crates d = url"
  using assms by (simp add: dep_registry_url_def)

end
