(* ===== verification/PublishState.thy ===== *)
theory PublishState
  imports PublishRun
begin

text \<open>
  What a release leaves in the registry: where its files are, which operations leave them alone,
  and the entries and crate files after a complete or an interrupted run.
\<close>

section \<open>Where the files of the registry are\<close>

definition plain :: "string \<Rightarrow> bool" where
  "plain s \<longleftrightarrow> s \<noteq> [] \<and> slash \<notin> set s \<and> s \<noteq> ''.'' \<and> s \<noteq> ''..''"

lemma segments_single: "slash \<notin> set s \<Longrightarrow> segments s = [s]"
  by (induction s) auto

lemma lexical_names: "lexical d (map NormalName xs) = d @ xs"
  by (induction xs arbitrary: d) auto

lemma kernel_plain: "\<forall>x \<in> set xs. plain x \<Longrightarrow> concat (map kernel_segment xs) = map NormalName xs"
  by (induction xs) (auto simp: kernel_segment_def plain_def)

lemma loc_join:
  assumes "base \<noteq> []" "\<not> is_absolute p" "\<forall>x \<in> set (segments p). plain x"
  shows "lexical d (kernel_path (path_join base p)) = lexical d (kernel_path base) @ segments p"
  by (simp add: lexical_join assms kernel_plain lexical_names)

lemma plain_relative: "plain s \<Longrightarrow> \<not> is_absolute s"
  by (cases s) (auto simp: plain_def is_absolute_def)

lemma loc_join_plain:
  "base \<noteq> [] \<Longrightarrow> plain s \<Longrightarrow> lexical d (kernel_path (path_join base s)) = lexical d (kernel_path base) @ [s]"
  using loc_join [of base s d] plain_relative by (simp add: plain_def segments_single)

lemma path_join_not_Nil: "s \<noteq> [] \<Longrightarrow> path_join base s \<noteq> []"
  by (simp add: path_join_def)

lemma segments_path_join:
  "plain s \<Longrightarrow> base \<noteq> [] \<Longrightarrow> last base \<noteq> slash \<Longrightarrow> segments (path_join base s) = segments base @ [s]"
  using plain_relative by (simp add: path_join_def segments_join segments_single plain_def)

definition root_location :: "location \<Rightarrow> string \<Rightarrow> location" where
  "root_location d dir = (if dir = [] then d else lexical d (kernel_path dir))"

lemma registry_locations:
  "lexical d (kernel_path (rp_index (paths_from_root dir))) = root_location d dir @ [''index'']"
  "lexical d (kernel_path (rp_crates (paths_from_root dir))) = root_location d dir @ [''crates'']"
proof -
  have "lexical d (kernel_path (path_join dir s)) = root_location d dir @ [s]" if "plain s" for s
  proof (cases "dir = []")
    case True
    then have "lexical d (kernel_path s) = d @ [s]"
      using that plain_relative [OF that]
      by (simp add: lexical_kernel_path segments_single plain_def kernel_segment_def)
    with True that plain_relative [OF that] show ?thesis by (simp add: root_location_def path_join_def)
  qed (use that in \<open>simp add: loc_join_plain root_location_def\<close>)
  then show "lexical d (kernel_path (rp_index (paths_from_root dir))) = root_location d dir @ [''index'']"
    "lexical d (kernel_path (rp_crates (paths_from_root dir))) = root_location d dir @ [''crates'']"
    by (simp_all add: paths_from_root_def plain_def)
qed

text \<open>The names Cargo admits have neither dots nor separators; versions have no separators.\<close>

definition crate_name_ok :: "string \<Rightarrow> bool" where
  "crate_name_ok name \<longleftrightarrow> name \<noteq> [] \<and> slash \<notin> set name \<and> CHR ''.'' \<notin> set name"

lemma crate_name_plain: "crate_name_ok name \<Longrightarrow> plain name"
  by (auto simp: crate_name_ok_def plain_def)

lemma crate_name_part: "crate_name_ok name \<Longrightarrow> part \<noteq> [] \<Longrightarrow> set part \<subseteq> set name \<Longrightarrow> crate_name_ok part"
  by (auto simp: crate_name_ok_def)

lemma char_lower_eq:
  assumes "char_lower c = d" "(of_char d :: nat) < 97"
  shows "c = d \<or> 65 \<le> (of_char d :: nat)"
proof (cases "65 \<le> (of_char c :: nat) \<and> (of_char c :: nat) \<le> 90")
  case True
  then have "(of_char d :: nat) = (of_char c + 32) mod 256"
    using assms(1) by (auto simp: char_lower_def Let_def)
  with True assms(2) show ?thesis by simp
next
  case False
  with assms show ?thesis by (auto simp: char_lower_def Let_def)
qed

lemma crate_name_lower: "crate_name_ok name \<Longrightarrow> crate_name_ok (to_lowercase name)"
proof -
  have "char_lower c = slash \<Longrightarrow> c = slash" "char_lower c = CHR ''.'' \<Longrightarrow> c = CHR ''.''" for c
    using char_lower_eq [of c slash] char_lower_eq [of c "CHR ''.''"] by auto
  then have "slash \<in> set (map char_lower name) \<Longrightarrow> slash \<in> set name"
    "CHR ''.'' \<in> set (map char_lower name) \<Longrightarrow> CHR ''.'' \<in> set name"
    unfolding set_map by (metis imageE)+
  then show "crate_name_ok name \<Longrightarrow> crate_name_ok (to_lowercase name)"
    unfolding crate_name_ok_def to_lowercase_def by blast
qed

lemma name_to_path_pieces:
  assumes "crate_name_ok name" "name_to_path name = Some rel"
  shows "\<not> is_absolute rel \<and> (\<forall>x \<in> set (segments rel). plain x) \<and> rel \<noteq> []"
proof -
  let ?l = "to_lowercase name"
  have l: "crate_name_ok ?l" by (rule crate_name_lower [OF assms(1)])
  then have ne: "?l \<noteq> []" by (simp add: crate_name_ok_def)
  then have len: "length ?l \<noteq> 0" by simp
  have part: "plain s" if "s \<noteq> []" "set s \<subseteq> set ?l" for s
    using crate_name_plain [OF crate_name_part [OF l that]] .
  have one: ?thesis if "rel = path_join a ?l" "plain a" for a
  proof -
    have "last a \<noteq> slash" using that(2) by (metis last_in_set plain_def)
    then have rel: "rel = a @ slash # ?l"
      using that plain_relative [OF part [of ?l]] len by (simp add: path_join_def plain_def)
    then have "segments rel = [a, ?l]"
      using that(2) part [of ?l] len by (simp add: segments_join segments_single plain_def)
    moreover have "\<not> is_absolute rel" using that(2) plain_relative [of a] rel
      by (simp add: is_absolute_def hd_append plain_def)
    ultimately show ?thesis using that(2) part [of ?l] len rel by simp
  qed
  have two: ?thesis if "rel = path_join (path_join a b) ?l" "plain a" "plain b" for a b
  proof -
    have "last a \<noteq> slash" "last b \<noteq> slash" using that by (metis last_in_set plain_def)+
    then have "last (path_join a b) \<noteq> slash" "path_join a b \<noteq> []" "segments (path_join a b) = [a, b]"
      using that plain_relative [of b] segments_path_join [of b a]
      by (auto simp: path_join_def segments_single plain_def)
    then have "segments rel = [a, b, ?l]" "rel \<noteq> []"
      using segments_path_join [OF part [of ?l], of "path_join a b"] len that by (auto simp: path_join_def)
    moreover have "\<not> is_absolute rel"
      using that plain_relative [of a] plain_relative [of b] plain_relative [OF part [of ?l]] len
      by (auto simp: path_join_def is_absolute_def hd_append plain_def)
    ultimately show ?thesis using that part [of ?l] len by auto
  qed
  have sub: "set (take k ?l) \<subseteq> set ?l" "set (drop j (take k ?l)) \<subseteq> set ?l" for j k
    using set_take_subset set_drop_subset by (metis, metis subset_trans)
  consider "length ?l = 1" | "length ?l = 2" | "length ?l = 3" | "4 \<le> length ?l" using len by linarith
  then show ?thesis
  proof cases
    case 1
    then have "rel = path_join ''1'' ?l"
      using assms(2) unfolding name_to_path_def Let_def by (metis len option.inject)
    with one show ?thesis by (simp add: plain_def)
  next
    case 2
    then have "rel = path_join ''2'' ?l"
      using assms(2) ne by (simp add: name_to_path_def Let_def)
    with one show ?thesis by (simp add: plain_def)
  next
    case 3
    then obtain a where "slice_to ?l 1 = Some a" "rel = path_join (path_join ''3'' a) ?l"
      using assms(2) ne by (auto simp: name_to_path_def Let_def)
    moreover from this have "plain a"
      using 3 ne part [of a] sub(1) [of 1] by (auto simp: slice_to_def split: if_splits)
    ultimately show ?thesis using two [of "''3''" a] by (simp add: plain_def)
  next
    case 4
    then obtain a b where ab: "slice_to ?l 2 = Some a" "slice_range ?l 2 4 = Some b"
      "rel = path_join (path_join a b) ?l"
      using assms(2) ne by (auto simp: name_to_path_def Let_def split: option.splits)
    moreover have "plain a" using ab(1) 4 ne part [of a] sub(1) [of 2] by (auto simp: slice_to_def split: if_splits)
    moreover have "plain b"
      using ab(2) 4 ne part [of b] sub(2) [of 2 4] by (auto simp: slice_range_def split: if_splits)
    ultimately show ?thesis using two by blast
  qed
qed

definition index_path :: "registry_paths \<Rightarrow> package \<Rightarrow> string" where
  "index_path paths pkg = path_join (rp_index paths) (the (name_to_path (pkg_name pkg)))"

definition crate_ok :: "package \<Rightarrow> bool" where
  "crate_ok pkg \<longleftrightarrow> crate_name_ok (pkg_name pkg) \<and> plain (pkg_version pkg) \<and> name_to_path (pkg_name pkg) \<noteq> None"

lemma paths_not_Nil: "rp_index (paths_from_root dir) \<noteq> []" "rp_crates (paths_from_root dir) \<noteq> []"
  by (simp_all add: paths_from_root_def path_join_not_Nil)

lemma index_location:
  assumes "crate_ok pkg"
  shows "\<exists>xs. lexical d (kernel_path (index_path (paths_from_root dir) pkg)) = root_location d dir @ ''index'' # xs"
  using assms name_to_path_pieces [of "pkg_name pkg"] paths_not_Nil(1)
  by (auto simp: crate_ok_def index_path_def loc_join registry_locations)

lemma download_location:
  assumes "crate_ok pkg"
  shows "lexical d (kernel_path (download_path (paths_from_root dir) pkg)) =
    root_location d dir @ [''crates'', pkg_name pkg, pkg_version pkg, ''download'']"
proof -
  have "plain (pkg_name pkg)" "plain (pkg_version pkg)" "plain ''download''"
    using assms crate_name_plain by (auto simp: crate_ok_def plain_def)
  then show ?thesis
    using paths_not_Nil(2) [of dir]
    by (simp add: download_path_def loc_join_plain path_join_not_Nil registry_locations)
      (simp add: loc_join_plain path_join_not_Nil registry_locations plain_def)
qed

lemma locations_apart:
  assumes "crate_ok pkg" "crate_ok pkg'"
  shows "loc_of fs (index_path (paths_from_root dir) pkg) \<noteq> loc_of fs (download_path (paths_from_root dir) pkg')"
    and "pkg_name pkg \<noteq> pkg_name pkg' \<Longrightarrow>
      loc_of fs (download_path (paths_from_root dir) pkg) \<noteq> loc_of fs (download_path (paths_from_root dir) pkg')"
  using index_location [OF assms(1), of "fs_cwd fs" dir] download_location assms by (auto simp: loc_of_def)

section \<open>Files that stay\<close>

text \<open>A path that names a file whose contents have a property.\<close>

definition stored :: "file_system \<Rightarrow> string \<Rightarrow> (string \<Rightarrow> bool) \<Rightarrow> bool" where
  "stored fs p P \<longleftrightarrow> (\<exists>loc c. find_node fs p = Ok (loc, FileNode c) \<and> P c)"

lemma stored_mono: "stored fs p P \<Longrightarrow> (\<And>c. P c \<Longrightarrow> Q c) \<Longrightarrow> stored fs p Q"
  by (auto simp: stored_def)

text \<open>\<open>writes_at loc fs fs'\<close>: directories stay, and only the file at \<open>loc\<close> may have changed.\<close>

definition writes_at :: "location \<Rightarrow> file_system \<Rightarrow> file_system \<Rightarrow> bool" where
  "writes_at loc fs fs' \<longleftrightarrow>
     fs_cwd fs' = fs_cwd fs \<and>
     (\<forall>l. l \<noteq> loc \<longrightarrow> fs_tree fs' l = fs_tree fs l \<or> fs_tree fs l = None \<and> fs_tree fs' l = Some DirNode) \<and>
     (\<forall>l. is_dir_at (fs_tree fs) l \<longrightarrow> is_dir_at (fs_tree fs') l)"

lemma stored_writes:
  assumes "writes_at loc fs fs'" "find_node fs p = Ok (l, FileNode c)" "l \<noteq> loc"
  shows "find_node fs' p = Ok (l, FileNode c)"
proof -
  have r: "resolve fs p = Ok l" "node_at (fs_tree fs) l = Some (FileNode c)"
    using assms(2) by (simp_all add: find_node_loc)
  then have "resolve fs' p = Ok l"
    using assms(1) by (intro keeps_resolve [of fs fs']) (auto simp: writes_at_def)
  moreover have "node_at (fs_tree fs') l = Some (FileNode c)"
    using r(2) assms(1,3) by (auto simp: writes_at_def node_at_def split: if_splits)
  ultimately show ?thesis by (simp add: find_node_loc)
qed

lemma stored_frame:
  assumes "writes_at loc fs fs'" "stored fs p P" "loc_of fs p \<noteq> loc"
  shows "stored fs' p P"
  using assms stored_writes find_node_loc_of unfolding stored_def by metis

lemma adds_dirs_writes: "adds_dirs fs fs' \<Longrightarrow> writes_at loc fs fs'"
  using adds_dirs_is_dir by (auto simp: writes_at_def adds_dirs_def)

lemma stored_adds_dirs: "adds_dirs fs fs' \<Longrightarrow> stored fs p P \<Longrightarrow> stored fs' p P"
  using stored_frame [OF adds_dirs_writes [of fs fs' "loc_of fs p @ [[]]"]] by simp

lemma write_all_writes: "write_all fs p c = (r, fs') \<Longrightarrow> writes_at (loc_of fs p) fs fs'"
  by (cases r; erule write_all_cases)
    (auto simp: writes_at_def is_dir_at_upd dest: resolve_loc)

lemma copy_file_writes: "copy_file fs src dst = (r, fs') \<Longrightarrow> writes_at (loc_of fs dst) fs fs'"
proof -
  have same: "writes_at loc fs fs" for loc by (simp add: writes_at_def)
  show "copy_file fs src dst = (r, fs') \<Longrightarrow> writes_at (loc_of fs dst) fs fs'"
    using same write_all_writes
    by (auto simp: copy_file_def Let_def split: result.splits node.splits prod.splits if_splits)
qed

lemma loc_of_cwd: "fs_cwd fs' = fs_cwd fs \<Longrightarrow> loc_of fs' p = loc_of fs p"
  by (simp add: loc_of_def)

lemma writes_at_cwd: "writes_at loc fs fs' \<Longrightarrow> fs_cwd fs' = fs_cwd fs"
  by (simp add: writes_at_def)

section \<open>Entries in the index\<close>

text \<open>The entry is in the index file of its crate.\<close>

definition indexed :: "index_env \<Rightarrow> registry_paths \<Rightarrow> file_system \<Rightarrow> package \<Rightarrow> index_entry \<Rightarrow> bool" where
  "indexed env paths fs pkg e \<longleftrightarrow> stored fs (index_path paths pkg) (\<lambda>c. e \<in> set (index_entries env c))"

lemma upsert_effect:
  assumes "upsert env index_dir ctx entry w = Some (Ok u, w')" "encodes (pe_index env) entry"
  obtains rel content where "name_to_path (ie_name entry) = Some rel" "pw_ran w' = pw_ran w"
    "find_node (pw_fs w') (path_join index_dir rel) = Ok (loc_of (pw_fs w) (path_join index_dir rel), FileNode content)"
    "index_entries (pe_index env) content =
       upserted entry (entries_at (pe_index env) (pw_fs w) (loc_of (pw_fs w) (path_join index_dir rel)))"
    "writes_at (loc_of (pw_fs w) (path_join index_dir rel)) (pw_fs w) (pw_fs w')"
proof -
  obtain rel where rel: "name_to_path (ie_name entry) = Some rel"
    "\<exists>r. upsert_at (pe_index env) (pw_fs w) (path_join index_dir rel) entry = (r, pw_fs w') \<and> r = Ok u"
    using assms(1) by (auto simp: upsert_def upsert_entry_def split: prod.splits)
  let ?p = "path_join index_dir rel"
  from rel(2) upsert_at_Ok [OF assms(2)] obtain loc content where u:
    "find_node (pw_fs w') ?p = Ok (loc, FileNode content)"
    "index_entries (pe_index env) content = upserted entry (entries_at (pe_index env) (pw_fs w) loc)"
    "\<forall>l. l \<noteq> loc \<longrightarrow> fs_tree (pw_fs w') l = fs_tree (pw_fs w) l \<or>
       fs_tree (pw_fs w) l = None \<and> fs_tree (pw_fs w') l = Some DirNode"
    "\<not> is_dir_at (fs_tree (pw_fs w)) loc" "fs_cwd (pw_fs w') = fs_cwd (pw_fs w)"
    by blast
  have loc: "loc = loc_of (pw_fs w) ?p" using find_node_loc_of [OF u(1)] loc_of_cwd [OF u(5)] by simp
  have "is_dir_at (fs_tree (pw_fs w')) l" if "is_dir_at (fs_tree (pw_fs w)) l" for l
    using that u(3,4) by (auto simp: is_dir_at_def node_at_def split: if_splits)
  with u(3,5) have "writes_at loc (pw_fs w) (pw_fs w')" by (simp add: writes_at_def)
  with rel(1) upsert_ran [OF assms(1)] u(1,2) that show ?thesis unfolding loc by blast
qed

lemma upserted_keeps: "e \<in> set es \<Longrightarrow> \<not> same_version e entry \<Longrightarrow> e \<in> set (upserted entry es)"
  by (force simp: upserted_def)

lemma upsert_indexes:
  assumes "upsert env (rp_index paths) ctx entry w = Some (Ok u, w')" "encodes (pe_index env) entry"
    and "ie_name entry = pkg_name pkg"
  shows "indexed (pe_index env) paths (pw_fs w') pkg entry"
proof -
  from assms(1,2) obtain rel content where "name_to_path (ie_name entry) = Some rel"
    "find_node (pw_fs w') (path_join (rp_index paths) rel) = Ok (loc_of (pw_fs w) (path_join (rp_index paths) rel), FileNode content)"
    "entry \<in> set (index_entries (pe_index env) content)"
    by (rule upsert_effect) (simp add: upserted_facts(1))
  then show ?thesis by (auto simp: indexed_def stored_def index_path_def assms(3))
qed

lemma upsert_keeps_indexed:
  assumes u: "upsert env index_dir ctx entry w = Some (Ok u, w')" "encodes (pe_index env) entry"
    and "indexed (pe_index env) paths (pw_fs w) pkg e" "\<not> same_version e entry"
  shows "indexed (pe_index env) paths (pw_fs w') pkg e"
proof -
  obtain l c where f: "find_node (pw_fs w) (index_path paths pkg) = Ok (l, FileNode c)"
    "e \<in> set (index_entries (pe_index env) c)"
    using assms(3) by (auto simp: indexed_def stored_def)
  from u show ?thesis
  proof (rule upsert_effect)
    fix rel content
    let ?loc = "loc_of (pw_fs w) (path_join index_dir rel)"
    assume g: "find_node (pw_fs w') (path_join index_dir rel) = Ok (?loc, FileNode content)"
      "index_entries (pe_index env) content = upserted entry (entries_at (pe_index env) (pw_fs w) ?loc)"
      "writes_at ?loc (pw_fs w) (pw_fs w')"
    show "indexed (pe_index env) paths (pw_fs w') pkg e"
    proof (cases "l = ?loc")
      case False
      with stored_writes [OF g(3) f(1)] f(2) show ?thesis by (auto simp: indexed_def stored_def)
    next
      case True
      have r: "resolve (pw_fs w) (index_path paths pkg) = Ok l" "node_at (fs_tree (pw_fs w)) l = Some (FileNode c)"
        using f(1) by (simp_all add: find_node_loc)
      then have "l \<noteq> []" by (auto simp: node_at_def)
      with r(2) have "entries_at (pe_index env) (pw_fs w) l = index_entries (pe_index env) c"
        by (simp add: entries_at_def node_at_def)
      with f(2) assms(4) True g(2) have "e \<in> set (index_entries (pe_index env) content)"
        by (simp add: upserted_keeps)
      moreover have "resolve (pw_fs w') (index_path paths pkg) = Ok l"
        using r(1) g(3) by (intro keeps_resolve [of "pw_fs w" "pw_fs w'"]) (auto simp: writes_at_def)
      then have "find_node (pw_fs w') (index_path paths pkg) = Ok (l, FileNode content)"
        using g(1) True by (simp add: find_node_loc)
      ultimately show ?thesis by (auto simp: indexed_def stored_def)
    qed
  qed
qed

lemma upsert_keeps_stored:
  assumes "upsert env (rp_index paths) ctx entry w = Some (Ok u, w')" "encodes (pe_index env) entry"
    and "ie_name entry = pkg_name pkg" "stored (pw_fs w) p P"
    and "loc_of (pw_fs w) p \<noteq> loc_of (pw_fs w) (index_path paths pkg)"
  shows "stored (pw_fs w') p P"
  using assms(1,2)
proof (rule upsert_effect)
  fix rel
  assume "name_to_path (ie_name entry) = Some rel"
    "writes_at (loc_of (pw_fs w) (path_join (rp_index paths) rel)) (pw_fs w) (pw_fs w')"
  then have "writes_at (loc_of (pw_fs w) (index_path paths pkg)) (pw_fs w) (pw_fs w')"
    using assms(3) by (simp add: index_path_def)
  then show ?thesis using stored_frame assms(4,5) by blast
qed

lemma upsert_cwd:
  assumes "upsert env index_dir ctx entry w = Some (Ok u, w')" "encodes (pe_index env) entry"
  shows "fs_cwd (pw_fs w') = fs_cwd (pw_fs w)"
  using assms by (rule upsert_effect) (rule writes_at_cwd)

section \<open>Packaging\<close>

text \<open>Programs that leave the file a path names, and the working directory, as they are.\<close>

definition spares :: "programs \<Rightarrow> string \<Rightarrow> bool" where
  "spares programs p \<longleftrightarrow>
     (\<forall>cmd w. fs_cwd (snd (programs cmd w)) = fs_cwd (pw_fs w) \<and>
       (\<forall>c. stored (pw_fs w) p (\<lambda>x. x = c) \<longrightarrow> stored (snd (programs cmd w)) p (\<lambda>x. x = c)))"

lemma spares_stored: "spares programs p \<Longrightarrow> stored (pw_fs w) p P \<Longrightarrow> stored (snd (programs cmd w)) p P"
  unfolding spares_def stored_def by metis

lemma run_command_keeps:
  assumes "run_command programs cmd w = (a, w')" "spares programs p"
  shows "stored (pw_fs w) p P \<Longrightarrow> stored (pw_fs w') p P" "fs_cwd (pw_fs w') = fs_cwd (pw_fs w)"
  using assms spares_stored [OF assms(2), of w P cmd]
  by (auto simp: run_command_def spares_def split: prod.splits) (metis snd_conv)

lemma commit_keeps:
  assumes "git_commit_index programs lossy index_dir message w = (r, w')" "spares programs p"
  shows "stored (pw_fs w) p P \<Longrightarrow> stored (pw_fs w') p P" "fs_cwd (pw_fs w') = fs_cwd (pw_fs w)"
proof -
  obtain a1 w1 where c1: "run_command programs (git_add index_dir) w = (a1, w1)" by fastforce
  obtain a2 w2 where c2: "run_command programs (git_commit index_dir message) w1 = (a2, w2)" by fastforce
  have w': "w' = w1 \<or> w' = w2"
    using assms(1) c1 c2 by (auto simp: git_commit_index_def split: result.splits if_splits)
  note k = run_command_keeps [OF c1 assms(2)] run_command_keeps [OF c2 assms(2)]
  show "stored (pw_fs w) p P \<Longrightarrow> stored (pw_fs w') p P" using w' k(1,3) by blast
  show "fs_cwd (pw_fs w') = fs_cwd (pw_fs w)" using w' k(2,4) by auto
qed

lemma cargo_keeps:
  assumes "cargo_package programs lossy pkg w = (r, w')" "spares programs p"
  shows "stored (pw_fs w) p P \<Longrightarrow> stored (pw_fs w') p P" "fs_cwd (pw_fs w') = fs_cwd (pw_fs w)"
  using assms by (auto simp: cargo_package_def split: prod.splits result.splits if_splits
      dest: run_command_keeps)

lemma copy_crate_keeps:
  assumes "copy_crate paths pkg crate_file w = (r, w')"
  shows "stored (pw_fs w) p P \<Longrightarrow> loc_of (pw_fs w) p \<noteq> loc_of (pw_fs w) (download_path paths pkg) \<Longrightarrow>
      stored (pw_fs w') p P"
    and "fs_cwd (pw_fs w') = fs_cwd (pw_fs w)"
proof -
  let ?dir = "path_join (path_join (rp_crates paths) (pkg_name pkg)) (pkg_version pkg)"
  obtain r1 fs1 where c: "create_dir_all (pw_fs w) ?dir = (r1, fs1)" by fastforce
  note a = create_dir_all_adds [OF c]
  obtain r2 fs2 where d: "copy_file fs1 crate_file (download_path paths pkg) = (r2, fs2)" by fastforce
  note b = copy_file_writes [OF d]
  have w': "pw_fs w' = fs1 \<or> pw_fs w' = fs2"
    using assms c d by (auto simp: copy_crate_def download_path_def Let_def split: result.splits)
  have cwd: "fs_cwd fs1 = fs_cwd (pw_fs w)" "fs_cwd fs2 = fs_cwd fs1"
    using a b by (simp_all add: adds_dirs_def writes_at_def)
  with w' show "fs_cwd (pw_fs w') = fs_cwd (pw_fs w)" by auto
  assume s: "stored (pw_fs w) p P" and n: "loc_of (pw_fs w) p \<noteq> loc_of (pw_fs w) (download_path paths pkg)"
  have "stored fs1 p P" using stored_adds_dirs [OF a s] .
  moreover from this have "stored fs2 p P"
    using stored_frame [OF b] n loc_of_cwd [OF cwd(1)] by simp
  ultimately show "stored (pw_fs w') p P" using w' by auto
qed

lemma package_keeps:
  assumes "package_and_copy programs env pkg paths url pkg_map crates w = Some (r, w')" "spares programs p"
  shows "stored (pw_fs w) p P \<Longrightarrow> loc_of (pw_fs w) p \<noteq> loc_of (pw_fs w) (download_path paths pkg) \<Longrightarrow>
      stored (pw_fs w') p P"
    and "fs_cwd (pw_fs w') = fs_cwd (pw_fs w)"
proof -
  obtain r1 w1 where c: "cargo_package programs (pe_lossy env) pkg w = (r1, w1)" by fastforce
  note k = cargo_keeps [OF c assms(2)]
  have w': "w' = w1 \<or> (\<exists>crate_file r2. copy_crate paths pkg crate_file w1 = (r2, w'))"
    using assms(1) c by (auto simp: package_and_copy_def split: result.splits option.splits prod.splits)
  then show "fs_cwd (pw_fs w') = fs_cwd (pw_fs w)" using k(2) copy_crate_keeps(2) by metis
  assume s: "stored (pw_fs w) p P" and n: "loc_of (pw_fs w) p \<noteq> loc_of (pw_fs w) (download_path paths pkg)"
  have "loc_of (pw_fs w1) p \<noteq> loc_of (pw_fs w1) (download_path paths pkg)"
    using n loc_of_cwd [OF k(2)] by simp
  with w' k(1) [OF s] copy_crate_keeps(1) show "stored (pw_fs w') p P" by metis
qed

text \<open>The last segment of a path, when it is a name, is the last component of its location.\<close>

lemma last_loc_of:
  assumes "plain (last (segments p))"
  shows "loc_of fs p \<noteq> [] \<and> last (loc_of fs p) = last (segments p)"
proof -
  obtain ss s where s: "segments p = ss @ [s]" by (metis append_butlast_last_id segments_not_Nil)
  with assms have "concat (map kernel_segment (segments p)) = concat (map kernel_segment ss) @ [NormalName s]"
    by (simp add: kernel_segment_def plain_def)
  then show ?thesis
    by (simp add: loc_of_def lexical_kernel_path lexical_append s)
qed

lemma last_segments_suffix:
  assumes "slash \<notin> set t" "t \<noteq> []"
  shows "\<exists>s. last (segments (a @ t)) = s @ t"
proof (induction a)
  case Nil
  then show ?case using assms by (simp add: segments_single)
next
  case (Cons c a)
  then show ?case by (auto split: list.splits)
qed

lemma segments_no_slash: "x \<in> set (segments p) \<Longrightarrow> slash \<notin> set x"
  by (induction p arbitrary: x) (auto split: if_splits list.splits)

lemma last_segment_joined:
  assumes "slash \<notin> set t" "t \<noteq> []"
  shows "last (segments (path_join base t)) = t"
proof -
  have "last (segments (q @ slash # t)) = t" for q
    using assms by (simp add: segments_join segments_single)
  then have "last (segments base') = t" if "base' = q @ [slash] @ t" for q base'
    using that by simp
  moreover have "path_join base t = t \<or> (\<exists>q. path_join base t = q @ [slash] @ t)"
    by (auto simp: path_join_def) (metis append.assoc append_butlast_last_id)
  ultimately show ?thesis using assms by (auto simp: segments_single)
qed

lemma crate_file_is_not_download:
  assumes "resolve fs (crate_path pkg) = Ok loc"
  shows "resolve fs (download_path paths pkg) \<noteq> Ok loc"
proof
  assume d: "resolve fs (download_path paths pkg) = Ok loc"
  have "last (segments (download_path paths pkg)) = ''download''"
    unfolding download_path_def by (rule last_segment_joined) simp_all
  then have download: "last loc = ''download''"
    using last_loc_of [of "download_path paths pkg" fs] resolve_loc [OF d] by (simp add: plain_def)
  have "\<exists>x. crate_path pkg = x @ ''.crate''"
    by (simp add: crate_path_def path_join_def)
  then obtain x where x: "crate_path pkg = x @ ''.crate''" ..
  have "\<exists>s. last (segments (x @ ''.crate'')) = s @ ''.crate''" by (rule last_segments_suffix) simp_all
  then obtain s where s: "last (segments (crate_path pkg)) = s @ ''.crate''" unfolding x by blast
  have "slash \<notin> set (last (segments (crate_path pkg)))"
    by (rule segments_no_slash [of _ "crate_path pkg"]) simp
  then have "plain (last (segments (crate_path pkg)))"
    unfolding s plain_def by auto
  then have "last loc = s @ ''.crate''"
    using last_loc_of [of "crate_path pkg" fs] resolve_loc [OF assms] s by simp
  with download have "last ''download'' = last (s @ ''.crate'')" by simp
  then show False by simp
qed

text \<open>A packaged crate: what is copied is what the checksum in its entry was computed from.\<close>

lemma packaged_file:
  assumes "package_and_copy programs env pkg paths url pkg_map crates w = Some (Ok entry, w')"
  shows "\<exists>c. entry = index_record pkg (pe_hex_digest env c) url pkg_map crates \<and>
    stored (pw_fs w') (download_path paths pkg) (\<lambda>x. x = c)"
proof -
  obtain crate_file w1 where c: "cargo_package programs (pe_lossy env) pkg w = (Ok crate_file, w1)"
    using assms by (auto simp: package_and_copy_def split: result.splits prod.splits)
  then have is_crate: "crate_file = crate_path pkg"
    by (auto simp: cargo_package_def split: prod.splits result.splits if_splits)
  obtain cksum where k: "sha256_file (pe_hex_digest env) (pw_fs w1) crate_file = Ok cksum"
    "entry = index_record pkg cksum url pkg_map crates"
    "\<exists>u. copy_crate paths pkg crate_file w1 = (Ok u, w')"
    using assms c
    by (auto simp: package_and_copy_def build_index_entry_def split: result.splits prod.splits option.splits)
  then obtain contents loc where f: "find_node (pw_fs w1) crate_file = Ok (loc, FileNode contents)"
    "cksum = pe_hex_digest env contents"
    by (auto simp: sha256_file_def with_context_def result_simps read_all_Ok)
  let ?dir = "path_join (path_join (rp_crates paths) (pkg_name pkg)) (pkg_version pkg)"
  obtain r1 fs1 where d: "create_dir_all (pw_fs w1) ?dir = (r1, fs1)" by fastforce
  have "writes_at (loc @ [[]]) (pw_fs w1) fs1" using adds_dirs_writes create_dir_all_adds [OF d] by blast
  from stored_writes [OF this f(1)] have g: "find_node fs1 crate_file = Ok (loc, FileNode contents)" by simp
  have "resolve fs1 crate_file = Ok loc" using g by (simp add: find_node_loc)
  then have "resolve fs1 (download_path paths pkg) \<noteq> Ok loc"
    using crate_file_is_not_download is_crate by blast
  then have copy: "copy_file fs1 crate_file (download_path paths pkg) =
      (case write_all fs1 (download_path paths pkg) contents of
         (Err e, fs') \<Rightarrow> (Err e, fs') | (Ok _, fs') \<Rightarrow> (Ok (length contents), fs'))"
    using g by (simp add: copy_file_def)
  have "\<exists>u. write_all fs1 (download_path paths pkg) contents = (Ok u, pw_fs w')"
    using k(3) d copy
    by (auto simp: copy_crate_def download_path_def Let_def split: result.splits prod.splits)
  then have "stored (pw_fs w') (download_path paths pkg) (\<lambda>x. x = contents)"
    using write_all_find by (fastforce simp: stored_def)
  with k(2) f(2) show ?thesis by blast
qed

section \<open>The state of the registry\<close>

definition pending ::
  "publish_env \<Rightarrow> registry_paths \<Rightarrow> (string \<rightharpoonup> package) \<Rightarrow> string set \<Rightarrow> file_system \<Rightarrow> package \<Rightarrow> bool" where
  "pending env paths pkg_map crates fs pkg \<longleftrightarrow>
     indexed (pe_index env) paths fs pkg
       (index_record pkg placeholder_cksum (index_url paths) pkg_map crates)"

text \<open>A released crate: its file is in place and its index entry has the checksum of that file.\<close>

definition released ::
  "publish_env \<Rightarrow> registry_paths \<Rightarrow> (string \<rightharpoonup> package) \<Rightarrow> string set \<Rightarrow> file_system \<Rightarrow> package \<Rightarrow> bool" where
  "released env paths pkg_map crates fs pkg \<longleftrightarrow>
     (\<exists>c. indexed (pe_index env) paths fs pkg
            (index_record pkg (pe_hex_digest env c) (index_url paths) pkg_map crates) \<and>
          stored fs (download_path paths pkg) (\<lambda>x. x = c))"

text \<open>
  What a release relies on: package names are Cargo's, the JSON of every entry it writes can be
  read back, and neither \<open>cargo package\<close> nor \<open>git\<close> touches the files of the registry.
\<close>

definition release_ok ::
  "programs \<Rightarrow> publish_env \<Rightarrow> registry_paths \<Rightarrow> (string \<rightharpoonup> package) \<Rightarrow> string set \<Rightarrow> package \<Rightarrow> bool" where
  "release_ok programs env paths pkg_map crates pkg \<longleftrightarrow>
     crate_ok pkg \<and> spares programs (index_path paths pkg) \<and> spares programs (download_path paths pkg) \<and>
     encodes (pe_index env) (index_record pkg placeholder_cksum (index_url paths) pkg_map crates) \<and>
     (\<forall>c. encodes (pe_index env)
        (index_record pkg (pe_hex_digest env c) (index_url paths) pkg_map crates))"

lemma index_record_name [simp]: "ie_name (index_record pkg ck url pm cr) = pkg_name pkg"
  by (simp add: index_record_def)

lemma index_record_version: "same_version (index_record pkg ck url pm cr) (index_record pkg' ck' url' pm' cr') \<longleftrightarrow>
    pkg_name pkg = pkg_name pkg' \<and> pkg_version pkg = pkg_version pkg'"
  by (simp add: same_version_def index_record_def)

lemma pre_register_state:
  assumes "pre_register env (paths_from_root dir) (index_url (paths_from_root dir)) pm crates names w = Some (Ok u, w')"
    and "\<And>n. n \<in> set names \<Longrightarrow> \<exists>pkg. pm n = Some pkg \<and> pkg_name pkg = n \<and>
           encodes (pe_index env) (index_record pkg placeholder_cksum (index_url (paths_from_root dir)) pm crates)"
    and "distinct names"
  shows "(\<forall>n \<in> set names. pending env (paths_from_root dir) pm crates (pw_fs w') (the (pm n))) \<and>
    (\<forall>pkg. pkg_name pkg \<notin> set names \<longrightarrow> pending env (paths_from_root dir) pm crates (pw_fs w) pkg \<longrightarrow>
       pending env (paths_from_root dir) pm crates (pw_fs w') pkg)"
  using assms
proof (induction names arbitrary: w)
  case (Cons n names)
  let ?paths = "paths_from_root dir"
  obtain pkg where pkg: "pm n = Some pkg" "pkg_name pkg = n"
    "encodes (pe_index env) (index_record pkg placeholder_cksum (index_url ?paths) pm crates)"
    using Cons.prems(2) [of n] by auto
  from Cons.prems(1) show ?case
  proof (cases rule: pre_register_cases)
    case (registered pkg' u' w1)
    note up = registered(2) [unfolded option.inject [THEN iffD1, OF trans [OF registered(1) [symmetric] pkg(1)]]]
    have here: "pending env ?paths pm crates (pw_fs w1) pkg"
      unfolding pending_def by (rule upsert_indexes [OF up pkg(3)]) simp
    have others: "pending env ?paths pm crates (pw_fs w1) k"
      if "pending env ?paths pm crates (pw_fs w) k" "pkg_name k \<noteq> n" for k
      using upsert_keeps_indexed [OF up pkg(3)] that pkg(2) by (auto simp: pending_def index_record_version)
    have rest: "(\<forall>n \<in> set names. pending env ?paths pm crates (pw_fs w') (the (pm n))) \<and>
      (\<forall>pkg. pkg_name pkg \<notin> set names \<longrightarrow> pending env ?paths pm crates (pw_fs w1) pkg \<longrightarrow>
         pending env ?paths pm crates (pw_fs w') pkg)"
      by (rule Cons.IH [OF registered(3)]) (use Cons.prems in auto)
    with here others pkg Cons.prems(3) show ?thesis by auto
  qed simp
qed simp

lemma upsert_Err_adds:
  assumes "upsert env index_dir ctx entry w = Some (Err e, w')"
  shows "adds_dirs (pw_fs w) (pw_fs w')"
proof -
  obtain rel r where r: "upsert_at (pe_index env) (pw_fs w) (path_join index_dir rel) entry = (r, pw_fs w')"
    "map_err (\<lambda>_. ctx) r = Err e"
    using assms by (auto simp: upsert_def upsert_entry_def split: prod.splits)
  then obtain e' where e': "r = Err e'" by (cases r) auto
  let ?p = "path_join index_dir rel"
  let ?create = "case path_parent ?p of Some parent \<Rightarrow> create_dir_all (pw_fs w) parent | None \<Rightarrow> (Ok (), pw_fs w)"
  obtain r1 fs1 where create: "?create = (r1, fs1)" by fastforce
  then have a: "adds_dirs (pw_fs w) fs1" by (auto split: option.splits intro: create_dir_all_adds)
  have w: "pw_fs w' = fs1" if "map_prod io_failed id (write_all fs1 ?p t) = (Err e', pw_fs w')" for t
    using that by (auto simp: write_all_def io_failed_def split: result.splits if_splits)
  have "pw_fs w' = fs1"
  proof (cases r1)
    case (Err x)
    with r(1) create show ?thesis by (simp add: upsert_at_def)
  next
    case (Ok x)
    show ?thesis
    proof (cases "path_exists fs1 ?p")
      case True
      with r(1) create Ok e' show ?thesis
        by (cases "read_to_string (is_utf8 (pe_index env)) fs1 ?p") (auto simp: upsert_at_def dest: w)
    next
      case False
      with r(1) create Ok e' show ?thesis by (auto simp: upsert_at_def dest: w)
    qed
  qed
  with a show ?thesis by simp
qed

text \<open>\<open>keeps A w w'\<close>: the crates outside \<open>A\<close> are pending, or released, after as before.\<close>

definition keeps ::
  "publish_env \<Rightarrow> registry_paths \<Rightarrow> (string \<rightharpoonup> package) \<Rightarrow> string set \<Rightarrow> programs \<Rightarrow> string set \<Rightarrow>
   publish_world \<Rightarrow> publish_world \<Rightarrow> bool" where
  "keeps env paths pm crates programs A w w' \<longleftrightarrow>
     (\<forall>k. release_ok programs env paths pm crates k \<longrightarrow> pkg_name k \<notin> A \<longrightarrow>
       (pending env paths pm crates (pw_fs w) k \<longrightarrow> pending env paths pm crates (pw_fs w') k) \<and>
       (released env paths pm crates (pw_fs w) k \<longrightarrow> released env paths pm crates (pw_fs w') k))"

lemma keeps_trans: "keeps env paths pm crates programs A w w1 \<Longrightarrow> keeps env paths pm crates programs B w1 w2 \<Longrightarrow>
    keeps env paths pm crates programs (A \<union> B) w w2"
  unfolding keeps_def by blast

lemma keeps_weaken: "keeps env paths pm crates programs A w w' \<Longrightarrow> A \<subseteq> B \<Longrightarrow> keeps env paths pm crates programs B w w'"
  unfolding keeps_def by blast

lemma keepsI:
  assumes "\<And>k e. release_ok programs env paths pm crates k \<Longrightarrow> pkg_name k \<notin> A \<Longrightarrow>
      (\<exists>ck. e = index_record k ck (index_url paths) pm crates) \<Longrightarrow>
      indexed (pe_index env) paths (pw_fs w) k e \<Longrightarrow> indexed (pe_index env) paths (pw_fs w') k e"
    and "\<And>k c. release_ok programs env paths pm crates k \<Longrightarrow> pkg_name k \<notin> A \<Longrightarrow>
      stored (pw_fs w) (download_path paths k) (\<lambda>x. x = c) \<Longrightarrow> stored (pw_fs w') (download_path paths k) (\<lambda>x. x = c)"
  shows "keeps env paths pm crates programs A w w'"
  using assms unfolding keeps_def pending_def released_def by metis

lemma commit_keeps_crates:
  "git_commit_index programs lossy index_dir message w = (r, w') \<Longrightarrow> keeps env paths pm crates programs {} w w'"
  by (rule keepsI) (auto simp: release_ok_def indexed_def intro: commit_keeps(1))

lemma upsert_Err_keeps_crates:
  "upsert env index_dir ctx entry w = Some (Err e, w') \<Longrightarrow> keeps env paths pm crates programs {} w w'"
  by (rule keepsI) (auto simp: indexed_def intro: stored_adds_dirs dest: upsert_Err_adds)

lemma package_keeps_crates:
  assumes "package_and_copy programs env pkg (paths_from_root dir) url pm crates w = Some (r, w')" "crate_ok pkg"
  shows "keeps env (paths_from_root dir) pm crates programs {pkg_name pkg} w w'"
proof (rule keepsI)
  fix k e c
  assume k: "release_ok programs env (paths_from_root dir) pm crates k" "pkg_name k \<notin> {pkg_name pkg}"
  then have ok: "crate_ok k" "spares programs (index_path (paths_from_root dir) k)"
    "spares programs (download_path (paths_from_root dir) k)" by (simp_all add: release_ok_def)
  show "indexed (pe_index env) (paths_from_root dir) (pw_fs w) k e \<Longrightarrow>
      indexed (pe_index env) (paths_from_root dir) (pw_fs w') k e"
    unfolding indexed_def using package_keeps(1) [OF assms(1) ok(2)] locations_apart(1) [OF ok(1) assms(2)] by blast
  show "stored (pw_fs w) (download_path (paths_from_root dir) k) (\<lambda>x. x = c) \<Longrightarrow>
      stored (pw_fs w') (download_path (paths_from_root dir) k) (\<lambda>x. x = c)"
    using package_keeps(1) [OF assms(1) ok(3)] locations_apart(2) [OF ok(1) assms(2)] k(2) by auto
qed

text \<open>Until its entry is written, a packaged crate is still pending.\<close>

lemma package_keeps_pending:
  assumes "package_and_copy programs env pkg (paths_from_root dir) url pm crates w = Some (r, w')"
    and "release_ok programs env (paths_from_root dir) pm crates k" "crate_ok pkg"
    and "pending env (paths_from_root dir) pm crates (pw_fs w) k"
  shows "pending env (paths_from_root dir) pm crates (pw_fs w') k"
  using assms package_keeps(1) [OF assms(1)] locations_apart(1)
  unfolding pending_def indexed_def release_ok_def by blast

lemma upsert_keeps_crates:
  assumes u: "upsert env (rp_index (paths_from_root dir)) ctx (index_record pkg ck url pm crates) w = Some (Ok u, w')"
    and e: "encodes (pe_index env) (index_record pkg ck url pm crates)" "crate_ok pkg"
  shows "keeps env (paths_from_root dir) pm crates programs {pkg_name pkg} w w'"
proof (rule keepsI)
  fix k e c
  assume k: "release_ok programs env (paths_from_root dir) pm crates k" "pkg_name k \<notin> {pkg_name pkg}"
  then have ok: "crate_ok k" by (simp add: release_ok_def)
  show "indexed (pe_index env) (paths_from_root dir) (pw_fs w) k e \<Longrightarrow>
      indexed (pe_index env) (paths_from_root dir) (pw_fs w') k e"
    if "\<exists>ck'. e = index_record k ck' (index_url (paths_from_root dir)) pm crates"
    using upsert_keeps_indexed [OF u e(1)] that k(2) index_record_version by (metis insertI1)
  show "stored (pw_fs w) (download_path (paths_from_root dir) k) (\<lambda>x. x = c) \<Longrightarrow>
      stored (pw_fs w') (download_path (paths_from_root dir) k) (\<lambda>x. x = c)"
    using upsert_keeps_stored [OF u e(1)] locations_apart(1) [OF e(2) ok] by (metis index_record_name)
qed

text \<open>A crate is released once its entry is written.\<close>

lemma upsert_releases:
  assumes "package_and_copy programs env pkg (paths_from_root dir) (index_url (paths_from_root dir)) pm crates w = Some (Ok entry, w1)"
    and "upsert env (rp_index (paths_from_root dir)) ctx entry w1 = Some (Ok u, w2)"
    and "release_ok programs env (paths_from_root dir) pm crates pkg"
  shows "released env (paths_from_root dir) pm crates (pw_fs w2) pkg \<and>
    keeps env (paths_from_root dir) pm crates programs {pkg_name pkg} w w2"
proof -
  let ?paths = "paths_from_root dir"
  obtain c where c: "entry = index_record pkg (pe_hex_digest env c) (index_url ?paths) pm crates"
    "stored (pw_fs w1) (download_path ?paths pkg) (\<lambda>x. x = c)"
    using packaged_file [OF assms(1)] by blast
  have ok: "crate_ok pkg" "encodes (pe_index env) entry"
    using assms(3) c(1) by (simp_all add: release_ok_def)
  have "indexed (pe_index env) ?paths (pw_fs w2) pkg entry"
    by (rule upsert_indexes [OF assms(2) ok(2)]) (simp add: c(1))
  moreover have "stored (pw_fs w2) (download_path ?paths pkg) (\<lambda>x. x = c)"
    using upsert_keeps_stored [OF assms(2) ok(2) _ c(2)] locations_apart(1) [OF ok(1) ok(1)] c(1)
    by (metis index_record_name)
  ultimately have "released env ?paths pm crates (pw_fs w2) pkg" using c(1) by (auto simp: released_def)
  moreover have "keeps env ?paths pm crates programs {pkg_name pkg} w w2"
    using keeps_trans [OF package_keeps_crates [OF assms(1) ok(1)]
        upsert_keeps_crates [OF assms(2) [unfolded c(1)] ok(2) [unfolded c(1)] ok(1)]] by simp
  ultimately show ?thesis ..
qed

lemma keeps_pending:
  "keeps env paths pm crates programs A w w' \<Longrightarrow> release_ok programs env paths pm crates k \<Longrightarrow> pkg_name k \<notin> A \<Longrightarrow>
   pending env paths pm crates (pw_fs w) k \<Longrightarrow> pending env paths pm crates (pw_fs w') k"
  and keeps_released:
  "keeps env paths pm crates programs A w w' \<Longrightarrow> release_ok programs env paths pm crates k \<Longrightarrow> pkg_name k \<notin> A \<Longrightarrow>
   released env paths pm crates (pw_fs w) k \<Longrightarrow> released env paths pm crates (pw_fs w') k"
  by (simp_all add: keeps_def)

text \<open>\<open>progress names r w'\<close>: released up to some crate, pending from the one after it.\<close>

definition progress ::
  "publish_env \<Rightarrow> registry_paths \<Rightarrow> (string \<rightharpoonup> package) \<Rightarrow> string set \<Rightarrow> string list \<Rightarrow> unit anyhow \<Rightarrow>
   publish_world \<Rightarrow> bool" where
  "progress env paths pm crates names r w' \<longleftrightarrow>
     (\<exists>finished rest. names = finished @ rest \<and>
       (\<forall>n \<in> set finished. released env paths pm crates (pw_fs w') (the (pm n))) \<and>
       (\<forall>n \<in> set (tl rest). pending env paths pm crates (pw_fs w') (the (pm n))) \<and>
       (is_ok r \<longleftrightarrow> rest = []))"

lemma publish_each_state:
  fixes dir
  defines "paths \<equiv> paths_from_root dir"
  assumes "publish_each programs env paths (index_url paths) pm crates names w = Some (r, w')"
    and "\<And>n. n \<in> set names \<Longrightarrow> \<exists>pkg. pm n = Some pkg \<and> pkg_name pkg = n \<and>
           release_ok programs env paths pm crates pkg \<and> pending env paths pm crates (pw_fs w) pkg"
    and "distinct names"
  shows "keeps env paths pm crates programs (set names) w w' \<and> progress env paths pm crates names r w'"
  using assms(2-)
proof (induction names arbitrary: w)
  case Nil
  then show ?case by (auto simp: keeps_def progress_def)
next
  case (Cons n names)
  obtain pkg where pkg: "pm n = Some pkg" "pkg_name pkg = n" "release_ok programs env paths pm crates pkg"
    using Cons.prems(2) [of n] by auto
  have same: "pkg' = pkg" if "pm n = Some pkg'" for pkg' using that pkg(1) by simp
  have ok: "crate_ok pkg" using pkg(3) by (simp add: release_ok_def)
  have stays: "\<exists>k. pm m = Some k \<and> pkg_name k = m \<and> release_ok programs env paths pm crates k \<and>
      pending env paths pm crates (pw_fs v) k"
    if v: "keeps env paths pm crates programs {n} w v" and mem: "m \<in> set names" for m v
  proof -
    obtain k where k: "pm m = Some k" "pkg_name k = m" "release_ok programs env paths pm crates k"
      "pending env paths pm crates (pw_fs w) k" using Cons.prems(2) [of m] mem by auto
    moreover have "pkg_name k \<notin> {n}" using Cons.prems(3) mem k(2) by auto
    ultimately show ?thesis using keeps_pending [OF v] by blast
  qed
  have stopped: "keeps env paths pm crates programs (set (n # names)) w v \<and> progress env paths pm crates (n # names) (Err e) v"
    if "keeps env paths pm crates programs {n} w v" for e v
  proof
    show "keeps env paths pm crates programs (set (n # names)) w v" by (rule keeps_weaken [OF that]) simp
    have tail: "\<forall>m \<in> set names. pending env paths pm crates (pw_fs v) (the (pm m))"
      using stays [OF that] by fastforce
    show "progress env paths pm crates (n # names) (Err e) v"
      unfolding progress_def
    proof (intro exI conjI)
      show "n # names = [] @ (n # names)" by simp
    qed (use tail in auto)
  qed
  from Cons.prems(1) show ?case
  proof (cases rule: publish_each_cases)
    case (not_packaged pkg' e)
    note p = not_packaged(3) [unfolded same [OF not_packaged(1)] paths_def]
    from stopped [of w' e] package_keeps_crates [OF p ok] pkg(2) not_packaged(2) show ?thesis
      unfolding paths_def by simp
  next
    case (not_indexed pkg' entry w1 e)
    note p = not_indexed(3) [unfolded same [OF not_indexed(1)] paths_def]
    have "keeps env paths pm crates programs ({n} \<union> {}) w w'"
      using keeps_trans [OF package_keeps_crates [OF p ok] upsert_Err_keeps_crates [OF not_indexed(4)]] pkg(2)
      unfolding paths_def by simp
    from stopped [of w' e] this not_indexed(2) show ?thesis by simp
  next
    case (not_committed pkg' entry w1 u w2 e)
    note p = not_committed(3) [unfolded same [OF not_committed(1)] paths_def]
    note rel = upsert_releases [OF p not_committed(4) [unfolded paths_def] pkg(3) [unfolded paths_def]]
    have "keeps env paths pm crates programs ({n} \<union> {}) w w'"
      using keeps_trans [OF rel [THEN conjunct2] commit_keeps_crates [OF not_committed(5)]] pkg(2)
      unfolding paths_def by simp
    from stopped [of w' e] this not_committed(2) show ?thesis by simp
  next
    case (published pkg' entry w1 u w2 v w3)
    note p = published(2) [unfolded same [OF published(1)] paths_def]
    note rel = upsert_releases [OF p published(3) [unfolded paths_def] pkg(3) [unfolded paths_def]]
    note c = commit_keeps_crates [OF published(4)]
    have here: "keeps env paths pm crates programs {n} w w3"
      using keeps_trans [OF rel [THEN conjunct2] c] pkg(2) unfolding paths_def by simp
    have done_n: "released env paths pm crates (pw_fs w3) pkg"
      using keeps_released [OF c] pkg(3) rel unfolding paths_def by blast
    have ih: "keeps env paths pm crates programs (set names) w3 w'" "progress env paths pm crates names r w'"
      using Cons.IH [OF published(5)] stays [OF here] Cons.prems(3) by auto
    have "released env paths pm crates (pw_fs w') pkg"
      using keeps_released [OF ih(1) pkg(3) _ done_n] Cons.prems(3) pkg(2) by simp
    with ih(2) pkg(1) have "progress env paths pm crates (n # names) r w'"
      unfolding progress_def by (metis append_Cons option.sel set_ConsD)
    moreover have "keeps env paths pm crates programs (set (n # names)) w w'"
      using keeps_trans [OF here ih(1)] by simp
    ultimately show ?thesis by blast
  qed
qed

lemma publish_phases_state:
  fixes dir
  defines "paths \<equiv> paths_from_root dir"
  assumes ph: "publish_phases programs env paths pm crates names w = Some (r, w')"
    and names: "\<And>n. n \<in> set names \<Longrightarrow> \<exists>pkg. pm n = Some pkg \<and> pkg_name pkg = n \<and>
           release_ok programs env paths pm crates pkg" "distinct names"
    and begun: "is_ok r \<or> length (pw_ran w) + 2 < length (pw_ran w')"
  shows "progress env paths pm crates names r w'"
proof -
  obtain r1 fs1 where d: "ensure_dirs (pw_fs w) paths = (r1, fs1)" by fastforce
  have early: "length (pw_ran w') \<le> length (pw_ran w) \<Longrightarrow> is_ok r" using begun by linarith
  obtain u where r1: "r1 = Ok u"
    using ph d early by (cases r1) (auto simp: publish_phases_def)
  obtain r2 w2 where p: "pre_register env paths (index_url paths) pm crates names (w\<lparr>pw_fs := fs1\<rparr>) = Some (r2, w2)"
    using ph d r1 by (auto simp: publish_phases_def split: option.splits)
  have ran2: "pw_ran w2 = pw_ran w" using pre_register_ran [OF p] by simp
  obtain v where r2: "r2 = Ok v"
    using ph d r1 p early ran2 by (cases r2) (auto simp: publish_phases_def)
  obtain r3 w3 where g: "git_commit_index programs (pe_lossy env) (rp_index paths) pre_register_message w2 = (r3, w3)"
    by fastforce
  have ran3: "length (pw_ran w3) \<le> length (pw_ran w) + 2"
    using git_commit_index_runs [OF g] ran2
    by (auto simp: runs_def commit_plan_def dest: prefix_length_le)
  obtain x where r3: "r3 = Ok x"
    using ph d r1 p r2 g begun ran3 by (cases r3) (auto simp: publish_phases_def)
  then have each: "publish_each programs env paths (index_url paths) pm crates names w3 = Some (r, w')"
    using ph d r1 p r2 g by (simp add: publish_phases_def)
  have "\<forall>n \<in> set names. pending env paths pm crates (pw_fs w2) (the (pm n))"
    using pre_register_state [OF p [unfolded r2 paths_def]] names
    unfolding paths_def release_ok_def by metis
  then have "\<exists>pkg. pm n = Some pkg \<and> pkg_name pkg = n \<and> release_ok programs env paths pm crates pkg \<and>
      pending env paths pm crates (pw_fs w3) pkg" if "n \<in> set names" for n
    using that names(1) [OF that] keeps_pending [OF commit_keeps_crates [OF g]] by fastforce
  then show ?thesis
    using publish_each_state [of programs env dir pm crates names w3 r w'] each names(2) unfolding paths_def by blast
qed

section \<open>Properties\<close>


lemma demo_release_ok:
  assumes "p \<in> set demo_members"
  shows "release_ok demo_programs demo_publish_env (paths_from_root ''/r'') (package_map demo_members)
    (known_crates demo_publish_env (paths_from_root ''/r'') demo_publish_world) p"
proof -
  have known: "known_crates demo_publish_env (paths_from_root ''/r'') demo_publish_world = {}"
    by code_simp
  have spared: "spares demo_programs q" for q by (simp add: spares_def demo_programs_def)
  have p: "p = demo_pkg ''lib'' [] \<or> p = demo_pkg ''app'' [''lib'']"
    using assms by (auto simp: demo_members_def)
  have "crate_ok (demo_pkg ''lib'' [])" "crate_ok (demo_pkg ''app'' [''lib''])" by code_simp+
  then have ok: "crate_ok p" using p by blast
  have "encodes demo_codec (demo_record (demo_pkg ''lib'' []) placeholder_cksum)"
    "encodes demo_codec (demo_record (demo_pkg ''lib'' []) (demo_digest ''''))"
    "encodes demo_codec (demo_record (demo_pkg ''app'' [''lib'']) placeholder_cksum)"
    "encodes demo_codec (demo_record (demo_pkg ''app'' [''lib'']) (demo_digest ''''))"
    by code_simp+
  then have "encodes demo_codec (demo_record p ck)" if "ck = placeholder_cksum \<or> ck = demo_digest ''''" for ck
    using p that by blast
  moreover have "demo_digest c = demo_digest ''''" for c by (simp add: demo_digest_def)
  ultimately show ?thesis
    using ok spared unfolding release_ok_def known
    by (simp add: demo_publish_env_def demo_record_def)
qed


end
