(* ===== verification/RestClient.thy ===== *)
theory RestClient
  imports HttpApi
begin

text \<open>
  \<open>core/http/rest.rs\<close>: the REST client. It prepares a request (default headers,
  authentication, resolved URL) and answers with a fixed mock response; no request leaves the
  process. Base64 encoding, JSON serialisation (\<open>to_vec\<close>) and the iteration order of header
  maps are arguments.
\<close>

record rest_client =
  rc_config :: http_config
  rc_auth :: http_auth

definition rc_new :: "http_config \<Rightarrow> rest_client" where
  "rc_new config = \<lparr>rc_config = config, rc_auth = NoAuth\<rparr>"

definition rc_with_base_url :: "string \<Rightarrow> rest_client" where
  "rc_with_base_url base_url = rc_new (htc_with_base_url base_url)"

definition rc_with_auth :: "http_auth \<Rightarrow> rest_client \<Rightarrow> rest_client" where
  "rc_with_auth auth c = c\<lparr>rc_auth := auth\<rparr>"

definition resolve_url :: "rest_client \<Rightarrow> string \<Rightarrow> string" where
  "resolve_url c url =
     (case htc_base_url (rc_config c) of
        Some base \<Rightarrow>
          if starts_with url ''http://'' \<or> starts_with url ''https://'' then url
          else trim_end_matches CHR ''/'' base @ ''/'' @ trim_start_matches CHR ''/'' url
      | None \<Rightarrow> url)"

fun apply_auth :: "(string \<Rightarrow> string) \<Rightarrow> http_auth \<Rightarrow> (string \<rightharpoonup> string) \<Rightarrow> (string \<rightharpoonup> string)" where
  "apply_auth encode NoAuth headers = headers"
| "apply_auth encode (Bearer token) headers = headers(''Authorization'' \<mapsto> ''Bearer '' @ token)"
| "apply_auth encode (Basic username password) headers =
     headers(''Authorization'' \<mapsto> ''Basic '' @ encode (username @ '':'' @ password))"
| "apply_auth encode (ApiKey header key) headers = headers(header \<mapsto> key)"

definition json_headers :: "string \<rightharpoonup> string" where
  "json_headers = [''content-type'' \<mapsto> ''application/json'']"

definition mock_body :: "rest_client \<Rightarrow> http_request \<Rightarrow> json" where
  "mock_body c request = JObject
     [(''message'', JString (''This is a mock response. Enable the '' @ [CHR 0x27] @ ''reqwest'' @
         [CHR 0x27] @ '' feature for real HTTP requests.'')),
      (''method'', JString (http_method_display (hrq_method request))),
      (''mock'', JBool True),
      (''url'', JString (resolve_url c (hrq_url request)))]"

text \<open>\<open>to_vec(..).unwrap_or_default()\<close>.\<close>

definition vec_or_default :: "(json \<Rightarrow> (string, 'e) result) \<Rightarrow> json \<Rightarrow> string" where
  "vec_or_default to_vec v = (case to_vec v of Ok bytes \<Rightarrow> bytes | Err _ \<Rightarrow> [])"

definition mock_response ::
  "(json \<Rightarrow> (string, 'e) result) \<Rightarrow> rest_client \<Rightarrow> http_request \<Rightarrow> http_response" where
  "mock_response to_vec c request =
     \<lparr>hrs_status = 200, hrs_headers = json_headers,
      hrs_body = vec_or_default to_vec (mock_body c request)\<rparr>"

text \<open>A header or query map as a JSON object; \<open>ks\<close> enumerates its keys.\<close>

definition json_of_map :: "string list \<Rightarrow> (string \<rightharpoonup> string) \<Rightarrow> json" where
  "json_of_map ks m = JObject (jmap_extend [] (map (\<lambda>k. (k, JString (the (m k)))) ks))"

definition rc_handle ::
  "(json \<Rightarrow> (string, 'e) result) \<Rightarrow> string list \<Rightarrow> string list \<Rightarrow> rest_client \<Rightarrow> http_request \<Rightarrow>
   http_response gateway_result" where
  "rc_handle to_vec hs qs c request =
     Ok \<lparr>hrs_status = 200, hrs_headers = json_headers,
         hrs_body = vec_or_default to_vec (JObject [(''received'', JObject
           [(''headers'', json_of_map hs (hrq_headers request)),
            (''method'', JString (http_method_display (hrq_method request))),
            (''query'', json_of_map qs (hrq_query request)),
            (''url'', JString (hrq_url request))])])\<rparr>"

definition rc_health_check :: "timestamp \<Rightarrow> health_check gateway_result" where
  "rc_health_check now = Ok (healthy now)"

text \<open>\<open>entry(key).or_insert_with(value)\<close> for every default header, in iteration order.\<close>

fun add_defaults :: "(string \<times> string) list \<Rightarrow> (string \<rightharpoonup> string) \<Rightarrow> (string \<rightharpoonup> string)" where
  "add_defaults [] headers = headers"
| "add_defaults ((k, v) # ds) headers =
     add_defaults ds (case headers k of None \<Rightarrow> headers(k \<mapsto> v) | Some _ \<Rightarrow> headers)"

text \<open>The request \<open>send\<close> prepares; \<open>ks\<close> enumerates the default headers.\<close>

definition prepare_request ::
  "(string \<Rightarrow> string) \<Rightarrow> string list \<Rightarrow> rest_client \<Rightarrow> http_request \<Rightarrow> http_request" where
  "prepare_request encode ks c request =
     request\<lparr>hrq_headers := apply_auth encode (rc_auth c)
       (add_defaults (map (\<lambda>k. (k, the (htc_default_headers (rc_config c) k))) ks)
          (hrq_headers request))\<rparr>"

definition rc_send ::
  "(string \<Rightarrow> string) \<Rightarrow> (json \<Rightarrow> (string, 'e) result) \<Rightarrow> string list \<Rightarrow> rest_client \<Rightarrow> http_request \<Rightarrow>
   http_response gateway_result" where
  "rc_send encode to_vec ks c request =
     Ok (mock_response to_vec c (prepare_request encode ks c request))"

definition rc_get ::
  "(string \<Rightarrow> string) \<Rightarrow> (json \<Rightarrow> (string, 'e) result) \<Rightarrow> string list \<Rightarrow> rest_client \<Rightarrow> string \<Rightarrow>
   http_response gateway_result" where
  "rc_get encode to_vec ks c url = rc_send encode to_vec ks c (http_get url)"

text \<open>A body that cannot be converted is dropped: the bare request is sent instead.\<close>

definition with_json_or :: "(json \<Rightarrow> (json, 'e) result) \<Rightarrow> json \<Rightarrow> http_request \<Rightarrow> http_request" where
  "with_json_or to_value body request =
     (case hrq_with_json to_value body request of Ok r \<Rightarrow> r | Err _ \<Rightarrow> request)"

definition rc_post_json ::
  "(string \<Rightarrow> string) \<Rightarrow> (json \<Rightarrow> (string, 'e) result) \<Rightarrow> (json \<Rightarrow> (json, 'e) result) \<Rightarrow> string list \<Rightarrow>
   rest_client \<Rightarrow> string \<Rightarrow> json \<Rightarrow> http_response gateway_result" where
  "rc_post_json encode to_vec to_value ks c url body =
     rc_send encode to_vec ks c (with_json_or to_value body (http_post url))"

definition rc_put_json ::
  "(string \<Rightarrow> string) \<Rightarrow> (json \<Rightarrow> (string, 'e) result) \<Rightarrow> (json \<Rightarrow> (json, 'e) result) \<Rightarrow> string list \<Rightarrow>
   rest_client \<Rightarrow> string \<Rightarrow> json \<Rightarrow> http_response gateway_result" where
  "rc_put_json encode to_vec to_value ks c url body =
     rc_send encode to_vec ks c (with_json_or to_value body (http_put url))"

definition rc_delete ::
  "(string \<Rightarrow> string) \<Rightarrow> (json \<Rightarrow> (string, 'e) result) \<Rightarrow> string list \<Rightarrow> rest_client \<Rightarrow> string \<Rightarrow>
   http_response gateway_result" where
  "rc_delete encode to_vec ks c url = rc_send encode to_vec ks c (http_delete url)"

section \<open>URLs\<close>

lemma trim_start_split: "\<exists>n. s = replicate n c @ trim_start_matches c s"
  by (induction s) (auto simp: trim_start_matches_def intro: exI [of _ 0] exI [of _ "Suc _"])

lemma trim_start_no: "t = trim_start_matches c s \<Longrightarrow> t = [] \<or> hd t \<noteq> c"
  by (induction s) (auto simp: trim_start_matches_def)

lemma trim_end_start: "trim_end_matches c s = rev (trim_start_matches c (rev s))"
  by (simp add: trim_end_matches_def trim_start_matches_def)

lemma trim_end_split: "\<exists>n. s = trim_end_matches c s @ replicate n c"
proof -
  obtain n where "rev s = replicate n c @ trim_start_matches c (rev s)"
    using trim_start_split by blast
  then have "rev (rev s) = trim_end_matches c s @ replicate n c"
    by (metis rev_append rev_replicate trim_end_start)
  then show ?thesis by auto
qed

lemma trim_end_no: "t = trim_end_matches c s \<Longrightarrow> t = [] \<or> last t \<noteq> c"
  using trim_start_no [of "trim_start_matches c (rev s)" c "rev s"]
  by (auto simp: trim_end_start last_rev)

section \<open>Headers\<close>

lemma add_defaults_lookup:
  "add_defaults ds headers n = (case headers n of Some v \<Rightarrow> Some v | None \<Rightarrow> map_of ds n)"
  by (induction ds headers rule: add_defaults.induct) (auto split: option.splits)

lemma map_of_keys: "set ks = dom m \<Longrightarrow> map_of (map (\<lambda>k. (k, the (m k))) ks) = m"
  by (auto simp: fun_eq_iff map_of_map_keys)

text \<open>The header the client's authentication sets, if any.\<close>

fun auth_header :: "(string \<Rightarrow> string) \<Rightarrow> http_auth \<Rightarrow> (string \<times> string) option" where
  "auth_header encode NoAuth = None"
| "auth_header encode (Bearer token) = Some (''Authorization'', ''Bearer '' @ token)"
| "auth_header encode (Basic username password) =
     Some (''Authorization'', ''Basic '' @ encode (username @ '':'' @ password))"
| "auth_header encode (ApiKey header key) = Some (header, key)"

lemma apply_auth_lookup:
  "apply_auth encode auth headers n =
     (case auth_header encode auth of
        Some (h, v) \<Rightarrow> if n = h then Some v else headers n
      | None \<Rightarrow> headers n)"
  by (cases auth) auto

section \<open>Properties\<close>

text \<open>
  C40: the request a client sends carries, for every header name, the authentication's header if
  it has that name, otherwise the request's own value, otherwise the configured default, in
  whatever order the defaults are visited; nothing else of the request changes.
\<close>

theorem sent_headers:
  assumes "enumerates ks (htc_default_headers (rc_config c))"
  shows "hrq_headers (prepare_request encode ks c request) n =
      (case auth_header encode (rc_auth c) of
         Some (h, v) \<Rightarrow> if n = h then Some v
           else (case hrq_headers request n of Some v \<Rightarrow> Some v
                 | None \<Rightarrow> htc_default_headers (rc_config c) n)
       | None \<Rightarrow> (case hrq_headers request n of Some v \<Rightarrow> Some v
                  | None \<Rightarrow> htc_default_headers (rc_config c) n)) \<and>
    prepare_request encode ks c request =
      request\<lparr>hrq_headers := hrq_headers (prepare_request encode ks c request)\<rparr>"
  using assms
  by (auto simp: prepare_request_def apply_auth_lookup add_defaults_lookup enumerates_def map_of_keys
      split: option.split)

definition demo_client :: rest_client where
  "demo_client = rc_with_auth (Bearer ''t'')
     (rc_new (htc_with_header ''X-Env'' ''test'' (htc_with_base_url ''http://h/'')))"

theorem sent_headers_witness:
  "hrq_headers (prepare_request id [''X-Env''] demo_client (http_get ''/u'')) ''X-Env'' = Some ''test''"
  using sent_headers [of "[''X-Env'']" demo_client id "http_get ''/u''" "''X-Env''"]
  by (simp add: enumerates_def demo_client_def rc_with_auth_def rc_new_def htc_with_header_def
      htc_with_base_url_def http_config_default_def http_get_def)

text \<open>
  a relative URL is joined to the base with exactly one slash, whatever slashes surround the
  join; absolute HTTP URLs, and any URL without a base, are kept; and resolving a URL twice
  changes nothing more when the base itself is an HTTP URL.
\<close>

theorem resolve_url_joins:
  assumes "htc_base_url (rc_config c) = Some base"
    and "\<not> starts_with url ''http://''" and "\<not> starts_with url ''https://''"
  shows "\<exists>base' path m n. resolve_url c url = base' @ ''/'' @ path \<and>
    base = base' @ replicate m CHR ''/'' \<and> url = replicate n CHR ''/'' @ path \<and>
    (base' = [] \<or> last base' \<noteq> CHR ''/'') \<and> (path = [] \<or> hd path \<noteq> CHR ''/'') \<and>
    (starts_with base' ''http://'' \<or> starts_with base' ''https://'' \<longrightarrow>
       resolve_url c (resolve_url c url) = resolve_url c url)"
proof -
  let ?b = "trim_end_matches CHR ''/'' base" and ?p = "trim_start_matches CHR ''/'' url"
  have r: "resolve_url c url = ?b @ ''/'' @ ?p" using assms by (simp add: resolve_url_def)
  have "resolve_url c (resolve_url c url) = resolve_url c url"
    if "starts_with ?b ''http://'' \<or> starts_with ?b ''https://''"
  proof -
    from that have "starts_with (?b @ ''/'' @ ?p) ''http://'' \<or> starts_with (?b @ ''/'' @ ?p) ''https://''"
      unfolding starts_with_iff by (metis append.assoc)
    then show ?thesis unfolding r using assms(1) by (auto simp: resolve_url_def)
  qed
  then show ?thesis
    using r trim_end_split [where s = base and c = "CHR ''/''"]
      trim_start_split [where s = url and c = "CHR ''/''"]
      trim_end_no [where s = base and c = "CHR ''/''", OF refl]
      trim_start_no [where s = url and c = "CHR ''/''", OF refl] by metis
qed

theorem resolve_url_joins_witness:
  "\<exists>base' path m n. resolve_url demo_client ''/users'' = base' @ ''/'' @ path \<and>
    ''http://h/'' = base' @ replicate m CHR ''/'' \<and> ''/users'' = replicate n CHR ''/'' @ path"
  using resolve_url_joins [of demo_client "''http://h/''" "''/users''"]
  by (auto simp: demo_client_def rc_with_auth_def rc_new_def htc_with_header_def
      htc_with_base_url_def http_config_default_def starts_with_def)

text \<open>
  HTTP header names are case-insensitive, the maps here are not: a default header in lower case
  stays beside the one authentication sets, and a response header stored with capitals is not
  found under its lower-case name.
\<close>

lemma header_case_matters:
  "hrq_headers (prepare_request encode [''authorization'']
      (rc_with_auth (Bearer t)
         (rc_new (htc_with_header ''authorization'' old http_config_default))) (http_get u))
     ''authorization'' = Some old"
  "response_header ''content-type''
     \<lparr>hrs_status = 200, hrs_headers = [''Content-Type'' \<mapsto> ''text/html''], hrs_body = b\<rparr> = None"
  by (simp_all add: prepare_request_def rc_with_auth_def rc_new_def htc_with_header_def
      http_config_default_def http_get_def response_header_def to_lowercase_def char_lower_def Let_def)

end
