(* ===== verification/Sinks.thy ===== *)
theory Sinks
  imports ConfigLoad LocalFile
begin

text \<open>
  \<open>core/output.rs\<close> and \<open>core/input.rs\<close>: output sinks, which write to the standard output or,
  through the file gateway, to a file; and the local input source, which scans directories and
  reads files. The world they act on is the file system and the text printed so far.
\<close>

section \<open>Output sinks\<close>

record sink_world =
  sw_fs :: file_system
  sw_stdout :: string

datatype output_sink = StdoutSink | FileSink string | ConfiguredOutputSink gateway_config

text \<open>\<open>lossy\<close> is \<open>String::from_utf8_lossy\<close>.\<close>

definition stdout_write :: "(string \<Rightarrow> string) \<Rightarrow> string \<Rightarrow> sink_world \<Rightarrow> unit gateway_result \<times> sink_world" where
  "stdout_write lossy data w = (Ok (), w\<lparr>sw_stdout := sw_stdout w @ lossy data\<rparr>)"

definition sink_parent :: "string \<Rightarrow> string" where
  "sink_parent path = (case path_parent path of Some p \<Rightarrow> p | None \<Rightarrow> ''.'')"

definition sink_file_name :: "string \<Rightarrow> string" where
  "sink_file_name path = (case path_file_name path of Some n \<Rightarrow> n | None \<Rightarrow> ''output'')"

text \<open>A gateway on the file's directory, from a default configuration with that base path.\<close>

definition file_gateway :: "gateway_config \<Rightarrow> local_file_gateway" where
  "file_gateway c = lg_new (fc_base_path (gc_file c))"

definition sink_gateway :: "string \<Rightarrow> local_file_gateway" where
  "sink_gateway path =
     file_gateway (with_file (\<lambda>f. f\<lparr>fc_base_path := sink_parent path\<rparr>) gateway_config_default)"

definition file_write ::
  "file_env \<Rightarrow> string \<Rightarrow> string \<Rightarrow> sink_world \<Rightarrow> unit gateway_result \<times> sink_world" where
  "file_write env path data w =
     (case lg_write (sink_gateway path) env (sw_fs w) (sink_file_name path) data uo_overwriting of
        (Ok _, fs') \<Rightarrow> (Ok (), w\<lparr>sw_fs := fs'\<rparr>)
      | (Err e, fs') \<Rightarrow> (Err e, w\<lparr>sw_fs := fs'\<rparr>))"



definition configured_write ::
  "(string \<Rightarrow> string) \<Rightarrow> file_env \<Rightarrow> gateway_config \<Rightarrow> string \<Rightarrow> sink_world \<Rightarrow>
   unit gateway_result \<times> sink_world" where
  "configured_write lossy env config data w =
     (case sc_sink_type (gc_sink config) of
        Stdout \<Rightarrow> stdout_write lossy data w
      | File \<Rightarrow>
          (case sc_path (gc_sink config) of
             None \<Rightarrow>
               (Err (invalid_input (''sink_type is '' @ quoted ''file'' @ '' but no '' @ quoted ''path'' @
                  '' specified in gateway.toml'')), w)
           | Some path \<Rightarrow> file_write env path data w))"

text \<open>The trait object \<open>OutputSink\<close>.\<close>

fun sink_write ::
  "(string \<Rightarrow> string) \<Rightarrow> file_env \<Rightarrow> output_sink \<Rightarrow> string \<Rightarrow> sink_world \<Rightarrow>
   unit gateway_result \<times> sink_world" where
  "sink_write lossy env StdoutSink data w = stdout_write lossy data w"
| "sink_write lossy env (FileSink path) data w = file_write env path data w"
| "sink_write lossy env (ConfiguredOutputSink config) data w = configured_write lossy env config data w"

text \<open>The builder's sink for a configuration: a missing path becomes the empty one.\<close>

definition sink :: "sink_config \<Rightarrow> output_sink" where
  "sink config =
     (case sc_sink_type config of
        File \<Rightarrow> FileSink (case sc_path config of Some p \<Rightarrow> p | None \<Rightarrow> '''')
      | Stdout \<Rightarrow> StdoutSink)"

section \<open>The input source\<close>

text \<open>The source keeps a configuration, which none of its methods reads.\<close>

record local_input_source =
  lis_config :: gateway_config

definition local_input_source_new :: "gateway_config \<Rightarrow> local_input_source" where
  "local_input_source_new config = \<lparr>lis_config = config\<rparr>"

definition skipped_dir :: "string \<Rightarrow> bool" where
  "skipped_dir name \<longleftrightarrow> starts_with name ''.'' \<or> name = ''target'' \<or> name = ''node_modules''"

text \<open>
  The recursive walk: \<open>read_dir\<close> lists a directory in the system's order. The paths found are
  relative to the root, as their components. \<open>fuel\<close> bounds the depth of the walk.
\<close>

definition entry_paths :: "string \<Rightarrow> node option \<Rightarrow> location list \<Rightarrow> location list" where
  "entry_paths name n deeper =
     (case n of
        Some (FileNode _) \<Rightarrow> [[name]]
      | Some DirNode \<Rightarrow> if skipped_dir name then [] else map (\<lambda>rel. name # rel) deeper
      | None \<Rightarrow> [])"

fun scan_dir ::
  "nat \<Rightarrow> (location \<Rightarrow> string list) \<Rightarrow> file_tree \<Rightarrow> location \<Rightarrow> location list" where
  "scan_dir 0 read_dir t loc = []"
| "scan_dir (Suc fuel) read_dir t loc =
     concat (map (\<lambda>name.
       entry_paths name (t (loc @ [name])) (scan_dir fuel read_dir t (loc @ [name]))) (read_dir loc))"

text \<open>A root that is a file yields itself, as the empty path; a missing root yields nothing.\<close>

definition scan_files ::
  "nat \<Rightarrow> (location \<Rightarrow> string list) \<Rightarrow> file_system \<Rightarrow> string \<Rightarrow> string list gateway_result" where
  "scan_files fuel read_dir fs dir =
     Ok (case find_node fs dir of
           Ok (loc, DirNode) \<Rightarrow> map (join_with ''/'') (scan_dir fuel read_dir (fs_tree fs) loc)
         | Ok (loc, FileNode _) \<Rightarrow> ['''']
         | Err _ \<Rightarrow> [])"

definition file_exists :: "file_system \<Rightarrow> string \<Rightarrow> string \<Rightarrow> bool gateway_result" where
  "file_exists fs dir relative =
     Ok (case find_node fs (path_join dir relative) of Ok _ \<Rightarrow> True | Err _ \<Rightarrow> False)"

definition read_file :: "(string \<Rightarrow> bool) \<Rightarrow> file_system \<Rightarrow> string \<Rightarrow> string gateway_result" where
  "read_file valid_utf8 fs path =
     map_err (file_error ''File not found: '' path) (read_to_string valid_utf8 fs path)"

section \<open>Scanning\<close>

text \<open>Every directory on the way to a relative location, the location itself excluded.\<close>

fun reachable_dirs :: "file_tree \<Rightarrow> location \<Rightarrow> location \<Rightarrow> bool" where
  "reachable_dirs t loc [] \<longleftrightarrow> True"
| "reachable_dirs t loc [name] \<longleftrightarrow> True"
| "reachable_dirs t loc (name # rel) \<longleftrightarrow>
     t (loc @ [name]) = Some DirNode \<and> \<not> skipped_dir name \<and> reachable_dirs t (loc @ [name]) rel"

definition lists_tree :: "(location \<Rightarrow> string list) \<Rightarrow> file_tree \<Rightarrow> bool" where
  "lists_tree read_dir t \<longleftrightarrow> (\<forall>loc. distinct (read_dir loc) \<and> set (read_dir loc) = children t loc)"

lemma entry_paths_iff:
  "rel \<in> set (entry_paths name n deeper) \<longleftrightarrow>
     (\<exists>rest. rel = name # rest \<and>
       ((\<exists>c. n = Some (FileNode c)) \<and> rest = [] \<or>
        n = Some DirNode \<and> \<not> skipped_dir name \<and> rest \<in> set deeper))"
  by (cases n rule: option.exhaust; cases "the n") (auto simp: entry_paths_def)

lemma scan_dir_iff:
  assumes "lists_tree read_dir t"
  shows "rel \<in> set (scan_dir fuel read_dir t loc) \<longleftrightarrow>
    rel \<noteq> [] \<and> length rel \<le> fuel \<and> reachable_dirs t loc rel \<and>
    (\<exists>c. t (loc @ rel) = Some (FileNode c))"
proof (induction fuel arbitrary: loc rel)
  case 0
  then show ?case by auto
next
  case (Suc fuel)
  have names: "set (read_dir loc) = children t loc" using assms by (simp add: lists_tree_def)
  show ?case
  proof (cases rel)
    case Nil
    then show ?thesis by (simp add: entry_paths_iff)
  next
    case (Cons name rest)
    have "rel \<in> set (scan_dir (Suc fuel) read_dir t loc) \<longleftrightarrow>
        (rest = [] \<and> (\<exists>c. t (loc @ [name]) = Some (FileNode c))) \<or>
        (t (loc @ [name]) = Some DirNode \<and> \<not> skipped_dir name \<and>
         rest \<in> set (scan_dir fuel read_dir t (loc @ [name])))"
      unfolding Cons by (auto simp: entry_paths_iff names children_def)
    also have "\<dots> \<longleftrightarrow> rel \<noteq> [] \<and> length rel \<le> Suc fuel \<and> reachable_dirs t loc rel \<and>
        (\<exists>c. t (loc @ rel) = Some (FileNode c))"
      unfolding Suc.IH Cons by (cases rest) auto
    finally show ?thesis .
  qed
qed

lemma distinct_scan_dir:
  assumes "lists_tree read_dir t"
  shows "distinct (scan_dir fuel read_dir t loc)"
proof (induction fuel arbitrary: loc)
  case (Suc fuel)
  let ?f = "\<lambda>name. entry_paths name (t (loc @ [name])) (scan_dir fuel read_dir t (loc @ [name]))"
  have hd: "rel \<in> set (?f name) \<Longrightarrow> hd rel = name" for rel name
    by (auto simp: entry_paths_iff)
  have "distinct (?f name)" for name
    using Suc.IH by (auto simp: entry_paths_def distinct_map split: option.split node.split)
  moreover have "distinct (read_dir loc)" using assms by (simp add: lists_tree_def)
  then have "distinct (concat (map ?f ns))" if "distinct ns" for ns
    using that calculation by (induction ns) (auto dest!: hd)
  ultimately show ?case using \<open>distinct (read_dir loc)\<close> by simp
qed simp

section \<open>Properties\<close>


definition demo_sink_config :: gateway_config where
  "demo_sink_config =
     with_sink (\<lambda>s. s\<lparr>sc_sink_type := File, sc_path := Some ''/srv/data/r.txt''\<rparr>) gateway_config_default"


text \<open>
  Without a path the two differ: the configured sink refuses, the builder's sink writes a file
  named \<open>output\<close> in the working directory.
\<close>

lemma sink_without_path:
  "sink (sink_config_default\<lparr>sc_sink_type := File\<rparr>) = FileSink ''''"
  "sink_parent '''' = ''.''" "sink_file_name '''' = ''output''"
  "sc_sink_type (gc_sink c) = File \<Longrightarrow> sc_path (gc_sink c) = None \<Longrightarrow>
     \<exists>e. configured_write lossy env c data w = (Err e, w)"
  by (simp_all add: sink_def sink_config_default_def sink_parent_def sink_file_name_def
      path_parent_def path_file_name_def next_back.simps before_body_def is_absolute_def
      starts_with_def configured_write_def)

text \<open>
  C39: a scan returns, each once, the files below its root that are reached without entering a
  directory named \<open>target\<close> or \<open>node_modules\<close> or one whose name starts with a dot, and no others,
  when the fuel is at least the depth of every file.
\<close>

theorem scan_finds_visible_files:
  assumes "lists_tree read_dir t" and "\<forall>rel c. t (loc @ rel) = Some (FileNode c) \<longrightarrow> length rel \<le> fuel"
  shows "distinct (scan_dir fuel read_dir t loc) \<and>
    (rel \<in> set (scan_dir fuel read_dir t loc) \<longleftrightarrow>
      rel \<noteq> [] \<and> reachable_dirs t loc rel \<and> (\<exists>c. t (loc @ rel) = Some (FileNode c)))"
  using assms distinct_scan_dir scan_dir_iff by blast

definition demo_sources :: file_tree where
  "demo_sources =
     [[''a.rs''] \<mapsto> FileNode ''1'', [''src''] \<mapsto> DirNode, [''src'', ''.x''] \<mapsto> FileNode ''2'',
      [''target''] \<mapsto> DirNode, [''target'', ''o''] \<mapsto> FileNode ''3'']"

definition demo_read_dir :: "location \<Rightarrow> string list" where
  "demo_read_dir loc =
     (if loc = [] then [''src'', ''a.rs'', ''target'']
      else if loc = [''src''] then [''.x''] else if loc = [''target''] then [''o''] else [])"

lemma demo_sources_children: "lists_tree demo_read_dir demo_sources"
proof -
  have "children demo_sources loc = set (demo_read_dir loc)" for loc
  proof -
    have "x \<in> children demo_sources loc \<longleftrightarrow> x \<in> set (demo_read_dir loc)" for x
    proof (cases loc)
      case Nil
      then show ?thesis by (auto simp: children_def demo_sources_def demo_read_dir_def split: if_splits)
    next
      case (Cons d rest)
      then show ?thesis
        by (cases rest) (auto simp: children_def demo_sources_def demo_read_dir_def split: if_splits)
    qed
    then show ?thesis by blast
  qed
  then show ?thesis by (simp add: lists_tree_def demo_read_dir_def)
qed

theorem scan_finds_visible_files_witness:
  "distinct (scan_dir 2 demo_read_dir demo_sources []) \<and>
   [''target'', ''o''] \<notin> set (scan_dir 2 demo_read_dir demo_sources []) \<and>
   [''src'', ''.x''] \<in> set (scan_dir 2 demo_read_dir demo_sources [])"
proof -
  have depth: "\<forall>rel c. demo_sources ([] @ rel) = Some (FileNode c) \<longrightarrow> length rel \<le> 2"
    by (auto simp: demo_sources_def split: if_splits)
  have "\<not> reachable_dirs demo_sources [] [''target'', ''o'']" "reachable_dirs demo_sources [] [''src'', ''.x'']"
    "demo_sources ([] @ [''src'', ''.x'']) = Some (FileNode ''2'')"
    by (simp_all add: demo_sources_def skipped_dir_def starts_with_def)
  then show ?thesis using scan_finds_visible_files [OF demo_sources_children depth] by blast
qed

end
