(* ===== verification/Daemon.thy ===== *)
theory Daemon
  imports Prelude
begin

text \<open>
  \<open>core/daemon.rs\<close>: the daemon runner, its builder methods and its start-up sequence. Parsing of
  socket addresses, the new session id, the observability sidecar's \<open>spawn\<close> and default port, and
  the server function are arguments; \<open>'w\<close> is the world they act on. Log records are not kept.
\<close>

record 'addr daemon_context =
  dx_daemon_id :: string
  dx_bind :: 'addr
  dx_service_name :: string
  dx_backend :: string
  dx_obsrv_port :: u16

record daemon_runner =
  dr_service_name :: string
  dr_bind :: string
  dr_backend :: string
  dr_obsrv_port :: u16
  dr_skip_observability :: bool

definition dr_new :: "u16 \<Rightarrow> string \<Rightarrow> daemon_runner" where
  "dr_new default_port service_name =
     \<lparr>dr_service_name = service_name, dr_bind = ''0.0.0.0:9000'', dr_backend = ''sidecar'',
      dr_obsrv_port = default_port, dr_skip_observability = False\<rparr>"

definition dr_with_bind :: "string \<Rightarrow> daemon_runner \<Rightarrow> daemon_runner" where
  "dr_with_bind bind r = r\<lparr>dr_bind := bind\<rparr>"

definition dr_with_backend :: "string \<Rightarrow> daemon_runner \<Rightarrow> daemon_runner" where
  "dr_with_backend backend r = r\<lparr>dr_backend := backend\<rparr>"

definition dr_with_obsrv_port :: "u16 \<Rightarrow> daemon_runner \<Rightarrow> daemon_runner" where
  "dr_with_obsrv_port port r = r\<lparr>dr_obsrv_port := port\<rparr>"

definition dr_without_observability :: "daemon_runner \<Rightarrow> daemon_runner" where
  "dr_without_observability r = r\<lparr>dr_skip_observability := True\<rparr>"

definition dr_observability_skipped :: "daemon_runner \<Rightarrow> bool" where
  "dr_observability_skipped r = dr_skip_observability r"

definition lightweight_daemon :: "u16 \<Rightarrow> string \<Rightarrow> daemon_runner" where
  "lightweight_daemon default_port service_name =
     dr_without_observability (dr_new default_port service_name)"

text \<open>
  \<open>spawn\<close> answers whether the sidecar runs. The process handle lives until the server returns; its
  shutdown is \<open>stop\<close>.
\<close>

definition dr_run ::
  "(string \<Rightarrow> ('addr, string) result) \<Rightarrow> string \<Rightarrow> (u16 \<Rightarrow> 'w \<Rightarrow> bool \<times> 'w) \<Rightarrow> ('w \<Rightarrow> 'w) \<Rightarrow>
   ('addr daemon_context \<Rightarrow> 'w \<Rightarrow> (unit, string) result \<times> 'w) \<Rightarrow> daemon_runner \<Rightarrow> 'w \<Rightarrow>
   (unit, string) result \<times> 'w" where
  "dr_run parse uuid spawn stop server_fn r w =
     (case parse (dr_bind r) of
        Err e \<Rightarrow>
          (Err (''Invalid bind address '' @ [CHR 0x27] @ dr_bind r @ [CHR 0x27] @ '': '' @ e), w)
      | Ok bind \<Rightarrow>
          if dr_skip_observability r
          then server_fn
                 \<lparr>dx_daemon_id = uuid, dx_bind = bind, dx_service_name = dr_service_name r,
                  dx_backend = ''none'', dx_obsrv_port = 0\<rparr> w
          else
            (let (running, w1) =
                   (if dr_backend r = ''sidecar'' then spawn (dr_obsrv_port r) w else (False, w));
                 (result, w2) = server_fn
                   \<lparr>dx_daemon_id = uuid, dx_bind = bind, dx_service_name = dr_service_name r,
                    dx_backend = dr_backend r, dx_obsrv_port = dr_obsrv_port r\<rparr> w1
             in (result, if running then stop w2 else w2)))"

text \<open>
  a runner whose bind address does not parse fails before anything is started. Otherwise the
  server function runs exactly once and its result is the runner's. A lightweight runner never
  spawns a sidecar and tells the server so (backend \<open>none\<close>, port 0).
\<close>

theorem daemon_start:
  "(\<forall>e. parse (dr_bind r) = Err e \<longrightarrow> snd (dr_run parse uuid spawn stop server_fn r w) = w \<and>
      (\<exists>m. fst (dr_run parse uuid spawn stop server_fn r w) = Err m)) \<and>
   (\<forall>bind. parse (dr_bind r) = Ok bind \<longrightarrow>
      (\<exists>ctx w1. dx_bind ctx = bind \<and> dx_service_name ctx = dr_service_name r \<and> dx_daemon_id ctx = uuid \<and>
        fst (dr_run parse uuid spawn stop server_fn r w) = fst (server_fn ctx w1) \<and>
        (dr_skip_observability r \<longrightarrow> w1 = w \<and> dx_backend ctx = ''none'' \<and> dx_obsrv_port ctx = 0 \<and>
           dr_run parse uuid spawn stop server_fn r w = server_fn ctx w) \<and>
        (\<not> dr_skip_observability r \<longrightarrow> dx_backend ctx = dr_backend r \<and>
           dx_obsrv_port ctx = dr_obsrv_port r \<and>
           w1 = (if dr_backend r = ''sidecar'' then snd (spawn (dr_obsrv_port r) w) else w))))"
proof -
  have "\<exists>ctx w1. dx_bind ctx = bind \<and> dx_service_name ctx = dr_service_name r \<and> dx_daemon_id ctx = uuid \<and>
        fst (dr_run parse uuid spawn stop server_fn r w) = fst (server_fn ctx w1) \<and>
        (dr_skip_observability r \<longrightarrow> w1 = w \<and> dx_backend ctx = ''none'' \<and> dx_obsrv_port ctx = 0 \<and>
           dr_run parse uuid spawn stop server_fn r w = server_fn ctx w) \<and>
        (\<not> dr_skip_observability r \<longrightarrow> dx_backend ctx = dr_backend r \<and>
           dx_obsrv_port ctx = dr_obsrv_port r \<and>
           w1 = (if dr_backend r = ''sidecar'' then snd (spawn (dr_obsrv_port r) w) else w))"
    if p: "parse (dr_bind r) = Ok bind" for bind
  proof (cases "dr_skip_observability r")
    case True
    with p show ?thesis
      by (intro exI [of _ "\<lparr>dx_daemon_id = uuid, dx_bind = bind, dx_service_name = dr_service_name r,
            dx_backend = ''none'', dx_obsrv_port = 0\<rparr>"] exI [of _ w]) (simp add: dr_run_def)
  next
    case False
    with p show ?thesis
      by (intro exI [of _ "\<lparr>dx_daemon_id = uuid, dx_bind = bind, dx_service_name = dr_service_name r,
            dx_backend = dr_backend r, dx_obsrv_port = dr_obsrv_port r\<rparr>"]
          exI [of _ "if dr_backend r = ''sidecar'' then snd (spawn (dr_obsrv_port r) w) else w"])
        (simp add: dr_run_def Let_def split: prod.split)
  qed
  then show ?thesis by (auto simp: dr_run_def)
qed

definition demo_parse :: "string \<Rightarrow> (string, string) result" where
  "demo_parse s = (if s = ''0.0.0.0:9000'' then Ok s else Err ''invalid'')"

theorem daemon_start_witness:
  "dr_run demo_parse ''id'' (\<lambda>p w. (True, Suc w)) Suc (\<lambda>ctx w. (Ok (), w + 10))
       (lightweight_daemon 9100 ''svc'') 0 = (Ok (), 10)"
proof -
  have "demo_parse (dr_bind (lightweight_daemon 9100 ''svc'')) = Ok ''0.0.0.0:9000''"
    "dr_skip_observability (lightweight_daemon 9100 ''svc'')"
    "dr_service_name (lightweight_daemon 9100 ''svc'') = ''svc''"
    by (simp_all add: demo_parse_def lightweight_daemon_def dr_without_observability_def dr_new_def)
  then show ?thesis
    using daemon_start [of demo_parse "lightweight_daemon 9100 ''svc''" "''id''"
        "\<lambda>p w. (True, Suc w)" Suc "\<lambda>ctx w. (Ok (), w + 10)" 0] by auto
qed

end
