(* ===== verification/Builders.thy ===== *)
theory Builders
  imports Sinks RestClient MemoryDatabase ConsoleNotifier MockPayment RateLimit Retry Daemon
begin

text \<open>
  \<open>saf/builders.rs\<close> and the factory methods of \<open>saf/config.rs\<close>: every way the crate's users
  create a gateway, a middleware or a configuration.
\<close>

section \<open>Gateways\<close>

definition memory_database_gateway :: memory_database where
  "memory_database_gateway = db_new"

definition memory_database_with_tables :: "string list \<Rightarrow> memory_database" where
  "memory_database_with_tables tables = db_with_tables tables"

definition local_file_gateway_at :: "string \<Rightarrow> local_file_gateway" where
  "local_file_gateway_at base_path = lg_new base_path"

definition local_file_gateway_current_dir :: "string io_result \<Rightarrow> local_file_gateway io_result" where
  "local_file_gateway_current_dir cwd = lg_current_dir cwd"

definition rest_client_of :: "http_config \<Rightarrow> rest_client" where
  "rest_client_of config = rc_new config"

definition rest_client_with_base_url :: "string \<Rightarrow> rest_client" where
  "rest_client_with_base_url base_url = rc_with_base_url base_url"

definition console_notifier_gateway :: console_notifier where
  "console_notifier_gateway = cn_new"

definition silent_notifier :: console_notifier where
  "silent_notifier = cn_silent"

definition mock_payment_gateway :: mock_gateway where
  "mock_payment_gateway = mg_new"

definition mock_payment_gateway_with_failure :: "mock_failure_mode \<Rightarrow> mock_gateway" where
  "mock_payment_gateway_with_failure mode = with_failure_mode mg_new mode"

definition rate_limiter_of :: "nat \<Rightarrow> u64 \<Rightarrow> f64 \<Rightarrow> rate_limiter" where
  "rate_limiter_of now capacity refill_rate = rate_limiter_new now capacity refill_rate"

definition rate_limiter_builder_of :: rate_limiter_builder where
  "rate_limiter_builder_of = rate_limiter_builder_new"

definition retry_middleware_builder :: "'w retry_builder" where
  "retry_middleware_builder = retry_builder_new"

section \<open>Configurations\<close>

definition file_storage_config_local_at :: "string \<Rightarrow> file_storage_config" where
  "file_storage_config_local_at base_path = file_storage_config_local base_path"

definition file_storage_config_s3_of :: "string \<Rightarrow> string \<Rightarrow> file_storage_config" where
  "file_storage_config_s3_of bucket region = file_storage_config_s3 bucket region"

definition database_config_memory_of :: database_config where
  "database_config_memory_of = database_config_memory"

definition database_config_postgres_of :: "string \<Rightarrow> database_config" where
  "database_config_postgres_of connection_string = database_config_postgres connection_string"

definition http_config_of :: http_config where
  "http_config_of = http_config_default"

definition http_config_with_base_url :: "string \<Rightarrow> http_config" where
  "http_config_with_base_url base_url = htc_with_base_url base_url"

definition notification_config_of :: notification_config where
  "notification_config_of = notification_config_default"

definition payment_config_of :: payment_config where
  "payment_config_of = payment_config_default"

definition payment_config_mock_of :: payment_config where
  "payment_config_mock_of = payment_config_mock"

section \<open>Sinks and sources\<close>

definition stdout_sink :: output_sink where
  "stdout_sink = StdoutSink"

definition file_sink :: "string \<Rightarrow> output_sink" where
  "file_sink path = FileSink path"

definition configured_sink :: "gateway_config \<Rightarrow> output_sink" where
  "configured_sink config = ConfiguredOutputSink config"

definition input_source :: local_input_source where
  "input_source = local_input_source_new gateway_config_default"

definition configured_input_source :: "gateway_config \<Rightarrow> local_input_source" where
  "configured_input_source config = local_input_source_new config"

section \<open>Factories\<close>

text \<open>What \<open>GatewayConfig\<close> makes of itself; see also \<open>file_gateway\<close>.\<close>

definition config_database_gateway :: "gateway_config \<Rightarrow> memory_database" where
  "config_database_gateway c = memory_database_gateway"

definition config_http_gateway :: "gateway_config \<Rightarrow> rest_client" where
  "config_http_gateway c = rest_client_of (gc_http c)"

definition config_notification_gateway :: "gateway_config \<Rightarrow> console_notifier" where
  "config_notification_gateway c = console_notifier_gateway"

definition config_payment_gateway :: "gateway_config \<Rightarrow> mock_gateway" where
  "config_payment_gateway c = mock_payment_gateway"

text \<open>
  The factories ignore which backend a configuration asks for: two configurations that agree in
  their HTTP section and base path give the same five gateways, so a validated Postgres, S3,
  e-mail or Stripe configuration gets the in-memory database, the local files, the console and
  the mock payments.
\<close>

lemma factories_ignore_backends:
  assumes "gc_http c = gc_http d" and "fc_base_path (gc_file c) = fc_base_path (gc_file d)"
  shows "config_database_gateway c = config_database_gateway d"
    and "config_payment_gateway c = config_payment_gateway d"
    and "config_notification_gateway c = config_notification_gateway d"
    and "file_gateway c = file_gateway d" and "config_http_gateway c = config_http_gateway d"
  using assms
  by (simp_all add: config_database_gateway_def config_payment_gateway_def
      config_notification_gateway_def file_gateway_def config_http_gateway_def)

lemma postgres_configuration_accepted:
  "validate (with_database (\<lambda>_. database_config_postgres ''pg://db'') gateway_config_default) = Ok ()"
  by (simp add: validate_Ok_iff with_database_def database_config_postgres_def
      gateway_config_default_def file_storage_config_default_def payment_config_default_def
      sink_config_default_def filled_def)

end
