(* ===== verification/Workspace.thy ===== *)
theory Workspace
  imports PublishRun
begin

text \<open>
  The workspace path tools (\<open>xtask/src/workspace.rs\<close>) and the command line's dispatch
  (\<open>xtask/src/main.rs\<close>): listing, renaming and synchronising the members of a workspace, and the
  edits of its manifest. A TOML document is the tree of its values; decoration (comments, spacing)
  is left out. Parsing, printing, glob matching and the answer of \<open>cargo locate-project\<close> are
  arguments. An outer \<open>None\<close> is a panic, among them reading a missing key by index.
\<close>

section \<open>TOML documents\<close>

datatype toml =
  TString string
| TArray "toml list"
| TInline "(string \<times> toml) list"
| TTable "(string \<times> toml) list"
| TOther string

fun toml_get :: "string \<Rightarrow> toml \<Rightarrow> toml option" where
  "toml_get k (TInline es) = map_of es k"
| "toml_get k (TTable es) = map_of es k"
| "toml_get k _ = None"

fun toml_set :: "string \<Rightarrow> toml \<Rightarrow> toml \<Rightarrow> toml" where
  "toml_set k v (TInline es) = TInline (entries_put k v es)"
| "toml_set k v (TTable es) = TTable (entries_put k v es)"
| "toml_set k v t = t"

fun toml_str :: "toml \<Rightarrow> string option" where
  "toml_str (TString s) = Some s"
| "toml_str _ = None"

fun toml_array :: "toml \<Rightarrow> toml list option" where
  "toml_array (TArray xs) = Some xs"
| "toml_array _ = None"

definition is_table_like :: "toml \<Rightarrow> bool" where
  "is_table_like t \<longleftrightarrow> (case t of TInline _ \<Rightarrow> True | TTable _ \<Rightarrow> True | _ \<Rightarrow> False)"

text \<open>
  What the tools take from outside. Indexing a document for writing adds the keys that are
  missing; \<open>we_add_keys\<close> is the document it leaves then.
\<close>

record workspace_env =
  we_parse :: "string \<Rightarrow> (toml, string) result"
  we_print :: "toml \<Rightarrow> string"
  we_add_keys :: "string \<Rightarrow> string \<Rightarrow> toml \<Rightarrow> toml"
  we_utf8 :: "string \<Rightarrow> bool"
  we_glob :: "file_system \<Rightarrow> string \<Rightarrow> (string list, string) result"
  we_locate :: "process_output io_result"

text \<open>\<open>doc[a][b]\<close> for reading, and the same for writing with a change of what is found.\<close>

definition index2 :: "string \<Rightarrow> string \<Rightarrow> toml \<Rightarrow> toml option" where
  "index2 a b doc = Option.bind (toml_get a doc) (toml_get b)"

definition modify2 ::
  "workspace_env \<Rightarrow> string \<Rightarrow> string \<Rightarrow> (toml \<Rightarrow> toml) \<Rightarrow> toml \<Rightarrow> toml option" where
  "modify2 env a b f doc =
     (case toml_get a doc of
        None \<Rightarrow> Some (we_add_keys env a b doc)
      | Some t \<Rightarrow>
          if \<not> is_table_like t then None
          else (case toml_get b t of
                  None \<Rightarrow> Some (we_add_keys env a b doc)
                | Some x \<Rightarrow> Some (toml_set a (toml_set b (f x) t) doc)))"

section \<open>Reading manifests\<close>

definition cargo_toml :: "string \<Rightarrow> string" where
  "cargo_toml dir = path_join dir ''Cargo.toml''"

definition read_doc :: "workspace_env \<Rightarrow> file_system \<Rightarrow> string \<Rightarrow> toml anyhow" where
  "read_doc env fs path =
     and_then (io_failed (read_to_string (we_utf8 env) fs path)) (we_parse env)"

definition workspace_root :: "workspace_env \<Rightarrow> string anyhow option" where
  "workspace_root env =
     (case we_locate env of
        Err e \<Rightarrow> Some (Err (io_text e))
      | Ok out \<Rightarrow>
          if \<not> we_utf8 env (po_stdout out) then Some (Err ''invalid utf-8 sequence'')
          else map_option Ok (path_parent (str_trim (po_stdout out))))"

definition get_package_name :: "workspace_env \<Rightarrow> file_system \<Rightarrow> string \<Rightarrow> string anyhow option" where
  "get_package_name env fs dir =
     (if \<not> path_exists fs (cargo_toml dir) then Some (Ok ''<not found>'')
      else case read_doc env fs (cargo_toml dir) of
        Err e \<Rightarrow> Some (Err e)
      | Ok doc \<Rightarrow>
          map_option (\<lambda>item. Ok (case toml_str item of Some name \<Rightarrow> name | None \<Rightarrow> ''<unknown>''))
            (index2 ''package'' ''name'' doc))"

text \<open>The members loop of \<open>list\<close>: the lines printed so far.\<close>

fun list_ws_loop ::
  "workspace_env \<Rightarrow> file_system \<Rightarrow> string \<Rightarrow> toml list \<Rightarrow> string list \<Rightarrow> (unit anyhow \<times> string list) option" where
  "list_ws_loop env fs base [] out = Some (Ok (), out)"
| "list_ws_loop env fs base (member # members) out =
     (case toml_str member of
        None \<Rightarrow> list_ws_loop env fs base members out
      | Some path \<Rightarrow>
          (case get_package_name env fs (path_join base path) of
             None \<Rightarrow> None
           | Some (Err e) \<Rightarrow> Some (Err e, out)
           | Some (Ok name) \<Rightarrow>
               list_ws_loop env fs base members (out @ [pad_left_aligned 40 path @ '' '' @ name])))"

definition list_header :: "string list" where
  "list_header =
     [''Workspace members:'', pad_left_aligned 40 ''PATH'' @ '' PACKAGE'', replicate 70 (CHR ''-'')]"

definition list_members ::
  "workspace_env \<Rightarrow> file_system \<Rightarrow> (unit anyhow \<times> string list) option" where
  "list_members env fs =
     (case workspace_root env of
        None \<Rightarrow> None
      | Some (Err e) \<Rightarrow> Some (Err e, [])
      | Some (Ok base) \<Rightarrow>
          (case read_doc env fs (cargo_toml base) of
             Err e \<Rightarrow> Some (Err e, [])
           | Ok doc \<Rightarrow>
               (case index2 ''workspace'' ''members'' doc of
                  None \<Rightarrow> None
                | Some item \<Rightarrow>
                    (case toml_array item of
                       None \<Rightarrow> Some (Ok (), list_header)
                     | Some members \<Rightarrow> list_ws_loop env fs base members list_header))))"

section \<open>Editing manifests\<close>

fun edit_string :: "(string \<Rightarrow> string) \<Rightarrow> toml \<Rightarrow> toml" where
  "edit_string f (TString s) = TString (f s)"
| "edit_string f t = t"

fun edit_members :: "(string \<Rightarrow> string) \<Rightarrow> toml \<Rightarrow> toml" where
  "edit_members f (TArray xs) = TArray (map (edit_string f) xs)"
| "edit_members f t = t"

text \<open>The \<open>path\<close> of a dependency that is an inline table or a table.\<close>

definition edit_dependency :: "(string \<Rightarrow> string) \<Rightarrow> toml \<Rightarrow> toml" where
  "edit_dependency f dep =
     (case toml_get ''path'' dep of
        Some item \<Rightarrow> toml_set ''path'' (edit_string f item) dep
      | None \<Rightarrow> dep)"

fun edit_dependencies :: "(string \<Rightarrow> string) \<Rightarrow> toml \<Rightarrow> toml" where
  "edit_dependencies f (TTable es) = TTable (map (\<lambda>(k, v). (k, edit_dependency f v)) es)"
| "edit_dependencies f t = t"

definition replace_if :: "(string \<Rightarrow> bool) \<Rightarrow> string \<Rightarrow> string \<Rightarrow> string \<Rightarrow> string" where
  "replace_if cond from to path = (if cond path then replace_text from to path else path)"

definition update_dependency_paths :: "workspace_env \<Rightarrow> toml \<Rightarrow> string \<Rightarrow> string \<Rightarrow> toml option" where
  "update_dependency_paths env doc from to =
     modify2 env ''workspace'' ''dependencies''
       (edit_dependencies (replace_if (\<lambda>path. contains_sub path from) from to)) doc"

definition renamed_member :: "string \<Rightarrow> string \<Rightarrow> string \<Rightarrow> string" where
  "renamed_member from to =
     replace_if (\<lambda>path. starts_with path from \<or> contains_sub path (''/'' @ from @ ''/'') \<or>
       contains_sub path (''/'' @ from)) from to"

text \<open>Writing the edited document back.\<close>

definition write_doc :: "workspace_env \<Rightarrow> file_system \<Rightarrow> string \<Rightarrow> toml \<Rightarrow> unit anyhow \<times> file_system" where
  "write_doc env fs path doc = map_prod io_failed id (write_all fs path (we_print env doc))"

definition update_cargo_toml_paths ::
  "workspace_env \<Rightarrow> file_system \<Rightarrow> string \<Rightarrow> string \<Rightarrow> string \<Rightarrow> (unit anyhow \<times> file_system) option" where
  "update_cargo_toml_paths env fs base from to =
     (case read_doc env fs (cargo_toml base) of
        Err e \<Rightarrow> Some (Err e, fs)
      | Ok doc \<Rightarrow>
          map_option (write_doc env fs (cargo_toml base))
            (Option.bind (modify2 env ''workspace'' ''members'' (edit_members (renamed_member from to)) doc)
              (\<lambda>doc'. update_dependency_paths env doc' from to)))"

text \<open>The first entry of the rename list for a path.\<close>

fun rename_of :: "(string \<times> string) list \<Rightarrow> string \<Rightarrow> string" where
  "rename_of [] path = path"
| "rename_of ((old, new) # renames) path = (if path = old then new else rename_of renames path)"

definition update_cargo_toml_bulk ::
  "workspace_env \<Rightarrow> file_system \<Rightarrow> string \<Rightarrow> (string \<times> string) list \<Rightarrow> (unit anyhow \<times> file_system) option" where
  "update_cargo_toml_bulk env fs base renames =
     (case read_doc env fs (cargo_toml base) of
        Err e \<Rightarrow> Some (Err e, fs)
      | Ok doc \<Rightarrow>
          map_option (write_doc env fs (cargo_toml base))
            (Option.bind (modify2 env ''workspace'' ''members'' (edit_members (rename_of renames)) doc)
              (modify2 env ''workspace'' ''dependencies'' (edit_dependencies (rename_of renames)))))"

section \<open>Renaming\<close>

definition rename_member ::
  "workspace_env \<Rightarrow> file_system \<Rightarrow> string \<Rightarrow> string \<Rightarrow> bool \<Rightarrow> (unit anyhow \<times> file_system) option" where
  "rename_member env fs from to dry_run =
     (case workspace_root env of
        None \<Rightarrow> None
      | Some (Err e) \<Rightarrow> Some (Err e, fs)
      | Some (Ok base) \<Rightarrow>
          (let from_path = path_join base from; to_path = path_join base to in
           if \<not> path_exists fs from_path then Some (Err (''Source path does not exist: '' @ from), fs)
           else if path_exists fs to_path then Some (Err (''Target path already exists: '' @ to), fs)
           else if dry_run then Some (Ok (), fs)
           else (case (case path_parent to_path of
                         Some parent \<Rightarrow> create_dir_all fs parent | None \<Rightarrow> (Ok (), fs)) of
                   (Err e, fs1) \<Rightarrow> Some (Err (io_text e), fs1)
                 | (Ok _, fs1) \<Rightarrow>
                     (case rename_path fs1 from_path to_path of
                        (Err e, fs2) \<Rightarrow> Some (Err (''Failed to rename '' @ from @ '' -> '' @ to), fs2)
                      | (Ok _, fs2) \<Rightarrow> update_cargo_toml_paths env fs2 base from to))))"

definition mv ::
  "workspace_env \<Rightarrow> file_system \<Rightarrow> string \<Rightarrow> string \<Rightarrow> bool \<Rightarrow> (unit anyhow \<times> file_system) option" where
  "mv env fs source dest dry_run = rename_member env fs source dest dry_run"

text \<open>The renames a pattern asks for.\<close>

fun bulk_renames :: "string \<Rightarrow> string \<Rightarrow> toml list \<Rightarrow> (string \<times> string) list" where
  "bulk_renames from to [] = []"
| "bulk_renames from to (member # members) =
     (case toml_str member of
        Some path \<Rightarrow>
          if contains_sub path from then (path, replace_text from to path) # bulk_renames from to members
          else bulk_renames from to members
      | None \<Rightarrow> bulk_renames from to members)"

definition is_parent :: "(string \<times> string) list \<Rightarrow> string \<Rightarrow> bool" where
  "is_parent renames old \<longleftrightarrow> (\<exists>(o', n) \<in> set renames. o' \<noteq> old \<and> starts_with o' old)"

fun move_dirs ::
  "(string \<times> string) list \<Rightarrow> string \<Rightarrow> (string \<times> string) list \<Rightarrow> file_system \<Rightarrow> unit anyhow \<times> file_system" where
  "move_dirs renames base [] fs = (Ok (), fs)"
| "move_dirs renames base ((old, new) # rest) fs =
     (if \<not> path_exists fs (path_join base old) then move_dirs renames base rest fs
      else if is_parent renames old
      then (case (case path_parent (path_join base new) of
                    Some parent \<Rightarrow> create_dir_all fs parent | None \<Rightarrow> (Ok (), fs)) of
              (Err e, fs1) \<Rightarrow> (Err (io_text e), fs1)
            | (Ok _, fs1) \<Rightarrow>
                (case rename_path fs1 (path_join base old) (path_join base new) of
                   (Err e, fs2) \<Rightarrow> (Err (io_text e), fs2)
                 | (Ok _, fs2) \<Rightarrow> move_dirs renames base rest fs2))
      else move_dirs renames base rest fs)"

definition bulk_rename ::
  "workspace_env \<Rightarrow> file_system \<Rightarrow> string \<Rightarrow> bool \<Rightarrow> (unit anyhow \<times> file_system) option" where
  "bulk_rename env fs pattern dry_run =
     (case split_text ''->'' pattern of
        [a, b] \<Rightarrow>
          (case workspace_root env of
             None \<Rightarrow> None
           | Some (Err e) \<Rightarrow> Some (Err e, fs)
           | Some (Ok base) \<Rightarrow>
               (case read_doc env fs (cargo_toml base) of
                  Err e \<Rightarrow> Some (Err e, fs)
                | Ok doc \<Rightarrow>
                    (case index2 ''workspace'' ''members'' doc of
                       None \<Rightarrow> None
                     | Some item \<Rightarrow>
                         (let renames = (case toml_array item of
                                Some members \<Rightarrow> bulk_renames (str_trim a) (str_trim b) members
                              | None \<Rightarrow> [])
                          in if renames = [] \<or> dry_run then Some (Ok (), fs)
                             else (case move_dirs renames base (rev renames) fs of
                                     (Err e, fs1) \<Rightarrow> Some (Err e, fs1)
                                   | (Ok _, fs1) \<Rightarrow> update_cargo_toml_bulk env fs1 base renames)))))
      | _ \<Rightarrow> Some (Err (''Pattern must be in format '' @ quoted ''old->new'' @ '' (e.g., '' @
               quoted ''agents->agent'' @ '')''), fs))"

section \<open>Synchronising\<close>

text \<open>The path below the root of a path that \<open>glob\<close> found there.\<close>

definition strip_root :: "string \<Rightarrow> string \<Rightarrow> string anyhow" where
  "strip_root base p =
     (if p = base then Ok ''''
      else case strip_prefix p (base @ ''/'') of
        Some r \<Rightarrow> Ok r
      | None \<Rightarrow> Err ''prefix not found'')"

fun find_in :: "workspace_env \<Rightarrow> file_system \<Rightarrow> string \<Rightarrow> string \<Rightarrow> string list \<Rightarrow> string option anyhow option" where
  "find_in env fs base expected [] = Some (Ok None)"
| "find_in env fs base expected (cargo_path # rest) =
     (case read_doc env fs cargo_path of
        Err _ \<Rightarrow> find_in env fs base expected rest
      | Ok doc \<Rightarrow>
          (case index2 ''package'' ''name'' doc of
             None \<Rightarrow> None
           | Some item \<Rightarrow>
               if toml_str item = Some expected
               then (case path_parent cargo_path of
                       None \<Rightarrow> None
                     | Some crate_dir \<Rightarrow>
                         Some (map_ok (\<lambda>r. Some (replace_text [CHR 0x5C] ''/'' r)) (strip_root base crate_dir)))
               else find_in env fs base expected rest))"

definition expected_name :: "string \<Rightarrow> string" where
  "expected_name old_path = (case path_file_name old_path of Some n \<Rightarrow> n | None \<Rightarrow> '''')"

definition find_crate_by_name ::
  "workspace_env \<Rightarrow> file_system \<Rightarrow> string \<Rightarrow> string \<Rightarrow> string option anyhow option" where
  "find_crate_by_name env fs base old_path =
     (case we_glob env fs (base @ ''/**/Cargo.toml'') of
        Err e \<Rightarrow> Some (Err e)
      | Ok found \<Rightarrow> find_in env fs base (expected_name old_path) found)"

text \<open>The repairs: position, old and new path of a member; \<open>i\<close> counts the members seen.\<close>

type_synonym fix_list = "(nat \<times> string \<times> string) list"

fun find_fixes ::
  "workspace_env \<Rightarrow> file_system \<Rightarrow> string \<Rightarrow> nat \<Rightarrow> toml list \<Rightarrow> fix_list anyhow option" where
  "find_fixes env fs base i [] = Some (Ok [])"
| "find_fixes env fs base i (member # members) =
     (case toml_str member of
        None \<Rightarrow> find_fixes env fs base (Suc i) members
      | Some path \<Rightarrow>
          if path_exists fs (path_join base path) then find_fixes env fs base (Suc i) members
          else (case find_crate_by_name env fs base path of
                  None \<Rightarrow> None
                | Some (Err e) \<Rightarrow> Some (Err e)
                | Some (Ok None) \<Rightarrow> find_fixes env fs base (Suc i) members
                | Some (Ok (Some new_path)) \<Rightarrow>
                    map_option (map_ok ((#) (i, path, new_path))) (find_fixes env fs base (Suc i) members)))"

text \<open>\<open>get_mut(i)\<close> gives nothing past the end.\<close>

fun apply_fixes :: "fix_list \<Rightarrow> toml \<Rightarrow> toml" where
  "apply_fixes repairs (TArray xs) =
     TArray (foldl (\<lambda>ys (i, old, new). ys[i := TString new]) xs repairs)"
| "apply_fixes repairs t = t"

fun fix_dependencies :: "workspace_env \<Rightarrow> fix_list \<Rightarrow> toml \<Rightarrow> toml option" where
  "fix_dependencies env [] doc = Some doc"
| "fix_dependencies env ((i, old, new) # repairs) doc =
     Option.bind (update_dependency_paths env doc old new) (fix_dependencies env repairs)"

definition sync :: "workspace_env \<Rightarrow> file_system \<Rightarrow> bool \<Rightarrow> (unit anyhow \<times> file_system) option" where
  "sync env fs dry_run =
     (case workspace_root env of
        None \<Rightarrow> None
      | Some (Err e) \<Rightarrow> Some (Err e, fs)
      | Some (Ok base) \<Rightarrow>
          (case read_doc env fs (cargo_toml base) of
             Err e \<Rightarrow> Some (Err e, fs)
           | Ok doc \<Rightarrow>
               (case index2 ''workspace'' ''members'' doc of
                  None \<Rightarrow> None
                | Some item \<Rightarrow>
                    (case (case toml_array item of
                             Some members \<Rightarrow> find_fixes env fs base 0 members | None \<Rightarrow> Some (Ok [])) of
                       None \<Rightarrow> None
                     | Some (Err e) \<Rightarrow> Some (Err e, fs)
                     | Some (Ok repairs) \<Rightarrow>
                         if repairs = [] \<or> dry_run then Some (Ok (), fs)
                         else map_option (write_doc env fs (cargo_toml base))
                                (Option.bind (modify2 env ''workspace'' ''members'' (apply_fixes repairs) doc)
                                  (fix_dependencies env repairs))))))"

section \<open>The command line\<close>

datatype ws_command =
  WsList
| WsRename string string bool
| WsMv string string bool
| WsBulkRename string bool
| WsSync bool

datatype xtask_command =
  PublishCommand "string list" bool "string option"
| Ws ws_command

text \<open>\<open>main\<close> after the arguments are parsed; the world is that of a publishing run.\<close>

definition on_files :: "publish_world \<Rightarrow> (unit anyhow \<times> file_system) option \<Rightarrow> (unit anyhow \<times> publish_world) option" where
  "on_files w r = map_option (map_prod id (\<lambda>fs. w\<lparr>pw_fs := fs\<rparr>)) r"

fun run_ws :: "workspace_env \<Rightarrow> ws_command \<Rightarrow> publish_world \<Rightarrow> (unit anyhow \<times> publish_world) option" where
  "run_ws env WsList w = map_option (\<lambda>(r, out). (r, w)) (list_members env (pw_fs w))"
| "run_ws env (WsRename from to dry_run) w = on_files w (rename_member env (pw_fs w) from to dry_run)"
| "run_ws env (WsMv source dest dry_run) w = on_files w (mv env (pw_fs w) source dest dry_run)"
| "run_ws env (WsBulkRename pattern dry_run) w = on_files w (bulk_rename env (pw_fs w) pattern dry_run)"
| "run_ws env (WsSync dry_run) w = on_files w (sync env (pw_fs w) dry_run)"

fun xtask_main ::
  "programs \<Rightarrow> publish_env \<Rightarrow> package list option \<Rightarrow> workspace_env \<Rightarrow> xtask_command \<Rightarrow> publish_world \<Rightarrow>
   (unit anyhow \<times> publish_world) option" where
  "xtask_main programs env metadata ws (PublishCommand package dry_run registry_path) w =
     run_publish programs env metadata package dry_run registry_path w"
| "xtask_main programs env metadata ws (Ws ws_cmd) w = run_ws ws ws_cmd w"

section \<open>Editing by key\<close>

lemma toml_get_set: "toml_get k t = Some x \<Longrightarrow> toml_get k' (toml_set k v t) = (if k' = k then Some v else toml_get k' t)"
  by (cases t) auto

lemma toml_get_set_table: "is_table_like t \<Longrightarrow> toml_get k' (toml_set k v t) = (if k' = k then Some v else toml_get k' t)"
  by (cases t) (auto simp: is_table_like_def)

text \<open>Adding the missing keys keeps what can be read.\<close>

definition adds_keys_only :: "workspace_env \<Rightarrow> bool" where
  "adds_keys_only env \<longleftrightarrow>
     (\<forall>a b doc x y v. index2 x y doc = Some v \<longrightarrow> index2 x y (we_add_keys env a b doc) = Some v)"

lemma modify2_index:
  assumes "modify2 env a b f doc = Some doc'" "index2 a b doc = Some x"
  shows "index2 a b doc' = Some (f x)"
proof -
  obtain t where t: "toml_get a doc = Some t" "toml_get b t = Some x"
    using assms(2) by (auto simp: index2_def bind_eq_Some_conv)
  with assms(1) have "doc' = toml_set a (toml_set b (f x) t) doc"
    by (auto simp: modify2_def split: if_splits)
  then show ?thesis using t by (simp add: index2_def toml_get_set [OF t(1)] toml_get_set [OF t(2)])
qed

lemma modify2_other:
  assumes "modify2 env a b f doc = Some doc'" "index2 c d doc = Some x" "adds_keys_only env" "(c, d) \<noteq> (a, b)"
  shows "index2 c d doc' = Some x"
proof -
  consider (added) "doc' = we_add_keys env a b doc"
    | (changed) t y where "toml_get a doc = Some t" "is_table_like t" "doc' = toml_set a (toml_set b y t) doc"
    using assms(1) by (auto simp: modify2_def split: option.splits if_splits)
  then show ?thesis
  proof cases
    case added
    with assms(2,3) show ?thesis by (auto simp: adds_keys_only_def)
  next
    case changed
    with assms(2,4) show ?thesis
      by (auto simp: index2_def bind_eq_Some_conv toml_get_set [OF changed(1)] toml_get_set_table [OF changed(2)])
  qed
qed

section \<open>What bulk renaming does\<close>

lemma move_dirs_leaves:
  "\<forall>(old, new) \<in> set rs. \<not> is_parent renames old \<Longrightarrow> move_dirs renames base rs fs = (Ok (), fs)"
  by (induction rs) auto

lemma write_doc_sets:
  assumes "write_doc env fs p doc = (Ok u, fs')"
  shows "find_node fs' p = Ok (loc_of fs p, FileNode (we_print env doc)) \<and>
    (\<forall>l. l \<noteq> loc_of fs p \<longrightarrow> fs_tree fs' l = fs_tree fs l)"
proof -
  have "write_all fs p (we_print env doc) = (Ok u, fs')"
    using assms by (cases "write_all fs p (we_print env doc)") (simp add: write_doc_def io_failed_def)
  then show ?thesis by (rule write_all_sets) (auto dest: resolve_loc)
qed

lemma bulk_manifest:
  assumes "update_cargo_toml_bulk env fs base renames = Some (Ok u, fs')" "adds_keys_only env"
    and "read_doc env fs (cargo_toml base) = Ok doc" "index2 ''workspace'' ''members'' doc = Some item"
  shows "\<exists>doc'. find_node fs' (cargo_toml base) = Ok (loc_of fs (cargo_toml base), FileNode (we_print env doc')) \<and>
    index2 ''workspace'' ''members'' doc' = Some (edit_members (rename_of renames) item) \<and>
    (\<forall>l. l \<noteq> loc_of fs (cargo_toml base) \<longrightarrow> fs_tree fs' l = fs_tree fs l)"
proof -
  obtain doc1 doc2 where d: "modify2 env ''workspace'' ''members'' (edit_members (rename_of renames)) doc = Some doc1"
    "modify2 env ''workspace'' ''dependencies'' (edit_dependencies (rename_of renames)) doc1 = Some doc2"
    "write_doc env fs (cargo_toml base) doc2 = (Ok u, fs')"
    using assms(1,3) by (auto simp: update_cargo_toml_bulk_def bind_eq_Some_conv)
  have "index2 ''workspace'' ''members'' doc2 = Some (edit_members (rename_of renames) item)"
    by (rule modify2_other [OF d(2) modify2_index [OF d(1) assms(4)] assms(2)]) simp
  with write_doc_sets [OF d(3)] show ?thesis by blast
qed

section \<open>What synchronising does\<close>

text \<open>A member after synchronising: replaced when it is missing and a crate of its name is found.\<close>

definition synced :: "workspace_env \<Rightarrow> file_system \<Rightarrow> string \<Rightarrow> toml \<Rightarrow> toml" where
  "synced env fs base member =
     (case toml_str member of
        None \<Rightarrow> member
      | Some path \<Rightarrow>
          if path_exists fs (path_join base path) then member
          else (case find_crate_by_name env fs base path of
                  Some (Ok (Some new_path)) \<Rightarrow> TString new_path
                | _ \<Rightarrow> member))"

lemma find_fixes_synced:
  assumes "find_fixes env fs base (length pre) members = Some (Ok repairs)"
  shows "foldl (\<lambda>ys (i, old, new). ys[i := TString new]) (pre @ members) repairs =
    pre @ map (synced env fs base) members"
  using assms
proof (induction members arbitrary: pre repairs)
  case (Cons m ms)
  have step: "foldl (\<lambda>ys (i, old, new). ys[i := TString new]) (pre @ m # ms) repairs =
      pre @ m # map (synced env fs base) ms"
    if "find_fixes env fs base (Suc (length pre)) ms = Some (Ok repairs)"
    using Cons.IH [of "pre @ [m]" repairs] that by simp
  show ?case
  proof (cases "toml_str m")
    case None
    with Cons.prems step show ?thesis by (simp add: synced_def)
  next
    case (Some path)
    show ?thesis
    proof (cases "path_exists fs (path_join base path)")
      case True
      with Some Cons.prems step show ?thesis by (simp add: synced_def)
    next
      case False
      show ?thesis
      proof (cases "\<exists>n. find_crate_by_name env fs base path = Some (Ok (Some n))")
        case True
        then obtain n where n: "find_crate_by_name env fs base path = Some (Ok (Some n))" by blast
        with Some False Cons.prems obtain rest where
          "find_fixes env fs base (Suc (length pre)) ms = Some (Ok rest)" "repairs = (length pre, path, n) # rest"
          by (auto simp: map_ok_iff)
        with Cons.IH [of "pre @ [TString n]" rest] show ?thesis
          by (simp add: synced_def Some False n)
      next
        case none: False
        with Some False Cons.prems have "find_crate_by_name env fs base path = Some (Ok None)"
          by (auto split: option.splits result.splits)
        with Some False Cons.prems step show ?thesis by (simp add: synced_def)
      qed
    qed
  qed
qed simp

lemma fix_dependencies_members:
  "fix_dependencies env repairs doc = Some doc' \<Longrightarrow> adds_keys_only env \<Longrightarrow>
   index2 ''workspace'' ''members'' doc = Some x \<Longrightarrow> index2 ''workspace'' ''members'' doc' = Some x"
proof (induction env repairs doc arbitrary: doc' rule: fix_dependencies.induct)
  case (2 env i old new repairs doc)
  then obtain doc1 where d: "update_dependency_paths env doc old new = Some doc1" "fix_dependencies env repairs doc1 = Some doc'"
    by (auto simp: bind_eq_Some_conv)
  from d(1) have "index2 ''workspace'' ''members'' doc1 = Some x"
    unfolding update_dependency_paths_def by (rule modify2_other) (use "2.prems" in simp_all)
  with "2.IH" d "2.prems"(2) show ?case by blast
qed simp

text \<open>What a search finds: a directory below the root whose manifest names the package.\<close>

lemma find_in_names:
  "find_in env fs base expected found = Some (Ok (Some r)) \<Longrightarrow>
   \<exists>p doc item dir. p \<in> set found \<and> read_doc env fs p = Ok doc \<and> index2 ''package'' ''name'' doc = Some item \<and>
     toml_str item = Some expected \<and> path_parent p = Some dir \<and>
     map_ok (replace_text [CHR 0x5C] ''/'') (strip_root base dir) = Ok r"
proof (induction found)
  case (Cons p rest)
  show ?case
  proof (cases "\<exists>doc item. read_doc env fs p = Ok doc \<and> index2 ''package'' ''name'' doc = Some item \<and> toml_str item = Some expected")
    case True
    then obtain doc item where d: "read_doc env fs p = Ok doc" "index2 ''package'' ''name'' doc = Some item"
      "toml_str item = Some expected" by blast
    with Cons.prems obtain dir where dir: "path_parent p = Some dir"
      "map_ok (\<lambda>r. Some (replace_text [CHR 0x5C] ''/'' r)) (strip_root base dir) = Ok (Some r)"
      by (auto split: option.splits)
    then have "map_ok (replace_text [CHR 0x5C] ''/'') (strip_root base dir) = Ok r" by (auto simp: map_ok_iff)
    moreover have "p \<in> set (p # rest)" by simp
    ultimately show ?thesis using d dir(1) by blast
  next
    case False
    then have "find_in env fs base expected rest = Some (Ok (Some r))"
      using Cons.prems by (auto split: result.splits option.splits if_splits)
    from Cons.IH [OF this] show ?thesis by (meson list.set_intros(2))
  qed
qed simp

section \<open>Properties\<close>



section \<open>An example workspace\<close>

definition demo_manifest :: "string \<Rightarrow> toml" where
  "demo_manifest member = TTable [(''workspace'', TTable [(''members'', TArray [TString ''.'', TString member])])]"

definition demo_ws_env :: workspace_env where
  "demo_ws_env =
     \<lparr>we_parse = (\<lambda>s. if s = ''W'' then Ok (demo_manifest ''xtask'')
          else if s = ''P'' then Ok (TTable [(''package'', TTable [(''name'', TString ''xtask'')])])
          else Err ''invalid''),
      we_print = (\<lambda>d. ''edited''), we_add_keys = (\<lambda>a b d. d), we_utf8 = (\<lambda>_. True),
      we_glob = (\<lambda>fs p. Ok [''/w/tools/Cargo.toml'']),
      we_locate = Ok \<lparr>po_success = True, po_stdout = ''/w/Cargo.toml'' @ [newline], po_stderr = ''''\<rparr>\<rparr>"

definition demo_ws_fs :: "string \<Rightarrow> file_system" where
  "demo_ws_fs name =
     \<lparr>fs_tree = [[''w''] \<mapsto> DirNode, [''w'', ''Cargo.toml''] \<mapsto> FileNode ''W'', [''w'', name] \<mapsto> DirNode,
        [''w'', name, ''Cargo.toml''] \<mapsto> FileNode ''P''], fs_cwd = []\<rparr>"

lemma demo_ws_facts:
  "workspace_root demo_ws_env = Some (Ok ''/w'')"
  "read_doc demo_ws_env (demo_ws_fs ''xtask'') (cargo_toml ''/w'') = Ok (demo_manifest ''xtask'')"
  "read_doc demo_ws_env (demo_ws_fs ''tools'') (cargo_toml ''/w'') = Ok (demo_manifest ''xtask'')"
  "index2 ''workspace'' ''members'' (demo_manifest ''xtask'') = Some (TArray [TString ''.'', TString ''xtask''])"
  "split_text ''->'' ''xtask->tools'' = [''xtask'', ''tools'']"
  "bulk_renames (str_trim ''xtask'') (str_trim ''tools'') [TString ''.'', TString ''xtask''] = [(''xtask'', ''tools'')]"
  "loc_of (demo_ws_fs ''xtask'') (cargo_toml ''/w'') = [''w'', ''Cargo.toml'']"
  "map_option (is_ok \<circ> fst) (update_cargo_toml_bulk demo_ws_env (demo_ws_fs ''xtask'') ''/w'' [(''xtask'', ''tools'')]) = Some True"
  "map_option (is_ok \<circ> fst) (sync demo_ws_env (demo_ws_fs ''tools'') False) = Some True"
  "synced demo_ws_env (demo_ws_fs ''tools'') ''/w'' (TString ''xtask'') = TString ''tools''"
  by code_simp+

lemma demo_adds: "adds_keys_only demo_ws_env"
  by (simp add: adds_keys_only_def demo_ws_env_def)



section \<open>What renaming does to the manifest\<close>

lemma replace_match_head:
  "from \<noteq> [] \<Longrightarrow> replace_match from to (from @ rest) = to @ replace_match from to rest"
  by (subst replace_match.simps) simp

lemma replace_match_absent: "\<not> contains_sub s from \<Longrightarrow> replace_match from to s = s"
proof (induction s)
  case Nil
  then show ?case by (simp add: replace_match.simps)
next
  case (Cons c s)
  have "\<not> starts_with (c # s) from"
    using Cons.prems unfolding starts_with_iff contains_sub_iff by (metis append_Nil)
  moreover have "\<not> contains_sub s from"
    using Cons.prems unfolding contains_sub_iff by (metis append_Cons)
  ultimately show ?case using Cons.IH by (subst replace_match.simps) simp
qed

text \<open>A member inside the renamed directory follows it when the old path does not occur again in it.\<close>

lemma renamed_member_below:
  assumes "from \<noteq> []" "\<not> contains_sub rest from"
  shows "renamed_member from to (from @ rest) = to @ rest"
  using assms by (simp add: renamed_member_def replace_if_def replace_text_def replace_match_head replace_match_absent)

text \<open>A sibling whose name starts with the old path is rewritten although its directory stays.\<close>

lemma renamed_sibling: "renamed_member ''core'' ''base'' ''core-utils'' = ''base-utils''"
  by code_simp

text \<open>
  A manifest without a \<open>[package]\<close> section panics where a name is asked for, so listing does not
  print \<open><unknown>\<close> and a search that reads a virtual workspace's own manifest does not return.
\<close>

lemma unnamed_manifest_panics:
  assumes "path_exists fs (cargo_toml dir)" "read_doc env fs (cargo_toml dir) = Ok doc"
    and "toml_get ''package'' doc = None"
  shows "get_package_name env fs dir = None"
    and "find_in env fs base expected (cargo_toml dir # rest) = None"
  using assms by (simp_all add: get_package_name_def index2_def)

text \<open>An empty old part of the pattern matches every member.\<close>

lemma empty_pattern_renames_all: "bulk_renames '''' ''x'' [TString ''ab''] = [(''ab'', ''xaxbx'')]"
  by code_simp

section \<open>What renaming does\<close>

lemma rename_refused:
  assumes "workspace_root env = Some (Ok base)"
  shows "\<not> path_exists fs (path_join base from) \<Longrightarrow>
      rename_member env fs from to dry_run = Some (Err (''Source path does not exist: '' @ from), fs)"
    and "path_exists fs (path_join base from) \<Longrightarrow> path_exists fs (path_join base to) \<Longrightarrow>
      rename_member env fs from to dry_run = Some (Err (''Target path already exists: '' @ to), fs)"
    and "path_exists fs (path_join base from) \<Longrightarrow> \<not> path_exists fs (path_join base to) \<Longrightarrow>
      rename_member env fs from to True = Some (Ok (), fs)"
  using assms by (simp_all add: rename_member_def)

text \<open>A file that is read is the one at the location of its path.\<close>

lemma read_doc_file:
  assumes "read_doc env fs p = Ok doc"
  obtains contents where "fs_tree fs (loc_of fs p) = Some (FileNode contents)" "we_parse env contents = Ok doc"
proof -
  obtain contents where c: "read_to_string (we_utf8 env) fs p = Ok contents" "we_parse env contents = Ok doc"
    using assms by (auto simp: read_doc_def io_failed_def result_simps split: result.splits)
  then obtain loc n where "find_node fs p = Ok (loc, n)" "read_all fs p = Ok contents"
    by (auto simp: read_to_string_def read_all_def result_simps split: if_splits)
  then have "find_node fs p = Ok (loc, FileNode contents)"
    by (cases n) (simp_all add: read_all_def)
  then have "loc = loc_of fs p" "node_at (fs_tree fs) loc = Some (FileNode contents)"
    using find_node_loc_of find_node_loc by blast+
  with c(2) show thesis by (auto simp: node_at_def split: if_splits intro: that)
qed

lemma renamed_manifest:
  assumes "update_cargo_toml_paths env fs base from to = Some (Ok u, fs')" "adds_keys_only env"
    and "read_doc env fs (cargo_toml base) = Ok doc"
  shows "\<exists>doc'. find_node fs' (cargo_toml base) = Ok (loc_of fs (cargo_toml base), FileNode (we_print env doc')) \<and>
    (\<forall>members. index2 ''workspace'' ''members'' doc = Some members \<longrightarrow>
      index2 ''workspace'' ''members'' doc' = Some (edit_members (renamed_member from to) members)) \<and>
    (\<forall>l. l \<noteq> loc_of fs (cargo_toml base) \<longrightarrow> fs_tree fs' l = fs_tree fs l)"
proof -
  obtain doc1 doc2 where d: "modify2 env ''workspace'' ''members'' (edit_members (renamed_member from to)) doc = Some doc1"
    "update_dependency_paths env doc1 from to = Some doc2" "write_doc env fs (cargo_toml base) doc2 = (Ok u, fs')"
    using assms(1,3) by (auto simp: update_cargo_toml_paths_def bind_eq_Some_conv)
  have "index2 ''workspace'' ''members'' doc2 = Some (edit_members (renamed_member from to) members)"
    if "index2 ''workspace'' ''members'' doc = Some members" for members
    by (rule modify2_other [OF d(2) [unfolded update_dependency_paths_def] modify2_index [OF d(1) that] assms(2)]) simp
  with write_doc_sets [OF d(3)] show ?thesis by blast
qed


text \<open>The demonstration workspace before and after the directory is moved.\<close>

definition demo_before :: file_system where
  "demo_before = (demo_ws_fs ''xtask'')\<lparr>fs_tree := (fs_tree (demo_ws_fs ''xtask''))([''w'', ''new''] \<mapsto> DirNode)\<rparr>"

definition demo_after :: file_system where
  "demo_after = demo_before\<lparr>fs_tree := moved [''w'', ''xtask''] [''w'', ''new'', ''tools''] (fs_tree demo_before)\<rparr>"

lemma demo_rename_facts:
  "path_join ''/w'' ''xtask'' = ''/w/xtask''" "path_join ''/w'' ''new/tools'' = ''/w/new/tools''"
  "path_exists (demo_ws_fs ''xtask'') ''/w/xtask''" "\<not> path_exists (demo_ws_fs ''xtask'') ''/w/new/tools''"
  "path_parent ''/w/new/tools'' = Some ''/w/new''" "trim_end_matches slash ''/w/new'' = ''/w/new''"
  "resolve (demo_ws_fs ''xtask'') ''/w/new'' = Ok [''w'', ''new'']"
  "node_at (fs_tree (demo_ws_fs ''xtask'')) [''w'', ''new''] = None"
  "find_node demo_before ''/w/xtask'' = Ok ([''w'', ''xtask''], DirNode)"
  "resolve demo_before ''/w/new/tools'' = Ok [''w'', ''new'', ''tools'']"
  "node_at (fs_tree demo_before) [''w'', ''new'', ''tools''] = None"
  "map_option (is_ok \<circ> fst) (update_cargo_toml_paths demo_ws_env demo_after ''/w'' ''xtask'' ''new/tools'') = Some True"
  "loc_of (demo_ws_fs ''xtask'') ''/w/xtask'' = [''w'', ''xtask'']"
  "loc_of (demo_ws_fs ''xtask'') ''/w/new/tools'' = [''w'', ''new'', ''tools'']"
  by code_simp+

lemma demo_rename_runs:
  "rename_member demo_ws_env (demo_ws_fs ''xtask'') ''xtask'' ''new/tools'' False =
    update_cargo_toml_paths demo_ws_env demo_after ''/w'' ''xtask'' ''new/tools''"
proof -
  have "create_dir_all (demo_ws_fs ''xtask'') ''/w/new'' = (Ok (), demo_before)"
    by (subst create_dir_all.simps) (simp add: mkdir_def demo_rename_facts(6-8) demo_before_def)
  moreover have "rename_path demo_before ''/w/xtask'' ''/w/new/tools'' = (Ok (), demo_after)"
    by (simp add: rename_path_def demo_rename_facts(9-11) demo_after_def below_def)
  ultimately show ?thesis
    by (simp add: rename_member_def demo_ws_facts(1) demo_rename_facts(1-5))
qed


end
