(* ===== verification/GrpcApi.thy ===== *)
theory GrpcApi
  imports GatewayTypes
begin

text \<open>
  \<open>api/grpc.rs\<close>: requests, responses and status codes of gRPC calls.
\<close>

record grpc_metadata =
  gm_headers :: "string \<rightharpoonup> string"

definition grpc_metadata_default :: grpc_metadata where
  "grpc_metadata_default = \<lparr>gm_headers = Map.empty\<rparr>"

record grpc_request =
  gq_method :: string
  gq_body :: string
  gq_metadata :: grpc_metadata

record grpc_response =
  gp_body :: string
  gp_metadata :: grpc_metadata

datatype grpc_status_code =
  GrpcOk | GrpcCancelled | GrpcUnknown | GrpcInvalidArgument | GrpcDeadlineExceeded | GrpcNotFound
| GrpcAlreadyExists | GrpcPermissionDenied | GrpcResourceExhausted | GrpcFailedPrecondition
| GrpcAborted | GrpcOutOfRange | GrpcUnimplemented | GrpcInternal | GrpcUnavailable | GrpcDataLoss
| GrpcUnauthenticated

end
