(* ===== verification/Gateways.thy ===== *)
theory Gateways
  imports MemoryDatabase LocalFile RestClient ConsoleNotifier MockPayment GrpcApi
begin

text \<open>
  The traits of \<open>api/traits.rs\<close> as records of operations, their default methods, and the crate's
  implementations of them. The state of a gateway is only reached through its operations: \<open>'s\<close> is
  what one call leaves to the next. \<open>None\<close> is a panic of the call. The crate has no implementation
  of the gRPC traits.

  Against its trait, the in-memory database is compared with a keyed store: the answers of any
  sequence of calls are those of the store.
\<close>

type_synonym ('s, 'a) gateway_call = "'s \<Rightarrow> ('a gateway_result \<times> 's) option"

text \<open>A default method that converts the answer of another method.\<close>

definition map_call :: "('a \<Rightarrow> 'b) \<Rightarrow> ('s, 'a) gateway_call \<Rightarrow> ('s, 'b) gateway_call" where
  "map_call f g s = map_option (\<lambda>(r, s'). (map_ok f r, s')) (g s)"

section \<open>The traits\<close>

record 's database_inbound =
  din_query :: "string \<Rightarrow> query_params \<Rightarrow> ('s, db_record list) gateway_call"
  din_get_by_id :: "string \<Rightarrow> string \<Rightarrow> ('s, db_record option) gateway_call"
  din_exists :: "string \<Rightarrow> string \<Rightarrow> ('s, bool) gateway_call"
  din_count :: "string \<Rightarrow> query_params \<Rightarrow> ('s, u64) gateway_call"
  din_health_check :: "('s, health_check) gateway_call"

text \<open>The stream is the list of its items.\<close>

definition query_stream ::
  "'s database_inbound \<Rightarrow> string \<Rightarrow> query_params \<Rightarrow> ('s, db_record gateway_result list) gateway_call" where
  "query_stream g tbl params = map_call (map Ok) (din_query g tbl params)"

record 's database_outbound =
  dout_insert :: "string \<Rightarrow> db_record \<Rightarrow> ('s, write_result) gateway_call"
  dout_update :: "string \<Rightarrow> string \<Rightarrow> db_record \<Rightarrow> ('s, write_result) gateway_call"
  dout_delete :: "string \<Rightarrow> string \<Rightarrow> ('s, write_result) gateway_call"
  dout_batch_insert :: "string \<Rightarrow> db_record list \<Rightarrow> ('s, write_result) gateway_call"
  dout_update_where :: "string \<Rightarrow> query_params \<Rightarrow> db_record \<Rightarrow> ('s, write_result) gateway_call"
  dout_delete_where :: "string \<Rightarrow> query_params \<Rightarrow> ('s, write_result) gateway_call"

record 's database_gateway =
  dg_inbound :: "'s database_inbound"
  dg_outbound :: "'s database_outbound"

record 's file_inbound =
  fin_read :: "string \<Rightarrow> ('s, string) gateway_call"
  fin_metadata :: "string \<Rightarrow> ('s, file_info) gateway_call"
  fin_list :: "list_options \<Rightarrow> ('s, list_result) gateway_call"
  fin_exists :: "string \<Rightarrow> ('s, bool) gateway_call"
  fin_presigned_read_url :: "string \<Rightarrow> u64 \<Rightarrow> ('s, presigned_url) gateway_call"
  fin_health_check :: "('s, health_check) gateway_call"

definition list_stream ::
  "'s file_inbound \<Rightarrow> list_options \<Rightarrow> ('s, file_info gateway_result list) gateway_call" where
  "list_stream g opts = map_call (\<lambda>result. map Ok (lr_files result)) (fin_list g opts)"

record 's file_outbound =
  fout_write :: "string \<Rightarrow> string \<Rightarrow> upload_options \<Rightarrow> ('s, file_info) gateway_call"
  fout_delete :: "string \<Rightarrow> ('s, unit) gateway_call"
  fout_copy :: "string \<Rightarrow> string \<Rightarrow> ('s, file_info) gateway_call"
  fout_rename :: "string \<Rightarrow> string \<Rightarrow> ('s, file_info) gateway_call"
  fout_create_directory :: "string \<Rightarrow> ('s, unit) gateway_call"
  fout_delete_directory :: "string \<Rightarrow> bool \<Rightarrow> ('s, unit) gateway_call"
  fout_presigned_upload_url :: "string \<Rightarrow> u64 \<Rightarrow> ('s, presigned_url) gateway_call"

record 's file_gateway_object =
  fg_inbound :: "'s file_inbound"
  fg_outbound :: "'s file_outbound"

record 's http_inbound =
  hin_handle :: "http_request \<Rightarrow> ('s, http_response) gateway_call"
  hin_health_check :: "('s, health_check) gateway_call"

record 's http_outbound =
  hout_send :: "http_request \<Rightarrow> ('s, http_response) gateway_call"
  hout_get :: "string \<Rightarrow> ('s, http_response) gateway_call"
  hout_post_json :: "string \<Rightarrow> json \<Rightarrow> ('s, http_response) gateway_call"
  hout_put_json :: "string \<Rightarrow> json \<Rightarrow> ('s, http_response) gateway_call"
  hout_delete :: "string \<Rightarrow> ('s, http_response) gateway_call"

record 's http_gateway =
  hg_inbound :: "'s http_inbound"
  hg_outbound :: "'s http_outbound"

record 's notification_inbound =
  nin_get_status :: "string \<Rightarrow> ('s, notification_receipt) gateway_call"
  nin_list_sent :: "usize \<Rightarrow> usize \<Rightarrow> ('s, notification_receipt list) gateway_call"
  nin_health_check :: "('s, health_check) gateway_call"

record 's notification_outbound =
  nout_send :: "notification \<Rightarrow> ('s, notification_receipt) gateway_call"
  nout_send_batch :: "notification list \<Rightarrow> ('s, notification_receipt list) gateway_call"
  nout_cancel :: "string \<Rightarrow> ('s, bool) gateway_call"

record 's notification_gateway =
  ng_inbound :: "'s notification_inbound"
  ng_outbound :: "'s notification_outbound"

record 's payment_inbound =
  pin_get_payment :: "string \<Rightarrow> ('s, payment_result) gateway_call"
  pin_list_payments :: "string \<Rightarrow> usize \<Rightarrow> usize \<Rightarrow> ('s, payment_result list) gateway_call"
  pin_get_customer :: "string \<Rightarrow> ('s, customer) gateway_call"
  pin_list_payment_methods :: "string \<Rightarrow> ('s, payment_method list) gateway_call"
  pin_get_refund :: "string \<Rightarrow> ('s, refund_result) gateway_call"
  pin_health_check :: "('s, health_check) gateway_call"

record 's payment_outbound =
  pout_create_payment :: "payment \<Rightarrow> ('s, payment_result) gateway_call"
  pout_capture_payment :: "string \<Rightarrow> money option \<Rightarrow> ('s, payment_result) gateway_call"
  pout_cancel_payment :: "string \<Rightarrow> ('s, payment_result) gateway_call"
  pout_create_refund :: "refund \<Rightarrow> ('s, refund_result) gateway_call"
  pout_create_customer :: "customer \<Rightarrow> ('s, customer) gateway_call"
  pout_update_customer :: "customer \<Rightarrow> ('s, customer) gateway_call"
  pout_delete_customer :: "string \<Rightarrow> ('s, unit) gateway_call"

record 's payment_gateway =
  pg_inbound :: "'s payment_inbound"
  pg_outbound :: "'s payment_outbound"

record 's grpc_inbound =
  gin_handle_unary :: "grpc_request \<Rightarrow> ('s, grpc_response) gateway_call"
  gin_health_check :: "('s, health_check) gateway_call"

record 's grpc_outbound =
  gout_call_unary :: "string \<Rightarrow> grpc_request \<Rightarrow> ('s, grpc_response) gateway_call"
  gout_health_check :: "('s, health_check) gateway_call"

record 's grpc_gateway =
  gg_inbound :: "'s grpc_inbound"
  gg_outbound :: "'s grpc_outbound"

section \<open>The implementations\<close>

text \<open>
  A gateway object: what its locks guard, and how many calls it has answered. What a call takes
  from outside (the time, random identifiers, the iteration order of a hash map) may differ from
  call to call, so it is given by the number of the call.
\<close>

record 'r cell =
  cell_value :: 'r
  cell_calls :: nat

definition cell_new :: "'r \<Rightarrow> 'r cell" where
  "cell_new r = \<lparr>cell_value = r, cell_calls = 0\<rparr>"

definition changes :: "(nat \<Rightarrow> 'r \<Rightarrow> ('a gateway_result \<times> 'r) option) \<Rightarrow> ('r cell, 'a) gateway_call" where
  "changes f c =
     map_option (\<lambda>(a, r). (a, \<lparr>cell_value = r, cell_calls = Suc (cell_calls c)\<rparr>))
       (f (cell_calls c) (cell_value c))"

definition reads :: "(nat \<Rightarrow> 'r \<Rightarrow> 'a gateway_result) \<Rightarrow> ('r cell, 'a) gateway_call" where
  "reads f = changes (\<lambda>n r. Some (f n r, r))"

text \<open>The in-memory database.\<close>

record db_env =
  dbe_render :: "json \<Rightarrow> string"
  dbe_order :: "nat \<Rightarrow> table \<Rightarrow> string list"
  dbe_uuid :: "nat \<Rightarrow> nat \<Rightarrow> string"
  dbe_now :: "nat \<Rightarrow> timestamp"

definition table_order :: "db_env \<Rightarrow> nat \<Rightarrow> memory_database \<Rightarrow> string \<Rightarrow> string list" where
  "table_order env n db t = (case db t of Some m \<Rightarrow> dbe_order env n m | None \<Rightarrow> [])"

definition memory_database_inbound :: "db_env \<Rightarrow> memory_database cell database_inbound" where
  "memory_database_inbound env =
     \<lparr>din_query = (\<lambda>t params. changes (\<lambda>n db.
        map_option (\<lambda>a. (a, db)) (db_query (dbe_render env) (table_order env n db t) db t params))),
      din_get_by_id = (\<lambda>t i. reads (\<lambda>n db. db_get_by_id db t i)),
      din_exists = (\<lambda>t i. reads (\<lambda>n db. db_exists db t i)),
      din_count = (\<lambda>t params. reads (\<lambda>n db.
        db_count (dbe_render env) (table_order env n db t) db t params)),
      din_health_check = reads (\<lambda>n db. db_health_check (dbe_now env n))\<rparr>"

definition memory_database_outbound :: "db_env \<Rightarrow> memory_database cell database_outbound" where
  "memory_database_outbound env =
     \<lparr>dout_insert = (\<lambda>t r. changes (\<lambda>n db. db_insert db t r (dbe_uuid env n 0))),
      dout_update = (\<lambda>t i r. changes (\<lambda>n db. Some (db_update db t i r))),
      dout_delete = (\<lambda>t i. changes (\<lambda>n db. Some (db_delete db t i))),
      dout_batch_insert = (\<lambda>t rs. changes (\<lambda>n db. db_batch_insert db t rs (dbe_uuid env n))),
      dout_update_where = (\<lambda>t params updates. changes (\<lambda>n db.
        Some (db_update_where (dbe_render env) (table_order env n db t) db t params updates))),
      dout_delete_where = (\<lambda>t params. changes (\<lambda>n db.
        Some (db_delete_where (dbe_render env) (table_order env n db t) db t params)))\<rparr>"

definition memory_database_object :: "db_env \<Rightarrow> memory_database cell database_gateway" where
  "memory_database_object env =
     \<lparr>dg_inbound = memory_database_inbound env, dg_outbound = memory_database_outbound env\<rparr>"

text \<open>The local file gateway; \<open>names\<close> is the order in which a listed directory is read.\<close>

definition local_file_inbound ::
  "local_file_gateway \<Rightarrow> (nat \<Rightarrow> file_env) \<Rightarrow> (nat \<Rightarrow> string list) \<Rightarrow> file_system cell file_inbound" where
  "local_file_inbound g env names =
     \<lparr>fin_read = (\<lambda>path. reads (\<lambda>n fs. lg_read g fs path)),
      fin_metadata = (\<lambda>path. reads (\<lambda>n fs. lg_metadata g (env n) fs path)),
      fin_list = (\<lambda>opts. reads (\<lambda>n fs. lg_list g (env n) (names n) fs opts)),
      fin_exists = (\<lambda>path. reads (\<lambda>n fs. lg_exists g fs path)),
      fin_presigned_read_url = (\<lambda>path secs. reads (\<lambda>n fs. presigned_read_url g (fe_now (env n)) path secs)),
      fin_health_check = reads (\<lambda>n fs. lg_health_check g (fe_now (env n)) fs)\<rparr>"

definition local_file_outbound ::
  "local_file_gateway \<Rightarrow> (nat \<Rightarrow> file_env) \<Rightarrow> file_system cell file_outbound" where
  "local_file_outbound g env =
     \<lparr>fout_write = (\<lambda>path contents opts. changes (\<lambda>n fs. Some (lg_write g (env n) fs path contents opts))),
      fout_delete = (\<lambda>path. changes (\<lambda>n fs. Some (lg_delete g fs path))),
      fout_copy = (\<lambda>a b. changes (\<lambda>n fs. Some (lg_copy g (env n) fs a b))),
      fout_rename = (\<lambda>a b. changes (\<lambda>n fs. Some (lg_rename g (env n) fs a b))),
      fout_create_directory = (\<lambda>path. changes (\<lambda>n fs. Some (lg_create_directory g fs path))),
      fout_delete_directory = (\<lambda>path rec. changes (\<lambda>n fs. Some (lg_delete_directory g fs path rec))),
      fout_presigned_upload_url = (\<lambda>path secs. reads (\<lambda>n fs. presigned_upload_url g (fe_now (env n)) path secs))\<rparr>"

definition local_file_object ::
  "local_file_gateway \<Rightarrow> (nat \<Rightarrow> file_env) \<Rightarrow> (nat \<Rightarrow> string list) \<Rightarrow> file_system cell file_gateway_object" where
  "local_file_object g env names =
     \<lparr>fg_inbound = local_file_inbound g env names, fg_outbound = local_file_outbound g env\<rparr>"

text \<open>
  The HTTP client. \<open>hs\<close>, \<open>qs\<close> and \<open>ks\<close> are the iteration orders of a request's headers, its query
  and the default headers.
\<close>

record 'e http_env =
  hte_encode :: "string \<Rightarrow> string"
  hte_to_vec :: "json \<Rightarrow> (string, 'e) result"
  hte_to_value :: "json \<Rightarrow> (json, 'e) result"
  hte_header_order :: "nat \<Rightarrow> string list"
  hte_query_order :: "nat \<Rightarrow> string list"
  hte_default_order :: "nat \<Rightarrow> string list"
  hte_now :: "nat \<Rightarrow> timestamp"

definition rest_client_inbound :: "'e http_env \<Rightarrow> rest_client cell http_inbound" where
  "rest_client_inbound env =
     \<lparr>hin_handle = (\<lambda>request. reads (\<lambda>n c.
        rc_handle (hte_to_vec env) (hte_header_order env n) (hte_query_order env n) c request)),
      hin_health_check = reads (\<lambda>n c. rc_health_check (hte_now env n))\<rparr>"

definition rest_client_outbound :: "'e http_env \<Rightarrow> rest_client cell http_outbound" where
  "rest_client_outbound env =
     \<lparr>hout_send = (\<lambda>request. reads (\<lambda>n c.
        rc_send (hte_encode env) (hte_to_vec env) (hte_default_order env n) c request)),
      hout_get = (\<lambda>url. reads (\<lambda>n c.
        rc_get (hte_encode env) (hte_to_vec env) (hte_default_order env n) c url)),
      hout_post_json = (\<lambda>url body. reads (\<lambda>n c.
        rc_post_json (hte_encode env) (hte_to_vec env) (hte_to_value env) (hte_default_order env n) c url body)),
      hout_put_json = (\<lambda>url body. reads (\<lambda>n c.
        rc_put_json (hte_encode env) (hte_to_vec env) (hte_to_value env) (hte_default_order env n) c url body)),
      hout_delete = (\<lambda>url. reads (\<lambda>n c.
        rc_delete (hte_encode env) (hte_to_vec env) (hte_default_order env n) c url))\<rparr>"

definition rest_client_object :: "'e http_env \<Rightarrow> rest_client cell http_gateway" where
  "rest_client_object env =
     \<lparr>hg_inbound = rest_client_inbound env, hg_outbound = rest_client_outbound env\<rparr>"

text \<open>The console notifier. A batch reads the clock and draws an identifier for each of its messages.\<close>

record notify_env =
  ne_order :: "nat \<Rightarrow> string list"
  ne_now :: "nat \<Rightarrow> nat \<Rightarrow> timestamp"
  ne_uuid :: "nat \<Rightarrow> nat \<Rightarrow> string"

definition console_notifier_inbound :: "notify_env \<Rightarrow> console_notifier cell notification_inbound" where
  "console_notifier_inbound env =
     \<lparr>nin_get_status = (\<lambda>i. reads (\<lambda>n c. get_status (ne_now env n 0) c i)),
      nin_list_sent = (\<lambda>limit offset. reads (\<lambda>n c. list_sent (ne_order env n) c limit offset)),
      nin_health_check = reads (\<lambda>n c. cn_health_check (ne_now env n 0))\<rparr>"

definition console_notifier_outbound :: "notify_env \<Rightarrow> console_notifier cell notification_outbound" where
  "console_notifier_outbound env =
     \<lparr>nout_send = (\<lambda>m. changes (\<lambda>n c. send c (ne_now env n 0) (ne_uuid env n 0) m)),
      nout_send_batch = (\<lambda>ms. changes (\<lambda>n c. send_batch c (ne_now env n) (ne_uuid env n) ms)),
      nout_cancel = (\<lambda>i. changes (\<lambda>n c. Some (cancel c i)))\<rparr>"

definition console_notifier_object :: "notify_env \<Rightarrow> console_notifier cell notification_gateway" where
  "console_notifier_object env =
     \<lparr>ng_inbound = console_notifier_inbound env, ng_outbound = console_notifier_outbound env\<rparr>"

text \<open>The mock payments.\<close>

record pay_env =
  pye_order :: "nat \<Rightarrow> string list"
  pye_now :: "nat \<Rightarrow> timestamp"
  pye_uuid :: "nat \<Rightarrow> string"

definition mock_payment_inbound :: "pay_env \<Rightarrow> mock_gateway cell payment_inbound" where
  "mock_payment_inbound env =
     \<lparr>pin_get_payment = (\<lambda>i. reads (\<lambda>n g. get_payment g i)),
      pin_list_payments = (\<lambda>customer limit offset. reads (\<lambda>n g.
        list_payments (pye_order env n) g customer limit offset)),
      pin_get_customer = (\<lambda>i. reads (\<lambda>n g. get_customer g i)),
      pin_list_payment_methods = (\<lambda>i. reads (\<lambda>n g. list_payment_methods g i)),
      pin_get_refund = (\<lambda>i. reads (\<lambda>n g. get_refund g i)),
      pin_health_check = reads (\<lambda>n g. mg_health_check (pye_now env n))\<rparr>"

definition mock_payment_outbound :: "pay_env \<Rightarrow> mock_gateway cell payment_outbound" where
  "mock_payment_outbound env =
     \<lparr>pout_create_payment = (\<lambda>p. changes (\<lambda>n g. Some (create_payment g (pye_now env n) (pye_uuid env n) p))),
      pout_capture_payment = (\<lambda>i amount. changes (\<lambda>n g. Some (capture_payment g i amount))),
      pout_cancel_payment = (\<lambda>i. changes (\<lambda>n g. Some (cancel_payment g i))),
      pout_create_refund = (\<lambda>r. changes (\<lambda>n g. Some (create_refund g (pye_now env n) r))),
      pout_create_customer = (\<lambda>c. changes (\<lambda>n g. Some (create_customer g c))),
      pout_update_customer = (\<lambda>c. changes (\<lambda>n g. Some (update_customer g c))),
      pout_delete_customer = (\<lambda>i. changes (\<lambda>n g. Some (delete_customer g i)))\<rparr>"

definition mock_payment_object :: "pay_env \<Rightarrow> mock_gateway cell payment_gateway" where
  "mock_payment_object env =
     \<lparr>pg_inbound = mock_payment_inbound env, pg_outbound = mock_payment_outbound env\<rparr>"

section \<open>The store behind the database trait\<close>

text \<open>
  The specification: the tables created so far, one store of records under table and id, and the
  number of calls. A batch stores the records one after the other and skips those whose key is
  taken; conditional writes act on all records the condition holds for.
\<close>

record db_spec =
  sp_tables :: "string set"
  sp_records :: record_store
  sp_calls :: nat

fun spec_batch :: "(nat \<Rightarrow> string) \<Rightarrow> nat \<Rightarrow> string \<Rightarrow> db_record list \<Rightarrow> record_store \<Rightarrow> u64 \<Rightarrow> record_store \<times> u64" where
  "spec_batch uuid n t [] s c = (s, c)"
| "spec_batch uuid n t (r # rs) s c =
     (let k = record_key r (uuid n); n' = (if extract_id r = None then Suc n else n) in
      if s (t, k) = None then spec_batch uuid n' t rs (snd (spec_insert s t k r)) (c + 1)
      else spec_batch uuid n' t rs s c)"

definition selected :: "(json \<Rightarrow> string) \<Rightarrow> query_params \<Rightarrow> record_store \<Rightarrow> string \<Rightarrow> string set" where
  "selected render params s t =
     {i. \<exists>r. s (t, i) = Some r \<and> matches_filters render r (qp_filters params)}"

datatype db_request =
    Insert string db_record
  | Update string string db_record
  | Delete string string
  | BatchInsert string "db_record list"
  | UpdateWhere string query_params db_record
  | DeleteWhere string query_params
  | GetById string string
  | Exists string string
  | CountRows string query_params

datatype db_answer =
    Wrote "write_result gateway_result"
  | Got "db_record option gateway_result"
  | Present "bool gateway_result"
  | Counted "u64 gateway_result"

definition answer_with :: "('a gateway_result \<Rightarrow> db_answer) \<Rightarrow> ('s, 'a) gateway_call \<Rightarrow> 's \<Rightarrow> (db_answer \<times> 's) option" where
  "answer_with f g s = map_option (\<lambda>(r, s'). (f r, s')) (g s)"

fun db_call :: "'s database_gateway \<Rightarrow> db_request \<Rightarrow> 's \<Rightarrow> (db_answer \<times> 's) option" where
  "db_call g (Insert t r) = answer_with Wrote (dout_insert (dg_outbound g) t r)"
| "db_call g (Update t i r) = answer_with Wrote (dout_update (dg_outbound g) t i r)"
| "db_call g (Delete t i) = answer_with Wrote (dout_delete (dg_outbound g) t i)"
| "db_call g (BatchInsert t rs) = answer_with Wrote (dout_batch_insert (dg_outbound g) t rs)"
| "db_call g (UpdateWhere t p u) = answer_with Wrote (dout_update_where (dg_outbound g) t p u)"
| "db_call g (DeleteWhere t p) = answer_with Wrote (dout_delete_where (dg_outbound g) t p)"
| "db_call g (GetById t i) = answer_with Got (din_get_by_id (dg_inbound g) t i)"
| "db_call g (Exists t i) = answer_with Present (din_exists (dg_inbound g) t i)"
| "db_call g (CountRows t p) = answer_with Counted (din_count (dg_inbound g) t p)"

definition no_table :: "string \<Rightarrow> write_result gateway_result" where
  "no_table t = Err (gateway_error.NotFound (table_not_found_text t))"

text \<open>What a request answers and does to the records; the tables and the count follow.\<close>

fun spec_records ::
  "(json \<Rightarrow> string) \<Rightarrow> (nat \<Rightarrow> string) \<Rightarrow> db_request \<Rightarrow> string set \<Rightarrow> record_store \<Rightarrow> db_answer \<times> record_store" where
  "spec_records render uuid (Insert t r) tabs s =
     map_prod Wrote id (spec_insert s t (record_key r (uuid 0)) r)"
| "spec_records render uuid (Update t i u) tabs s =
     (Wrote (spec_update_result tabs s t i), spec_update s t i u)"
| "spec_records render uuid (Delete t i) tabs s =
     (Wrote (spec_delete_result tabs s t i), s((t, i) := None))"
| "spec_records render uuid (BatchInsert t rs) tabs s =
     (case spec_batch uuid 0 t rs s 0 of (s', c) \<Rightarrow> (Wrote (Ok (write_result_new c)), s'))"
| "spec_records render uuid (UpdateWhere t p u) tabs s =
     (if t \<notin> tabs then (Wrote (no_table t), s)
      else (Wrote (Ok (write_result_new (of_nat (card (selected render p s t))))),
        \<lambda>(t', i). if t' = t \<and> i \<in> selected render p s t then map_option (\<lambda>r. jmap_extend r u) (s (t', i))
                  else s (t', i)))"
| "spec_records render uuid (DeleteWhere t p) tabs s =
     (if t \<notin> tabs then (Wrote (no_table t), s)
      else (Wrote (Ok (write_result_new (of_nat (card (selected render p s t))))),
        \<lambda>(t', i). if t' = t \<and> i \<in> selected render p s t then None else s (t', i)))"
| "spec_records render uuid (GetById t i) tabs s = (Got (Ok (s (t, i))), s)"
| "spec_records render uuid (Exists t i) tabs s = (Present (Ok (s (t, i) \<noteq> None)), s)"
| "spec_records render uuid (CountRows t p) tabs s =
     (Counted (Ok (of_nat (card (selected render p s t)))), s)"

fun creates_table :: "db_request \<Rightarrow> string set" where
  "creates_table (Insert t r) = {t}"
| "creates_table (BatchInsert t rs) = {t}"
| "creates_table _ = {}"

definition db_spec_step ::
  "(json \<Rightarrow> string) \<Rightarrow> (nat \<Rightarrow> nat \<Rightarrow> string) \<Rightarrow> db_request \<Rightarrow> db_spec \<Rightarrow> db_answer \<times> db_spec" where
  "db_spec_step render uuid q s =
     (case spec_records render (uuid (sp_calls s)) q (sp_tables s) (sp_records s) of
        (a, records) \<Rightarrow> (a, \<lparr>sp_tables = creates_table q \<union> sp_tables s, sp_records = records,
                             sp_calls = Suc (sp_calls s)\<rparr>))"

definition db_abs :: "memory_database cell \<Rightarrow> db_spec" where
  "db_abs c = \<lparr>sp_tables = dom (cell_value c), sp_records = db_lookup (cell_value c),
     sp_calls = cell_calls c\<rparr>"

text \<open>Tables are finite, so each has iteration orders.\<close>

definition finite_tables :: "memory_database \<Rightarrow> bool" where
  "finite_tables db \<longleftrightarrow> (\<forall>t m. db t = Some m \<longrightarrow> finite (dom m))"

definition orders_tables :: "db_env \<Rightarrow> bool" where
  "orders_tables env \<longleftrightarrow> (\<forall>n m. finite (dom m) \<longrightarrow> enumerates (dbe_order env n m) m)"

lemma card_selected:
  assumes "db t = Some m" "enumerates ks m"
  shows "length (matching_rows render ks m params) = card (selected render params (db_lookup db) t)"
proof -
  have "set (delete_ids render m params ks) = selected render params (db_lookup db) t"
    using assms by (auto simp: delete_ids_def selected_def enumerates_def db_lookup_def split: option.splits)
  moreover have "distinct (delete_ids render m params ks)"
    using assms(2) by (simp add: delete_ids_def enumerates_def)
  ultimately show ?thesis by (metis distinct_card length_delete_ids)
qed

lemma selected_no_table: "t \<notin> dom db \<Longrightarrow> selected render params (db_lookup db) t = {}"
  by (auto simp: selected_def db_lookup_def)

lemma in_selected:
  "db t = Some m \<Longrightarrow> i \<in> selected render p (db_lookup db) t \<longleftrightarrow>
     (\<exists>r. m i = Some r \<and> matches_filters render r (qp_filters p))"
  by (simp add: selected_def db_lookup_def)

lemma batch_loop_spec:
  "db t = Some m \<Longrightarrow> batch_insert_loop uuid n rs m c = (m', c') \<Longrightarrow>
   spec_batch uuid n t rs (db_lookup db) c = (db_lookup (db(t \<mapsto> m')), c')"
proof (induction rs arbitrary: n m db c)
  case Nil
  then show ?case by (auto simp: fun_upd_idem)
next
  case (Cons r rs)
  let ?i = "record_key r (uuid n)" and ?n = "if extract_id r = None then Suc n else n"
  have pair: "(case extract_id r of Some s \<Rightarrow> (s, n) | None \<Rightarrow> (uuid n, Suc n)) = (?i, ?n)"
    by (simp add: record_key_def split: option.split)
  have at: "db_lookup db (t, ?i) = m ?i" by (rule db_lookup_Some_table) (rule Cons.prems(1))
  show ?case
  proof (cases "m ?i")
    case None
    let ?m = "m(?i \<mapsto> jmap_insert r ''id'' (JString ?i))"
    have "batch_insert_loop uuid ?n rs ?m (c + 1) = (m', c')"
      using Cons.prems(2) None by (simp only: batch_insert_loop.simps pair) simp
    from Cons.IH [of "db(t \<mapsto> ?m)", OF fun_upd_same this]
    show ?thesis
      using None at insert_at_lookup [of db t m, OF Cons.prems(1)]
      by (simp add: Let_def spec_insert_def del: fun_upd_apply)
  next
    case (Some v)
    have "batch_insert_loop uuid ?n rs m c = (m', c')"
      using Cons.prems(2) Some by (simp only: batch_insert_loop.simps pair) simp
    from Cons.IH [of db, OF Cons.prems(1) this] Some at show ?thesis by (simp add: Let_def)
  qed
qed

lemma finite_tables_upd: "finite_tables db \<Longrightarrow> finite (dom m) \<Longrightarrow> finite_tables (db(t \<mapsto> m))"
  by (auto simp: finite_tables_def)

lemma finite_ensure: "finite_tables db \<Longrightarrow> finite_tables (ensure_table t db)"
  by (auto simp: ensure_table_def finite_tables_def split: option.split)

lemma finite_table: "finite_tables db \<Longrightarrow> db t = Some m \<Longrightarrow> finite (dom m)"
  by (simp add: finite_tables_def)

lemma finite_insert:
  assumes "finite_tables db" "db_insert db t r u = Some (a, db')"
  shows "finite_tables db'"
proof -
  have "finite_tables (ensure_table t db)" by (rule finite_ensure) (rule assms(1))
  moreover obtain m where m: "ensure_table t db t = Some m" using ensure_table_Some by blast
  ultimately have "finite (dom m)" by (rule finite_table)
  then show ?thesis
    using assms(2) m \<open>finite_tables (ensure_table t db)\<close>
    by (auto simp: db_insert_def insert_locked_cases split: if_splits intro!: finite_tables_upd)
qed

lemma finite_batch_loop: "finite (dom m) \<Longrightarrow> finite (dom (fst (batch_insert_loop uuid n rs m c)))"
  by (induction uuid n rs m c rule: batch_insert_loop.induct)
    (auto simp: Let_def split: option.split)

lemma finite_narrow: "finite (dom m) \<Longrightarrow> (\<And>i. m i = None \<Longrightarrow> m' i = None) \<Longrightarrow> finite (dom m')"
  by (rule finite_subset [of _ "dom m"]) (auto, metis not_None_eq)

lemmas database_object =
  memory_database_object_def memory_database_inbound_def memory_database_outbound_def
  changes_def reads_def answer_with_def db_abs_def db_spec_step_def

lemma table_order_enumerates:
  assumes "orders_tables env" "finite_tables db" "db t = Some m"
  shows "enumerates (table_order env n db t) m"
  using assms by (simp add: orders_tables_def table_order_def finite_tables_def)

text \<open>The conditional writes on the store.\<close>

lemma lookup_table_upd:
  "db_lookup (db(t \<mapsto> m)) = (\<lambda>(t', i). if t' = t then m i else db_lookup db (t', i))"
  by (auto simp: fun_eq_iff db_lookup_upd)

lemma update_where_store:
  assumes "enumerates ks m" "db t = Some m"
  shows "db_update_where render ks db t p u =
    (Ok (write_result_new (of_nat (card (selected render p (db_lookup db) t)))),
     db(t \<mapsto> (\<lambda>i. if i \<in> selected render p (db_lookup db) t
       then map_option (\<lambda>r. jmap_extend r u) (m i) else m i)))"
proof -
  have ks: "distinct ks" "set ks = dom m" using assms(1) by (simp_all add: enumerates_def)
  have "(\<lambda>i. case m i of
        Some r \<Rightarrow> Some (if i \<in> set ks \<and> matches_filters render r (qp_filters p) then jmap_extend r u else r)
      | None \<Rightarrow> None) =
    (\<lambda>i. if i \<in> selected render p (db_lookup db) t then map_option (\<lambda>r. jmap_extend r u) (m i) else m i)"
    by (auto simp: fun_eq_iff in_selected [of db, OF assms(2)] ks(2) split: option.split)
  then show ?thesis
    using card_selected [of db, OF assms(2,1), of render p] assms(2)
    by (simp add: db_update_where_def update_where_loop_result [OF ks(1)] matching_rows_def)
qed

lemma delete_where_store:
  assumes "enumerates ks m" "db t = Some m"
  shows "db_delete_where render ks db t p =
    (Ok (write_result_new (of_nat (card (selected render p (db_lookup db) t)))),
     db(t \<mapsto> (\<lambda>i. if i \<in> selected render p (db_lookup db) t then None else m i)))"
proof -
  have "(\<lambda>i. case m i of
        Some r \<Rightarrow> if matches_filters render r (qp_filters p) then None else Some r
      | None \<Rightarrow> None) = (\<lambda>i. if i \<in> selected render p (db_lookup db) t then None else m i)"
    by (auto simp: fun_eq_iff in_selected [of db, OF assms(2)] split: option.split)
  then show ?thesis
    using card_selected [of db, OF assms(2,1), of render p]
    by (simp add: delete_where_table [of db, OF assms(2,1)])
qed

lemma dom_table_upd: "db t = Some m \<Longrightarrow> dom (db(t \<mapsto> m')) = dom db"
  by auto

lemma simulate_where:
  assumes env: "orders_tables env" and fin: "finite_tables (cell_value c)"
    and q: "q = UpdateWhere t p u \<or> q = DeleteWhere t p \<or> q = CountRows t p"
  shows "\<exists>a c'. db_call (memory_database_object env) q c = Some (a, c') \<and>
    (a, db_abs c') = db_spec_step (dbe_render env) (dbe_uuid env) q (db_abs c) \<and> finite_tables (cell_value c')"
proof (cases "cell_value c t")
  case None
  then have "t \<notin> dom (cell_value c)" by auto
  note none = selected_no_table [OF this]
  from None q fin show ?thesis
    by (auto simp: database_object no_table_def db_update_where_def db_delete_where_def db_count_def none)
next
  case (Some m)
  let ?db = "cell_value c"
  have en: "enumerates (table_order env n ?db t) m" for n
    using env fin Some by (rule table_order_enumerates)
  have fm: "finite (dom m)" using fin Some by (rule finite_table)
  have narrow: "finite_tables (?db(t \<mapsto> m'))" if "\<And>i. m i = None \<Longrightarrow> m' i = None" for m'
    by (intro finite_tables_upd fin finite_narrow [OF fm] that)
  have "dom (?db(t \<mapsto> m')) = dom ?db" for m' using Some by (rule dom_table_upd)
  with q show ?thesis
    using Some fin narrow
    by (auto simp: database_object db_count_matching card_selected [of ?db, OF Some en]
        update_where_store [of _ _ ?db, OF en Some] delete_where_store [of _ _ ?db, OF en Some]
        lookup_table_upd db_lookup_Some_table [of ?db, OF Some] fun_eq_iff simp del: fun_upd_apply)
qed

lemma finite_delete: "finite_tables db \<Longrightarrow> finite_tables (snd (db_delete db t i))"
  by (auto simp: db_delete_def split: option.split intro!: finite_tables_upd dest: finite_table)

lemma finite_update: "finite_tables db \<Longrightarrow> finite_tables (snd (db_update db t i u))"
  by (auto simp: db_update_def split: option.split intro!: finite_tables_upd dest: finite_table)

lemma simulate_batch:
  assumes "finite_tables db"
  shows "\<exists>n db'. db_batch_insert db t rs uuid = Some (Ok (write_result_new n), db') \<and>
    spec_batch uuid 0 t rs (db_lookup db) 0 = (db_lookup db', n) \<and>
    dom db' = insert t (dom db) \<and> finite_tables db'"
proof -
  let ?db = "ensure_table t db"
  obtain m where m: "?db t = Some m" using ensure_table_Some by blast
  obtain m' n where loop: "batch_insert_loop uuid 0 rs m 0 = (m', n)" by fastforce
  have fin: "finite_tables ?db" using assms by (rule finite_ensure)
  have "finite (dom m')" using finite_batch_loop [OF finite_table [of ?db, OF fin m]] loop by (metis fst_conv)
  with fin have "finite_tables (?db(t \<mapsto> m'))" by (rule finite_tables_upd)
  moreover have "spec_batch uuid 0 t rs (db_lookup db) 0 = (db_lookup (?db(t \<mapsto> m')), n)"
    using batch_loop_spec [of ?db, OF m loop] by simp
  moreover have "db_batch_insert db t rs uuid = Some (Ok (write_result_new n), ?db(t \<mapsto> m'))"
    by (simp add: db_batch_insert_def db_batch_insert_locked_def m loop)
  moreover have "dom (?db(t \<mapsto> m')) = insert t (dom db)" by (simp add: ensure_table_dom)
  ultimately show ?thesis by blast
qed

lemma simulate_call:
  assumes env: "orders_tables env" and fin: "finite_tables (cell_value c)"
  shows "\<exists>a c'. db_call (memory_database_object env) q c = Some (a, c') \<and>
    (a, db_abs c') = db_spec_step (dbe_render env) (dbe_uuid env) q (db_abs c) \<and> finite_tables (cell_value c')"
proof (cases q)
  case (Insert t r)
  let ?u = "dbe_uuid env (cell_calls c) 0"
  obtain res db' where ins: "db_insert (cell_value c) t r ?u = Some (res, db')"
    and spec: "spec_insert (db_lookup (cell_value c)) t (record_key r ?u) r = (res, db_lookup db')"
    and tabs: "dom db' = insert t (dom (cell_value c))"
    using insert_refines [of "cell_value c" t r ?u] by metis
  have "finite_tables db'" using fin ins by (rule finite_insert)
  then show ?thesis by (simp add: Insert database_object ins spec tabs)
next
  case (Update t i u)
  with update_refines [of "cell_value c" t i u] finite_update [OF fin, of t i u] show ?thesis
    by (auto simp: database_object)
next
  case (Delete t i)
  with delete_refines [of "cell_value c" t i] finite_delete [OF fin, of t i] show ?thesis
    by (auto simp: database_object)
next
  case (BatchInsert t rs)
  with simulate_batch [OF fin, of t rs "dbe_uuid env (cell_calls c)"] show ?thesis
    by (auto simp: database_object)
next
  case (GetById t i)
  with fin show ?thesis by (simp add: database_object get_by_id_lookup)
next
  case (Exists t i)
  with fin show ?thesis by (simp add: database_object exists_lookup)
qed (use simulate_where [OF env fin] in blast)+

interpretation database_store: simulation
  "db_call (memory_database_object env)" "db_spec_step (dbe_render env) (dbe_uuid env)" db_abs
  "\<lambda>c. orders_tables env \<and> finite_tables (cell_value c)" for env
proof unfold_locales
  fix c :: "memory_database cell" and q
  assume "orders_tables env \<and> finite_tables (cell_value c)"
  with simulate_call [of env c q] show "\<exists>a c'. db_call (memory_database_object env) q c = Some (a, c') \<and>
    (a, db_abs c') = db_spec_step (dbe_render env) (dbe_uuid env) q (db_abs c) \<and>
    orders_tables env \<and> finite_tables (cell_value c')" by blast
qed

lemma fresh_tables:
  "dom (db_with_tables ts) = set ts \<and> db_lookup (db_with_tables ts) = Map.empty \<and> finite_tables (db_with_tables ts)"
  unfolding db_with_tables_def
proof (induction ts rule: rev_induct)
  case Nil
  then show ?case by (simp add: finite_tables_def db_lookup_def)
next
  case (snoc t ts)
  let ?db = "foldl (\<lambda>m t. m(t \<mapsto> Map.empty)) Map.empty ts"
  have "finite_tables (?db(t \<mapsto> Map.empty))" by (intro finite_tables_upd) (simp_all add: snoc.IH)
  moreover have "db_lookup (?db(t \<mapsto> Map.empty)) = Map.empty"
    by (simp add: lookup_table_upd snoc.IH fun_eq_iff del: fun_upd_apply)
  ultimately show ?case by (simp add: snoc.IH del: fun_upd_apply)
qed

section \<open>Properties\<close>


definition demo_db_env :: db_env where
  "demo_db_env =
     \<lparr>dbe_render = (\<lambda>_. ''null''), dbe_order = (\<lambda>n m. sorted_list_of_set (dom m)),
      dbe_uuid = (\<lambda>n k. show_nat n @ ''-'' @ show_nat k), dbe_now = (\<lambda>n. 0)\<rparr>"

definition demo_requests :: "db_request list" where
  "demo_requests =
     [Insert ''t'' [(''id'', JString ''a'')], Insert ''t'' [(''id'', JString ''a''), (''n'', JNull)],
      Exists ''t'' ''a'', DeleteWhere ''u'' query_params_new, Delete ''t'' ''a'', GetById ''t'' ''a'']"


end
