(* ===== verification/DatabaseCallers.thy ===== *)
theory DatabaseCallers
  imports Gateways
begin

text \<open>
  Concurrent callers of the in-memory database (\<open>core/database/memory.rs\<close>). A call is begun and
  later answered; in between, other callers run. \<open>insert\<close> and \<open>batch_insert\<close> create their table
  in a critical section of their own when they begin, and do the rest in a second one; every other
  operation is one critical section, in which it answers. The log lists the answered calls in the
  order of these last sections, which lies between the begin and the answer of each call.
\<close>

section \<open>The callers\<close>

record callers =
  cl_cell :: "memory_database cell"
  cl_waiting :: "nat \<rightharpoonup> db_request"
  cl_log :: "(nat \<times> db_request \<times> db_answer) list"

definition callers_new :: "memory_database \<Rightarrow> callers" where
  "callers_new db = \<lparr>cl_cell = cell_new db, cl_waiting = Map.empty, cl_log = []\<rparr>"

text \<open>The first critical section.\<close>

fun begin_call :: "db_request \<Rightarrow> memory_database \<Rightarrow> memory_database" where
  "begin_call (Insert t r) db = ensure_table t db"
| "begin_call (BatchInsert t rs) db = ensure_table t db"
| "begin_call _ db = db"

text \<open>The section in which a call is answered; \<open>None\<close> is a panic.\<close>

fun answer_call :: "db_env \<Rightarrow> db_request \<Rightarrow> memory_database cell \<Rightarrow> (db_answer \<times> memory_database cell) option" where
  "answer_call env (Insert t r) =
     answer_with Wrote (changes (\<lambda>n db. db_insert_locked db t r (dbe_uuid env n 0)))"
| "answer_call env (BatchInsert t rs) =
     answer_with Wrote (changes (\<lambda>n db. db_batch_insert_locked db t rs (dbe_uuid env n)))"
| "answer_call env q = db_call (memory_database_object env) q"

inductive callers_step :: "db_env \<Rightarrow> callers \<Rightarrow> callers \<Rightarrow> bool" for env where
  call_begins:
    "cl_waiting s c = None \<Longrightarrow>
     callers_step env s
       (s\<lparr>cl_cell := (cl_cell s)\<lparr>cell_value := begin_call q (cell_value (cl_cell s))\<rparr>,
          cl_waiting := (cl_waiting s)(c \<mapsto> q)\<rparr>)"
| call_answered:
    "cl_waiting s c = Some q \<Longrightarrow> answer_call env q (cl_cell s) = Some (a, cell) \<Longrightarrow>
     callers_step env s
       (s\<lparr>cl_cell := cell, cl_waiting := (cl_waiting s)(c := None), cl_log := cl_log s @ [(c, q, a)]\<rparr>)"

inductive_cases callers_stepE: "callers_step env s s'"

definition log_requests :: "callers \<Rightarrow> db_request list" where
  "log_requests s = map (fst \<circ> snd) (cl_log s)"

text \<open>The requests begun so far: those answered and those waiting.\<close>

definition begun :: "callers \<Rightarrow> db_request set" where
  "begun s = set (log_requests s) \<union> ran (cl_waiting s)"

definition log_answers :: "callers \<Rightarrow> db_answer list" where
  "log_answers s = map (snd \<circ> snd) (cl_log s)"

section \<open>What the critical sections do\<close>

lemma begin_call_dom: "dom (begin_call q db) = creates_table q \<union> dom db"
  by (cases q) simp_all

lemma begin_call_finite: "finite_tables db \<Longrightarrow> finite_tables (begin_call q db)"
  by (cases q) (simp_all add: finite_ensure)

lemma begin_call_same: "creates_table q \<subseteq> dom db \<Longrightarrow> begin_call q db = db"
  by (cases q) (auto simp: ensure_table_same)

text \<open>Once its table is there, the last section of a call does what the whole call does.\<close>

lemma answer_call_whole:
  assumes "creates_table q \<subseteq> dom (cell_value c)"
  shows "answer_call env q c = db_call (memory_database_object env) q c"
  using assms
  by (cases q) (auto simp: database_object db_insert_def db_batch_insert_def ensure_table_same)

lemma answer_simulates:
  assumes "orders_tables env" "finite_tables (cell_value c)" "creates_table q \<subseteq> dom (cell_value c)"
  shows "\<exists>a c'. answer_call env q c = Some (a, c') \<and>
    (a, db_abs c') = db_spec_step (dbe_render env) (dbe_uuid env) q (db_abs c) \<and> finite_tables (cell_value c')"
  unfolding answer_call_whole [OF assms(3)] by (rule simulate_call) (rule assms(1,2))+

section \<open>The invariant\<close>

text \<open>
  The tables of waiting inserts are there; and as long as inserts only use tables that were there
  from the start, the log is one run of the store.
\<close>

definition explained :: "db_env \<Rightarrow> string list \<Rightarrow> callers \<Rightarrow> bool" where
  "explained env ts s \<longleftrightarrow>
     (log_answers s, db_abs (cl_cell s)) =
       run_spec (db_spec_step (dbe_render env) (dbe_uuid env)) (log_requests s)
         \<lparr>sp_tables = set ts, sp_records = Map.empty, sp_calls = 0\<rparr>"

definition callers_ok :: "db_env \<Rightarrow> string list \<Rightarrow> callers \<Rightarrow> bool" where
  "callers_ok env ts s \<longleftrightarrow>
     orders_tables env \<and> finite_tables (cell_value (cl_cell s)) \<and> set ts \<subseteq> dom (cell_value (cl_cell s)) \<and>
     (\<forall>q \<in> ran (cl_waiting s). creates_table q \<subseteq> dom (cell_value (cl_cell s))) \<and>
     ((\<forall>q \<in> begun s. creates_table q \<subseteq> set ts) \<longrightarrow> explained env ts s)"

lemma tables_grow:
  "(a, db_abs c') = db_spec_step render uuid q (db_abs c) \<Longrightarrow> dom (cell_value c') = creates_table q \<union> dom (cell_value c)"
  by (auto simp: db_spec_step_def db_abs_def split: prod.splits)

lemma ran_upd_None: "ran (m(c := None)) \<subseteq> ran m"
  by (auto simp: ran_def)

lemma ran_clear: "m c = Some q \<Longrightarrow> ran m \<subseteq> insert q (ran (m(c := None)))"
proof
  fix p assume "m c = Some q" "p \<in> ran m"
  then obtain a where "m a = Some p" by (auto simp: ran_def)
  then have "a = c \<Longrightarrow> p = q" "a \<noteq> c \<Longrightarrow> (m(c := None)) a = Some p" using \<open>m c = Some q\<close> by simp_all
  then show "p \<in> insert q (ran (m(c := None)))" by (cases "a = c") (blast intro: ranI)+
qed

lemma callers_ok_begin:
  assumes ok: "callers_ok env ts s" and free: "cl_waiting s c = None"
  shows "callers_ok env ts (s\<lparr>cl_cell := (cl_cell s)\<lparr>cell_value := begin_call q (cell_value (cl_cell s))\<rparr>,
    cl_waiting := (cl_waiting s)(c \<mapsto> q)\<rparr>)" (is "callers_ok env ts ?s")
proof -
  have ran: "ran (cl_waiting ?s) = insert q (ran (cl_waiting s))" using free by simp
  have "explained env ts ?s" if "\<forall>q \<in> begun ?s. creates_table q \<subseteq> set ts"
  proof -
    have "creates_table q \<subseteq> set ts" "\<forall>q \<in> begun s. creates_table q \<subseteq> set ts"
      using that ran by (auto simp: begun_def log_requests_def)
    with ok have "explained env ts s" "begin_call q (cell_value (cl_cell s)) = cell_value (cl_cell s)"
      by (auto simp: callers_ok_def intro!: begin_call_same)
    then show ?thesis by (simp add: explained_def log_answers_def log_requests_def)
  qed
  with ok ran show ?thesis
    by (auto simp: callers_ok_def begin_call_dom intro: begin_call_finite)
qed

lemma callers_ok_answer:
  assumes ok: "callers_ok env ts s" and wait: "cl_waiting s c = Some q"
    and ans: "answer_call env q (cl_cell s) = Some (a, cell)"
  shows "callers_ok env ts (s\<lparr>cl_cell := cell, cl_waiting := (cl_waiting s)(c := None),
    cl_log := cl_log s @ [(c, q, a)]\<rparr>)" (is "callers_ok env ts ?s")
proof -
  have q: "q \<in> ran (cl_waiting s)" using wait by (rule ranI)
  obtain a' c' where "answer_call env q (cl_cell s) = Some (a', c')"
    and step': "(a', db_abs c') = db_spec_step (dbe_render env) (dbe_uuid env) q (db_abs (cl_cell s))"
    and fin': "finite_tables (cell_value c')"
    using answer_simulates [of env "cl_cell s" q] ok q by (auto simp: callers_ok_def)
  with ans have step: "(a, db_abs cell) = db_spec_step (dbe_render env) (dbe_uuid env) q (db_abs (cl_cell s))"
    and fin: "finite_tables (cell_value cell)" by simp_all
  note dom = tables_grow [OF step]
  have ran: "ran (cl_waiting ?s) \<subseteq> ran (cl_waiting s)" by (simp add: ran_upd_None)
  have reqs: "set (log_requests ?s) = insert q (set (log_requests s))" by (simp add: log_requests_def)
  have "begun s \<subseteq> begun ?s"
    using ran_clear [of "cl_waiting s", OF wait] reqs unfolding begun_def by fastforce
  moreover have "explained env ts ?s" if "explained env ts s"
    using that [unfolded explained_def log_answers_def log_requests_def, symmetric] step [symmetric]
    by (simp add: explained_def log_answers_def log_requests_def run_spec_append)
  ultimately show ?thesis
    using ok fin ran by (auto simp: callers_ok_def dom)
qed

interpretation concurrent_calls: invariant_machine
  "\<lambda>s. orders_tables env \<and> s = callers_new (db_with_tables ts)" "callers_step env" "callers_ok env ts" for env ts
proof unfold_locales
  fix s
  assume "orders_tables env \<and> s = callers_new (db_with_tables ts)"
  then show "callers_ok env ts s"
    by (simp add: callers_ok_def callers_new_def cell_new_def fresh_tables explained_def log_answers_def
        log_requests_def db_abs_def)
next
  fix s s'
  assume "callers_ok env ts s" "callers_step env s s'"
  then show "callers_ok env ts s'"
    by (auto elim!: callers_stepE intro: callers_ok_begin callers_ok_answer)
qed

text \<open>Schedules: what the callers do one after the other.\<close>

datatype caller_event = Begins nat db_request | Answers nat

fun run_event :: "db_env \<Rightarrow> caller_event \<Rightarrow> callers \<Rightarrow> callers option" where
  "run_event env (Begins c q) s =
     (if cl_waiting s c = None
      then Some (s\<lparr>cl_cell := (cl_cell s)\<lparr>cell_value := begin_call q (cell_value (cl_cell s))\<rparr>,
                   cl_waiting := (cl_waiting s)(c \<mapsto> q)\<rparr>)
      else None)"
| "run_event env (Answers c) s =
     Option.bind (cl_waiting s c) (\<lambda>q.
       map_option (\<lambda>(a, cell). s\<lparr>cl_cell := cell, cl_waiting := (cl_waiting s)(c := None),
           cl_log := cl_log s @ [(c, q, a)]\<rparr>) (answer_call env q (cl_cell s)))"

fun run_schedule :: "db_env \<Rightarrow> caller_event list \<Rightarrow> callers \<Rightarrow> callers option" where
  "run_schedule env [] s = Some s"
| "run_schedule env (e # es) s = Option.bind (run_event env e s) (run_schedule env es)"

lemma run_event_step: "run_event env e s = Some s' \<Longrightarrow> callers_step env s s'"
  by (cases e) (auto simp: bind_eq_Some_conv intro: callers_step.intros split: if_splits)

lemma run_schedule_steps: "run_schedule env es s = Some s' \<Longrightarrow> (callers_step env)\<^sup>*\<^sup>* s s'"
  by (induction es arbitrary: s)
    (auto simp: bind_eq_Some_conv dest: run_event_step intro: converse_rtranclp_into_rtranclp)

section \<open>Properties\<close>


definition demo_schedule :: "caller_event list" where
  "demo_schedule =
     [Begins 0 (Insert ''t'' [(''id'', JString ''a'')]), Begins 1 (Insert ''t'' [(''id'', JString ''a'')]),
      Answers 1, Begins 1 (Exists ''t'' ''a''), Answers 0, Answers 1]"

lemma demo_schedule_runs:
  "\<exists>s. run_schedule demo_db_env demo_schedule (callers_new (db_with_tables [''t''])) = Some s \<and>
    log_requests s = [Insert ''t'' [(''id'', JString ''a'')], Insert ''t'' [(''id'', JString ''a'')], Exists ''t'' ''a''] \<and>
    cl_waiting s = Map.empty"
  by (simp add: demo_schedule_def callers_new_def cell_new_def database_object db_insert_locked_def
      extract_id_def ensure_table_def db_with_tables_def db_exists_def log_requests_def Let_def)


lemma mset_two: "mset xs = {#a, b#} \<Longrightarrow> xs = [a, b] \<or> xs = [b, a]"
proof -
  assume m: "mset xs = {#a, b#}"
  then have "length xs = 2" by (metis size_mset size_add_mset size_empty numeral_2_eq_2)
  then obtain x y where "xs = [x, y]" by (auto simp: numeral_2_eq_2 length_Suc_conv)
  with m show ?thesis by (auto simp: add_eq_conv_ex)
qed

text \<open>
  C20: without the table, \<open>insert\<close> is not atomic: an update of the inserted id that runs between
  its two sections finds the table but not the record, an answer that no order of the two calls
  on one store gives, whatever the identifiers.
\<close>

theorem insert_not_atomic:
  assumes "extract_id r = Some i"
  shows "\<exists>s. (callers_step env)\<^sup>*\<^sup>* (callers_new db_new) s \<and>
    mset (log_requests s) = {#Insert t r, Update t i u#} \<and>
    (\<nexists>log render uuid. mset log = mset (cl_log s) \<and>
      map (snd \<circ> snd) log = fst (run_spec (db_spec_step render uuid) (map (fst \<circ> snd) log)
        \<lparr>sp_tables = {}, sp_records = Map.empty, sp_calls = 0\<rparr>))"
proof -
  let ?ins = "(0, Insert t r, Wrote (Ok (write_result_inserted i)))"
    and ?upd = "(1, Update t i u, Wrote (Err (gateway_error.NotFound (record_not_found_text i t))))"
  obtain s where run: "run_schedule env [Begins 0 (Insert t r), Begins 1 (Update t i u), Answers 1, Answers 0]
      (callers_new db_new) = Some s" and log: "cl_log s = [?upd, ?ins]"
    using assms by (simp add: callers_new_def cell_new_def database_object db_insert_locked_def
        ensure_table_def db_new_def db_update_def)
  have no_order: False
    if "mset log = mset (cl_log s)"
      and "map (snd \<circ> snd) log = fst (run_spec (db_spec_step render uuid) (map (fst \<circ> snd) log)
        \<lparr>sp_tables = {}, sp_records = Map.empty, sp_calls = 0\<rparr>)" for log render uuid
  proof -
    have "log = [?upd, ?ins] \<or> log = [?ins, ?upd]" using that(1) unfolding log by (intro mset_two) simp
    with that(2) show False
      by (auto simp: db_spec_step_def spec_update_result_def spec_update_def spec_insert_def
          record_key_def assms split_beta record_not_found_text_def table_not_found_text_def)
  qed
  have "mset (log_requests s) = {#Insert t r, Update t i u#}" by (simp add: log_requests_def log)
  with run_schedule_steps [OF run] no_order show ?thesis by blast
qed

theorem insert_not_atomic_witness:
  "\<exists>s. (callers_step demo_db_env)\<^sup>*\<^sup>* (callers_new db_new) s \<and>
    mset (log_requests s) = {#Insert ''t'' [(''id'', JString ''a'')], Update ''t'' ''a'' [(''n'', JNull)]#} \<and>
    (\<nexists>log render uuid. mset log = mset (cl_log s) \<and>
      map (snd \<circ> snd) log = fst (run_spec (db_spec_step render uuid) (map (fst \<circ> snd) log)
        \<lparr>sp_tables = {}, sp_records = Map.empty, sp_calls = 0\<rparr>))"
  by (rule insert_not_atomic) (simp add: extract_id_def)

end
