(* ===== verification/Spec2Isabelle.thy ===== *)
theory Spec2Isabelle
  imports MemoryDatabase PaymentLocks Retry RateLimit ServiceCache ConsoleNotifier LocalFile PublishState
    RestClient ConfigLoad Sinks Daemon Builders Workspace DatabaseCallers
begin

text \<open>
  \<^bold>\<open>The program.\<close> The crate \<open>swe-gateway\<close> offers gateways to outside resources (databases, files,
  HTTP, notifications, payments, gRPC) behind inbound and outbound traits, a middleware pipeline
  with authentication, retries, rate limiting and metrics, a configuration read from TOML and the
  environment, service caches, a daemon runner, and a release tool (\<open>xtask\<close>) that publishes the
  workspace's crates to a file based registry and moves workspace members. A gateway is built by
  \<open>saf/builders.rs\<close> or from a \<open>GatewayConfig\<close>; requests reach it through a pipeline, whose
  middlewares may answer themselves; what it does to its resource and what it answers is what this
  development is about.

  \<^bold>\<open>How the code is read.\<close> Structs are records, enums are datatypes, \<open>Result\<close> is the datatype
  \<open>result\<close> of \<open>Prelude\<close>, and a panic is an outer \<open>None\<close>. Machine integers are words. A Rust string
  is its UTF-8 bytes, a list of characters below 256, and slicing inside a character is a panic.
  Doubles are rationals with the special values and rounding to nearest even (\<open>Float64\<close>). A hash
  map is a partial map; where its iteration order can be seen, the order is an argument (\<open>ks\<close>) and
  the theorems hold for every order. Operations on state take it and return it. Clocks, random
  identifiers, \<open>serde_json\<close>, \<open>toml\<close>, \<open>base64\<close>, \<open>sha2\<close>, \<open>glob\<close>, \<open>git\<close> and \<open>cargo\<close> are arguments;
  what a theorem needs of them is a hypothesis of that theorem, and its witness shows one instance.
  The standard library's paths, files and text operations are definitions of their own (\<open>Paths\<close>,
  \<open>FileSystem\<close>, \<open>Text\<close>), because the behaviour of the code depends on them. The file system is a
  tree without links and permissions, and nobody else changes it.

  \<^bold>\<open>Shared theories.\<close>
  \<^item> \<open>Prelude\<close>: results, orderings, words, text; \<open>sort_by\<close> as a stable sort that is only defined for
    total comparisons; the locales \<open>total_comparison\<close>, \<open>keyed_store\<close>, \<open>invariant_machine\<close> and
    \<open>simulation\<close>, which the components interpret.
  \<^item> \<open>Float64\<close>, \<open>Json\<close>, \<open>Text\<close>, \<open>Paths\<close>, \<open>FileSystem\<close>: doubles, JSON values, text, paths, files. The
    lemmas of \<open>FileSystem\<close> say which locations an operation can change.

  \<^bold>\<open>The crate\<close> (paths are below \<open>src/src\<close>).
  \<^item> \<open>GatewayTypes\<close> (\<open>api/types.rs\<close>): error codes, errors, health checks, pagination.
  \<^item> \<open>DatabaseApi\<close>, \<open>MemoryDatabase\<close> (\<open>api/database.rs\<close>, \<open>core/database/memory.rs\<close>): tables of records.
    Queries are filtered, sorted and paged exactly as an independent specification says; the writes
    refine an abstract store through the locale \<open>record_contract\<close>; conditional updates and deletes
    touch the matching records only; reachable tables are well formed.
  \<^item> \<open>PaymentApi\<close>, \<open>MockPayment\<close>, \<open>PaymentLocks\<close> (\<open>api/payment.rs\<close>, \<open>core/payment/mock.rs\<close>): amounts,
    payments, refunds, customers; the books stay consistent; and the same operations as programs
    over read-write locks, interleaved: two refunds can deadlock, one refund among other operations
    cannot.
  \<^item> \<open>Pipeline\<close>, \<open>Retry\<close>, \<open>RateLimit\<close> (\<open>api/middleware.rs\<close>, \<open>core/pipeline.rs\<close>, \<open>api/process.rs\<close>,
    \<open>core/auth_middleware.rs\<close>, \<open>core/metrics_bridge.rs\<close>, \<open>core/retry.rs\<close>, \<open>core/rate_limit.rs\<close>): the
    order of middlewares and the early answers; authentication as a guard (locale
    \<open>guard_middleware\<close>, shared with the rate limiter); attempts, delays and what is retried; the
    token bucket in doubles.
  \<^item> \<open>ServiceCache\<close> (\<open>state.rs\<close>, \<open>provider.rs\<close>): lazily created services, their critical sections
    interleaved; the traits of lazy providers.
  \<^item> \<open>NotificationApi\<close>, \<open>ConsoleNotifier\<close> (\<open>api/notification.rs\<close>, \<open>core/notification/console.rs\<close>):
    formatting with truncation and wrapping, receipts, when sending panics.
  \<^item> \<open>FileApi\<close>, \<open>LocalFile\<close> (\<open>api/file.rs\<close>, \<open>core/file/local.rs\<close>): the file gateway implements the
    contract of a blob store (locale \<open>blob_store\<close>); paths without \<open>..\<close> stay below its directory and
    paths with \<open>..\<close> do not.
  \<^item> \<open>HttpApi\<close>, \<open>RestClient\<close> (\<open>api/http.rs\<close>, \<open>core/http/rest.rs\<close>): the URL and the headers a request is
    sent with; the client answers with mock responses, as the code does.
  \<^item> \<open>GrpcApi\<close>, \<open>Gateways\<close> (\<open>api/grpc.rs\<close>, \<open>api/traits.rs\<close>): the traits as records of operations with
    their default methods, and the implementations above as such records; the answers of the
    in-memory database to any sequence of calls are those of one keyed store (locale \<open>simulation\<close>).
  \<^item> \<open>DatabaseCallers\<close> (\<open>core/database/memory.rs\<close>): any number of concurrent callers of the database,
    their critical sections interleaved. Calls are linearizable when the tables that inserts use are
    there from the start; an insert that has to create its table is two sections and not atomic.
  \<^item> \<open>ConfigLoad\<close>, \<open>Sinks\<close>, \<open>Daemon\<close>, \<open>Builders\<close> (\<open>saf/config.rs\<close>, \<open>core/output.rs\<close>, \<open>core/input.rs\<close>,
    \<open>core/daemon.rs\<close>, \<open>saf/builders.rs\<close>): expansion of environment
    variables against a template semantics, validation, sinks, the source scanner, start-up of
    daemons, the factories.

  \<^bold>\<open>The release tool\<close> (paths are below \<open>src/xtask/src\<close>).
  \<^item> \<open>Publish\<close> (\<open>publish.rs\<close>): selection and order. Kahn's algorithm ends, and its result is a
    topological order exactly when there is no cycle.
  \<^item> \<open>Registry\<close> (\<open>registry.rs\<close>, \<open>index.rs\<close>, \<open>checksum.rs\<close>): the registry's paths and URL; updating an
    index file is a map update on its entries.
  \<^item> \<open>PublishRun\<close>, \<open>PublishState\<close> (\<open>publish.rs\<close>): the two phases of a run, over a world of files and
    executed commands; which commands run in which order; what the registry holds after a
    successful and after an interrupted run.
  \<^item> \<open>Workspace\<close> (\<open>workspace.rs\<close>, \<open>main.rs\<close>): renaming and synchronising members on a tree of TOML
    values, and the dispatch of the commands. A rename moves the directory and rewrites the members;
    a bulk rename of unnested members rewrites them and moves nothing.

  \<^bold>\<open>Composition.\<close> The pipeline theorems take any middleware, and \<open>RateLimit\<close>, \<open>Retry\<close> and the
  authentication middleware are instances. Below, a gateway over a pipeline that starts with a rate
  limiter is compared with the same gateway without it, and a retry around a rate limiter is shown to
  succeed after one delay that is worth a token. \<open>Gateways\<close> and \<open>DatabaseCallers\<close> state the database's
  contract for sequences and for interleavings of calls over the same store. \<open>Sinks\<close> writes through \<open>LocalFile\<close>. \<open>Builders\<close> connects the
  configuration to the gateways. \<open>PublishState\<close> composes the order of \<open>Publish\<close>, the index update of
  \<open>Registry\<close> and the frame lemmas of \<open>FileSystem\<close>. \<open>xtask_main\<close> is the release tool's entry.

  \<^bold>\<open>Fuel and termination.\<close> The loops of the code are total functions here, with these exceptions.
  \<open>Publish.kahn\<close> is a partial function, and \<open>Publish.publish_order_correct\<close> shows that it returns.
  \<open>Sinks.scan_dir\<close> and \<open>PublishRun.walk_index_files\<close> carry the depth of the walk; for the scanner,
  any depth at least that of the deepest file gives the complete result
  (\<open>Sinks.scan_finds_visible_files\<close>). The retry loop recurses on the attempts that remain. Lock
  schedules are step relations, and \<open>PaymentLocks\<close> shows which of them can always go on.

  \<^bold>\<open>Not modelled.\<close> Asynchrony beyond the interleavings named above: a future is run to its result.
  Log records, and lines printed on the standard output by the release tool except by \<open>list\<close>.
  Serialisation formats. Unicode case mapping outside ASCII. \<open>block_on\<close> and the TCP server, process
  spawning and runtime of the daemon, which are arguments. Crate roots, module declarations and
  re-exports (\<open>lib.rs\<close>, \<open>spi.rs\<close>, \<open>saf/mod.rs\<close>), and the two marker traits of \<open>provider.rs\<close>, which
  have no methods. Tests and examples.
\<close>

section \<open>A gateway behind a rate limiter\<close>

text \<open>
  \<open>limiter_apart\<close>: the limiter is a part of the world that the rest of the pipeline, whose
  \<open>execute\<close> is \<open>run\<close>, neither reads nor changes, and no time passes.
\<close>

definition limiter_apart ::
  "('w \<Rightarrow> nat) \<Rightarrow> ('w \<Rightarrow> rate_limiter) \<Rightarrow> (rate_limiter \<Rightarrow> 'w \<Rightarrow> 'w) \<Rightarrow> ('req \<Rightarrow> 'w \<Rightarrow> 'a \<times> 'w) \<Rightarrow> bool" where
  "limiter_apart clock rd wr run \<longleftrightarrow>
     (\<forall>rl rl' w. rd (wr rl w) = rl \<and> wr (rd w) w = w \<and> wr rl' (wr rl w) = wr rl' w \<and> clock (wr rl w) = clock w) \<and>
     (\<forall>r rl w. run r (wr rl w) = map_prod id (wr rl) (run r w) \<and> clock (snd (run r w)) = clock w)"

text \<open>What a gateway answers and does when its pipeline is \<open>p\<close>.\<close>

definition serves ::
  "('w \<Rightarrow> nat) \<Rightarrow> ('w, 'req, 'resp, 'preq, 'presp) pipeline_gateway \<Rightarrow>
   ('w, 'preq, 'presp, gateway_error) default_pipeline \<Rightarrow>
   'req input_request \<Rightarrow> 'w \<Rightarrow> 'resp output_response gateway_result \<times> 'w" where
  "serves clock g p = process_via_pipeline clock (g\<lparr>pgw_pipeline := execute p\<rparr>)"

lemma serves_apart:
  "limiter_apart clock rd wr (execute p) \<Longrightarrow> limiter_apart clock rd wr (serves clock g p)"
  by (auto simp: limiter_apart_def serves_def process_via_pipeline_def Let_def split: prod.split result.split)
    (metis snd_conv)+

lemma apart_keeps: "limiter_apart clock rd wr run \<Longrightarrow> rd (snd (run r w)) = rd w"
  unfolding limiter_apart_def by (metis map_prod_simp prod.collapse snd_conv)

lemma apart_run:
  "limiter_apart clock rd wr run \<Longrightarrow> run_spec run qs (wr rl w) = map_prod id (wr rl) (run_spec run qs w)"
  by (induction qs arbitrary: w) (auto simp: limiter_apart_def map_prod_def split: prod.split)

text \<open>A bucket with \<open>k\<close> whole tokens at time \<open>now\<close>.\<close>

definition whole_bucket :: "nat \<Rightarrow> nat \<Rightarrow> rate_limiter \<Rightarrow> bool" where
  "whole_bucket k now rl \<longleftrightarrow>
     unat (rl_capacity rl) \<le> 2 ^ 53 \<and> k \<le> unat (rl_capacity rl) \<and>
     rl_state rl = \<lparr>bs_tokens = Fin (of_nat k), bs_last_refill = now\<rparr> \<and> (\<exists>r. rl_refill_rate rl = Fin r)"

lemma limited_process:
  assumes "whole_bucket k (clock w) (rd w)" "limiter_apart clock rd wr (execute (default_pipeline_new pre router post))"
  shows "serves clock g (default_pipeline_new (rate_limit_object clock rd wr # pre) router post) request w =
    (case k of
       0 \<Rightarrow> (Err (RateLimitExceeded (exceeded_text (rd w))), w)
     | Suc j \<Rightarrow> map_prod id (wr ((rd w)\<lparr>rl_state := \<lparr>bs_tokens = Fin (of_nat j), bs_last_refill = clock w\<rparr>\<rparr>))
         (serves clock g (default_pipeline_new pre router post) request w))"
proof -
  obtain r where "unat (rl_capacity (rd w)) \<le> 2 ^ 53" "k \<le> unat (rl_capacity (rd w))"
    "rl_state (rd w) = \<lparr>bs_tokens = Fin (of_nat k), bs_last_refill = clock w\<rparr>" "rl_refill_rate (rd w) = Fin r"
    using assms(1) by (auto simp: whole_bucket_def)
  note step = acquire_whole [OF this]
  have apart: "run r (wr rl w) = map_prod id (wr rl) (run r w)" "clock (wr rl w) = clock w" "wr (rd w) w = w"
    if "run = execute (default_pipeline_new pre router post)" for run r rl w
    using assms(2) that by (simp_all add: limiter_apart_def)
  show ?thesis
    unfolding serves_def process_via_pipeline_def pipeline_gateway.simps limiter_guard.guard_first
    by (cases k) (auto simp: rate_limit_object_def plain_middleware_def default_action_def
        rate_limit_request_def step apart Let_def split: prod.split result.split)
qed

lemma limited_run:
  fixes clock rd wr g pre router post
  defines "inner \<equiv> serves clock g (default_pipeline_new pre router post)"
    and "outer \<equiv> serves clock g (default_pipeline_new (rate_limit_object clock rd wr # pre) router post)"
  assumes apart: "limiter_apart clock rd wr (execute (default_pipeline_new pre router post))"
  shows "whole_bucket k (clock w) (rd w) \<Longrightarrow>
    fst (run_spec outer requests w) = fst (run_spec inner (take k requests) w) @
      replicate (length requests - k) (Err (RateLimitExceeded (exceeded_text (rd w))))"
proof (induction requests arbitrary: k w)
  case (Cons q qs)
  note step = limited_process [OF Cons.prems apart, of g q, folded inner_def outer_def]
  have in_apart: "limiter_apart clock rd wr inner"
    unfolding inner_def by (rule serves_apart) (rule apart)
  show ?case
  proof (cases k)
    case 0
    with step Cons.IH [OF Cons.prems] show ?thesis by (simp add: split_beta)
  next
    case (Suc j)
    let ?rl = "(rd w)\<lparr>rl_state := \<lparr>bs_tokens = Fin (of_nat j), bs_last_refill = clock w\<rparr>\<rparr>"
    obtain a w1 where one: "inner q w = (a, w1)" by force
    have lens: "rd (wr ?rl w1) = ?rl" "clock (wr ?rl w1) = clock w"
      using in_apart one unfolding limiter_apart_def by (metis snd_conv)+
    have "whole_bucket j (clock (wr ?rl w1)) (rd (wr ?rl w1))"
      using Cons.prems Suc by (auto simp: whole_bucket_def lens)
    from Cons.IH [OF this] one step Suc show ?thesis
      by (simp add: split_beta lens apart_run [OF in_apart] exceeded_text_def)
  qed
qed simp

lemma new_bucket:
  assumes "1 \<le> unat c" "unat c \<le> 2 ^ 53" "rl_refill_rate (rate_limiter_new now c rate) = Fin r"
  shows "whole_bucket (unat c) now (rate_limiter_new now c rate)"
proof -
  have "1 \<le> c" using assms(1) by (simp add: word_le_nat_alt)
  then have "max c 1 = c" by (rule max_absorb1)
  then show ?thesis
    using assms f64_of_u64_exact [OF assms(2)]
    by (simp add: whole_bucket_def rate_limiter_new_def rlb_build_def rlb_set_refill_rate_def
        rlb_set_capacity_def rate_limiter_builder_new_def)
qed


text \<open>A router that counts the requests it sees, beside a limiter for two requests.\<close>

type_synonym demo_world = "nat \<times> rate_limiter"

definition demo_router :: "(demo_world, nat, nat, gateway_error) router" where
  "demo_router q w = (Ok (10 * q + fst w), (Suc (fst w), snd w))"

definition demo_request :: "nat \<Rightarrow> nat input_request" where
  "demo_request q = input_request_new ''r'' 0 q"

definition demo_service :: "(demo_world, nat, nat, nat, nat) pipeline_gateway" where
  "demo_service =
     \<lparr>pgw_pipeline = execute (default_pipeline_new [] demo_router []), pgw_into_pipeline_req = iq_payload,
      pgw_into_response = (\<lambda>resp i ms. Ok (output_response_ok i ms resp))\<rparr>"

definition demo_limited :: "nat input_request list \<Rightarrow> nat output_response gateway_result list" where
  "demo_limited requests = fst (run_spec (serves (\<lambda>w. 7) demo_service
      (default_pipeline_new [rate_limit_object (\<lambda>w. 7) snd (\<lambda>rl w. (fst w, rl))] demo_router []))
    requests (0, rate_limiter_new 7 2 (Fin 10)))"


section \<open>Retrying through a rate limiter\<close>


type_synonym timed_world = "nat \<times> rate_limiter"

definition demo_waiter :: "(timed_world, nat, nat) retry_middleware" where
  "demo_waiter = retry_middleware_new 2 (Fixed 1000000000) default_retry_predicate
     (rate_limit_object fst snd (\<lambda>rl w. (fst w, rl))) (\<lambda>d w. (fst w + d, snd w))"

text \<open>A limiter for one request, already used up.\<close>

definition used_up :: rate_limiter where
  "used_up = snd (try_acquire 0 (rate_limiter_new 0 1 (Fin 10)))"


end
